(* ===== verification/Prelude.thy ===== *)
theory Prelude
  imports Main
begin

text \<open>
  Shared vocabulary of the development: the ways a C++ execution can go wrong, the result
  type that carries them, sequencing of fallible computations, and a few generic list facts.

  A computation of type \<open>'a res\<close> either ends in a fault (undefined behaviour or an exception
  nobody catches) or delivers a value.  Faults are branches of the model, never hidden by
  HOL's total functions.
\<close>

named_theorems res_simps \<open>rewrite rules for sequencing fallible computations\<close>

subsection \<open>Exceptions and faults\<close>

datatype cxx_exn =
    Invalid_argument
  | Out_of_range
  | Filesystem_error
  | Ptree_bad_path
  | Ptree_bad_data
  | Json_parser_error
  | System_error

datatype fault =
    NullDeref
  | EndIterator
  | UseAfterFree
  | DoubleFree
  | DivByZero
  | SignedOverflow
  | OutOfBounds
  | Uninitialised
  | Uncaught cxx_exn

type_synonym 'a res = "fault + 'a"
type_synonym 'a exn = "cxx_exn + 'a"

subsection \<open>Sequencing\<close>

definition rbind :: "'e + 'a \<Rightarrow> ('a \<Rightarrow> 'e + 'b) \<Rightarrow> 'e + 'b" where
  "rbind m f = (case m of Inl e \<Rightarrow> Inl e | Inr x \<Rightarrow> f x)"

definition throw_uncaught :: "'a exn \<Rightarrow> 'a res" where
  "throw_uncaught m = (case m of Inl e \<Rightarrow> Inl (Uncaught e) | Inr x \<Rightarrow> Inr x)"

definition rguard :: "bool \<Rightarrow> 'e \<Rightarrow> 'e + unit" where
  "rguard b e = (if b then Inr () else Inl e)"

lemma rbind_Inl [simp, res_simps]: "rbind (Inl e) f = Inl e"
  by (simp add: rbind_def)

lemma rbind_Inr [simp, res_simps]: "rbind (Inr x) f = f x"
  by (simp add: rbind_def)

lemma rbind_eq_Inr: "rbind m f = Inr y \<longleftrightarrow> (\<exists>x. m = Inr x \<and> f x = Inr y)"
  by (cases m) auto

lemma rbind_eq_Inl: "rbind m f = Inl e \<longleftrightarrow> m = Inl e \<or> (\<exists>x. m = Inr x \<and> f x = Inl e)"
  by (cases m) auto

lemma rbind_assoc: "rbind (rbind m f) g = rbind m (\<lambda>x. rbind (f x) g)"
  by (cases m) auto

lemma rbind_cong [fundef_cong]:
  "m = m' \<Longrightarrow> (\<And>x. m' = Inr x \<Longrightarrow> f x = f' x) \<Longrightarrow> rbind m f = rbind m' f'"
  by (cases m') auto

lemma throw_uncaught_simps [simp, res_simps]:
  "throw_uncaught (Inl e) = Inl (Uncaught e)"
  "throw_uncaught (Inr x) = Inr x"
  by (simp_all add: throw_uncaught_def)

lemma throw_uncaught_eq_Inr: "throw_uncaught m = Inr x \<longleftrightarrow> m = Inr x"
  by (cases m) auto

lemma rguard_simps [simp, res_simps]:
  "rguard True e = Inr ()"
  "rguard False e = Inl e"
  by (simp_all add: rguard_def)

lemma rguard_eq_Inr: "rguard b e = Inr u \<longleftrightarrow> b"
  by (cases b) auto

text \<open>Sequencing computations that may also never return (\<open>None\<close>).\<close>

definition sbind :: "'e + 'a option \<Rightarrow> ('a \<Rightarrow> 'e + 'b option) \<Rightarrow> 'e + 'b option" where
  "sbind m f = rbind m (\<lambda>r. case r of None \<Rightarrow> Inr None | Some x \<Rightarrow> f x)"

lemma sbind_simps [simp, res_simps]:
  "sbind (Inl e) f = Inl e" "sbind (Inr None) f = Inr None" "sbind (Inr (Some x)) f = f x"
  by (simp_all add: sbind_def)

lemma sbind_eq_Some: "sbind m f = Inr (Some y) \<longleftrightarrow> (\<exists>x. m = Inr (Some x) \<and> f x = Inr (Some y))"
  by (auto simp: sbind_def rbind_eq_Inr split: option.splits)

text \<open>A loop over a list whose body may fault: the first fault stops it.\<close>

fun rfold :: "('a \<Rightarrow> 's \<Rightarrow> 'e + 's) \<Rightarrow> 'a list \<Rightarrow> 's \<Rightarrow> 'e + 's" where
  "rfold f [] s = Inr s"
| "rfold f (x # xs) s = rbind (f x s) (rfold f xs)"

lemma rfold_append: "rfold f (xs @ ys) s = rbind (rfold f xs s) (rfold f ys)"
proof (induction xs arbitrary: s)
  case Nil
  show ?case by simp
next
  case (Cons x xs)
  show ?case by (cases "f x s") (simp_all add: Cons.IH)
qed

lemma rfold_invariant:
  assumes "rfold f xs s = Inr t" and "P s"
    and "\<And>x s s'. x \<in> set xs \<Longrightarrow> P s \<Longrightarrow> f x s = Inr s' \<Longrightarrow> P s'"
  shows "P t"
  using assms
proof (induction xs arbitrary: s)
  case Nil
  then show ?case by simp
next
  case (Cons x xs)
  from Cons.prems(1) obtain s' where "f x s = Inr s'" and "rfold f xs s' = Inr t"
    by (auto simp: rbind_eq_Inr)
  with Cons.IH [of s'] Cons.prems(2,3) show ?case
    by (metis list.set_intros)
qed

text \<open>A pure counterpart: a loop that never faults computes a fold.\<close>

lemma rfold_pure:
  "(\<And>x s. x \<in> set xs \<Longrightarrow> f x s = Inr (g x s)) \<Longrightarrow> rfold f xs s = Inr (fold g xs s)"
  by (induction xs arbitrary: s) auto

subsection \<open>Lists\<close>

lemma takeWhile_eq_all: "takeWhile P (xs @ ys) = xs @ takeWhile P ys" if "\<forall>x \<in> set xs. P x"
  using that by (induction xs) auto

lemma takeWhile_shorter: "x \<in> set xs \<Longrightarrow> \<not> P x \<Longrightarrow> length (takeWhile P xs) < length xs"
  by (induction xs) auto

lemma filter_mod_upt_step:
  "filter P [0..<Suc n] = filter P [0..<n] @ (if P n then [n] else [])"
  by simp

end
