(* ===== verification/Cxx_Base.thy ===== *)
theory Cxx_Base
  imports Prelude "HOL-Library.Signed_Division" "HOL-Library.Word"
begin

text \<open>
  The part of the C++ language and standard library the program computes with: 32-bit
  \<open>int\<close> arithmetic with its undefined cases, the narrowing conversion to \<open>int\<close>, and
  \<open>std::string\<close> with \<open>find\<close>, \<open>substr\<close>, \<open>stoi\<close> and \<open>to_string\<close>.
\<close>

named_theorems cint_simps \<open>evaluation of checked C++ integer arithmetic\<close>

subsection \<open>The type int\<close>

definition in_int32 :: "int \<Rightarrow> bool" where
  "in_int32 x \<longleftrightarrow> - (2 ^ 31) \<le> x \<and> x < 2 ^ 31"

definition chk32 :: "int \<Rightarrow> int res" where
  "chk32 x = (if in_int32 x then Inr x else Inl SignedOverflow)"

definition to_int32 :: "int \<Rightarrow> int" where
  "to_int32 x = (x + 2 ^ 31) mod 2 ^ 32 - 2 ^ 31"

definition int_mul :: "int \<Rightarrow> int \<Rightarrow> int res" where
  "int_mul a b = chk32 (a * b)"

definition int_add :: "int \<Rightarrow> int \<Rightarrow> int res" where
  "int_add a b = chk32 (a + b)"

definition int_sub :: "int \<Rightarrow> int \<Rightarrow> int res" where
  "int_sub a b = chk32 (a - b)"

definition int_div :: "int \<Rightarrow> int \<Rightarrow> int res" where
  "int_div a b = (if b = 0 then Inl DivByZero else chk32 (a sdiv b))"

definition int_mod :: "int \<Rightarrow> int \<Rightarrow> int res" where
  "int_mod a b = (if b = 0 then Inl DivByZero
     else if in_int32 (a sdiv b) then Inr (a smod b) else Inl SignedOverflow)"

text \<open>\<open>time_t\<close> arithmetic is done in 64 bits.\<close>

definition in_int64 :: "int \<Rightarrow> bool" where
  "in_int64 x \<longleftrightarrow> - (2 ^ 63) \<le> x \<and> x < 2 ^ 63"

definition chk64 :: "int \<Rightarrow> int res" where
  "chk64 x = (if in_int64 x then Inr x else Inl SignedOverflow)"

lemma chk32_eq_Inr: "chk32 x = Inr y \<longleftrightarrow> in_int32 x \<and> y = x"
  by (auto simp: chk32_def)

lemma chk32_in [cint_simps]: "in_int32 x \<Longrightarrow> chk32 x = Inr x"
  by (simp add: chk32_def)

lemma chk32_out [cint_simps]: "\<not> in_int32 x \<Longrightarrow> chk32 x = Inl SignedOverflow"
  by (simp add: chk32_def)

lemma to_int32_in: "in_int32 x \<Longrightarrow> to_int32 x = x"
  by (simp add: in_int32_def to_int32_def)

lemma in_int32_to_int32 [simp]: "in_int32 (to_int32 x)"
  using pos_mod_bound [of "2 ^ 32" "x + 2 ^ 31"] pos_mod_sign [of "2 ^ 32" "x + 2 ^ 31"]
  by (simp add: in_int32_def to_int32_def)

lemma sdiv_nonneg: "0 \<le> a \<Longrightarrow> 0 \<le> b \<Longrightarrow> (a::int) sdiv b = a div b"
  by (cases "a = 0"; cases "b = 0") (auto simp: signed_divide_int_def)

lemma smod_nonneg: "0 \<le> a \<Longrightarrow> 0 \<le> b \<Longrightarrow> (a::int) smod b = a mod b"
  by (cases "a = 0"; cases "b = 0") (auto simp: signed_modulo_int_def)

lemma in_int32_div:
  assumes "0 \<le> a" and "0 < b" and "in_int32 a"
  shows "in_int32 (a div b)"
proof -
  have "0 \<le> a div b" using assms by (simp add: pos_imp_zdiv_nonneg_iff)
  moreover have "a div b \<le> a" using zdiv_mono2 [of a 1 b] assms by simp
  ultimately show ?thesis using assms(3) by (simp add: in_int32_def)
qed

lemma int_div_nonneg [cint_simps]:
  "0 \<le> a \<Longrightarrow> 0 < b \<Longrightarrow> in_int32 a \<Longrightarrow> int_div a b = Inr (a div b)"
  by (simp add: int_div_def sdiv_nonneg chk32_in in_int32_div)

lemma int_mod_nonneg [cint_simps]:
  "0 \<le> a \<Longrightarrow> 0 < b \<Longrightarrow> in_int32 a \<Longrightarrow> int_mod a b = Inr (a mod b)"
  by (simp add: int_mod_def sdiv_nonneg smod_nonneg in_int32_div)

lemma int_mod_nonzero:
  assumes "0 \<le> a" and "b \<noteq> 0" and "in_int32 a"
  shows "\<exists>r. int_mod a b = Inr r \<and> (r = 0 \<longleftrightarrow> a mod b = 0)"
proof -
  have "0 \<le> a div \<bar>b\<bar>" and "a div \<bar>b\<bar> \<le> a"
    using assms(1,2) zdiv_mono2 [of a 1 "\<bar>b\<bar>"] by (auto simp: pos_imp_zdiv_nonneg_iff)
  then have "in_int32 (a sdiv b)"
    using assms by (auto simp: signed_divide_int_def in_int32_def sgn_if)
  moreover have "a smod b = 0 \<longleftrightarrow> a mod b = 0"
    using assms(1) by (auto simp: signed_modulo_int_def sgn_if mod_eq_0_iff_dvd)
  ultimately show ?thesis using assms(2) by (simp add: int_mod_def)
qed

lemma int_div_zero [simp, cint_simps]: "int_div a 0 = Inl DivByZero"
  by (simp add: int_div_def)

lemma int_mod_zero [simp, cint_simps]: "int_mod a 0 = Inl DivByZero"
  by (simp add: int_mod_def)

subsection \<open>std::string: find and substr\<close>

text \<open>
  A position is a \<open>size_t\<close>, a 64-bit word; \<open>npos\<close> is its largest value, so arithmetic on the
  result of a failed \<open>find\<close> wraps around, as it does in the code.
\<close>

type_synonym size_t = "64 word"

definition npos :: size_t where
  "npos = - 1"

fun find_from :: "string \<Rightarrow> string \<Rightarrow> nat \<Rightarrow> nat option" where
  "find_from pat [] i = (if pat = [] then Some i else None)"
| "find_from pat (c # s) i =
     (if take (length pat) (c # s) = pat then Some i else find_from pat s (Suc i))"

definition str_find :: "string \<Rightarrow> string \<Rightarrow> size_t \<Rightarrow> size_t" where
  "str_find s pat pos =
     (if unat pos > length s then npos
      else case find_from pat (drop (unat pos) s) (unat pos) of
             None \<Rightarrow> npos | Some i \<Rightarrow> of_nat i)"

definition str_substr :: "string \<Rightarrow> size_t \<Rightarrow> size_t \<Rightarrow> string exn" where
  "str_substr s pos n =
     (if unat pos > length s then Inl Out_of_range else Inr (take (unat n) (drop (unat pos) s)))"

definition str_contains :: "string \<Rightarrow> string \<Rightarrow> bool" where
  "str_contains s pat \<longleftrightarrow> str_find s pat 0 \<noteq> npos"

subsection \<open>std::to_string and std::stoi\<close>

definition digit_char :: "nat \<Rightarrow> char" where
  "digit_char d = char_of (48 + d)"

definition is_digit :: "char \<Rightarrow> bool" where
  "is_digit c \<longleftrightarrow> (48::nat) \<le> of_char c \<and> of_char c \<le> (57::nat)"

definition digit_val :: "char \<Rightarrow> nat" where
  "digit_val c = of_char c - 48"

fun nat_to_string :: "nat \<Rightarrow> string" where
  "nat_to_string n =
     (if n < 10 then [digit_char n] else nat_to_string (n div 10) @ [digit_char (n mod 10)])"

declare nat_to_string.simps [simp del]

definition to_string :: "int \<Rightarrow> string" where
  "to_string i = (if i < 0 then CHR ''-'' # nat_to_string (nat (- i)) else nat_to_string (nat i))"

definition is_space :: "char \<Rightarrow> bool" where
  "is_space c \<longleftrightarrow> of_char c = (32::nat) \<or> ((9::nat) \<le> of_char c \<and> of_char c \<le> (13::nat))"

definition digits_val :: "string \<Rightarrow> nat" where
  "digits_val ds = foldl (\<lambda>acc c. 10 * acc + digit_val c) 0 ds"

text \<open>\<open>strtol\<close> in base 10: leading white space, one sign, the longest run of digits.\<close>

definition parse_sign :: "string \<Rightarrow> bool \<times> string" where
  "parse_sign s = (case s of
       [] \<Rightarrow> (False, [])
     | c # cs \<Rightarrow> if c = CHR ''-'' then (True, cs) else if c = CHR ''+'' then (False, cs) else (False, s))"

definition parse_int :: "string \<Rightarrow> int option" where
  "parse_int s =
     (let (neg, t) = parse_sign (dropWhile is_space s);
          ds = takeWhile is_digit t
      in if ds = [] then None
         else Some (if neg then - int (digits_val ds) else int (digits_val ds)))"

definition stoi :: "string \<Rightarrow> int exn" where
  "stoi s = (case parse_int s of
       None \<Rightarrow> Inl Invalid_argument
     | Some v \<Rightarrow> if in_int32 v then Inr v else Inl Out_of_range)"

lemma is_digit_digit_char [simp]: "d < 10 \<Longrightarrow> is_digit (digit_char d)"
  by (simp add: is_digit_def digit_char_def)

lemma digit_val_digit_char [simp]: "d < 10 \<Longrightarrow> digit_val (digit_char d) = d"
  by (simp add: digit_val_def digit_char_def)

lemma nat_to_string_nonempty [simp]: "nat_to_string n \<noteq> []"
  by (subst nat_to_string.simps) simp

lemma nat_to_string_digits: "\<forall>c \<in> set (nat_to_string n). is_digit c"
proof (induction n rule: nat_to_string.induct)
  case (1 n)
  then show ?case
    by (cases "n < 10") (subst nat_to_string.simps; auto)+
qed

lemma digits_val_snoc: "digits_val (ds @ [c]) = 10 * digits_val ds + digit_val c"
  by (simp add: digits_val_def)

lemma digits_val_nat_to_string [simp]: "digits_val (nat_to_string n) = n"
proof (induction n rule: nat_to_string.induct)
  case (1 n)
  show ?case
  proof (cases "n < 10")
    case True
    then show ?thesis by (subst nat_to_string.simps) (simp add: digits_val_def)
  next
    case False
    with "1" have IH: "digits_val (nat_to_string (n div 10)) = n div 10" by simp
    from False show ?thesis
      by (subst nat_to_string.simps) (simp add: digits_val_snoc IH)
  qed
qed

lemma digit_not_space: "is_digit c \<Longrightarrow> \<not> is_space c"
  by (auto simp: is_digit_def is_space_def)

lemma digit_not_sign: "is_digit c \<Longrightarrow> c \<noteq> CHR ''-'' \<and> c \<noteq> CHR ''+''"
  by (auto simp: is_digit_def)

lemma parse_int_digits:
  assumes "ds \<noteq> []" and "\<forall>c \<in> set ds. is_digit c" and "rest = [] \<or> \<not> is_digit (hd rest)"
  shows "parse_int (ds @ rest) = Some (int (digits_val ds))"
proof -
  from assms(1,2) obtain c cs where ds: "ds = c # cs" and c: "is_digit c"
    by (cases ds) auto
  have tw: "takeWhile is_digit (ds @ rest) = ds"
    using assms(2,3) by (cases rest) (auto simp: takeWhile_eq_all)
  have "dropWhile is_space (ds @ rest) = ds @ rest"
    using c by (simp add: ds digit_not_space)
  moreover have "parse_sign (ds @ rest) = (False, ds @ rest)"
    using digit_not_sign [OF c] by (simp add: ds parse_sign_def)
  ultimately show ?thesis
    using assms(1) by (simp add: parse_int_def tw)
qed

lemma length_nat_to_string: "n < 10 ^ Suc k \<Longrightarrow> length (nat_to_string n) \<le> Suc k"
proof (induction k arbitrary: n)
  case 0
  then show ?case by (subst nat_to_string.simps) simp
next
  case (Suc k)
  then have "n div 10 < 10 ^ Suc k" by auto
  from Suc.IH [OF this] show ?case by (subst nat_to_string.simps) auto
qed

text \<open>Decimal names read back: \<open>stoi\<close> inverts \<open>to_string\<close> on the range of \<open>int\<close>.\<close>

lemma stoi_nat_to_string:
  "rest = [] \<or> \<not> is_digit (hd rest) \<Longrightarrow>
   stoi (nat_to_string n @ rest) =
     (if in_int32 (int n) then Inr (int n) else Inl Out_of_range)"
  by (simp add: stoi_def parse_int_digits nat_to_string_digits)

lemma stoi_to_string:
  "0 \<le> i \<Longrightarrow> rest = [] \<or> \<not> is_digit (hd rest) \<Longrightarrow>
   stoi (to_string i @ rest) = (if in_int32 i then Inr i else Inl Out_of_range)"
  by (simp add: to_string_def stoi_nat_to_string)

subsection \<open>Searching for a character\<close>

lemma find_from_char:
  "find_from [c] s i = (if c \<in> set s then Some (i + length (takeWhile (\<lambda>d. d \<noteq> c) s)) else None)"
  by (induction s arbitrary: i) auto

lemma str_find_char:
  assumes "length s < 2 ^ 64" and "c \<in> set s"
  shows "unat (str_find s [c] 0) = length (takeWhile (\<lambda>d. d \<noteq> c) s)"
proof -
  have "length (takeWhile (\<lambda>d. d \<noteq> c) s) \<le> length s" by (rule length_takeWhile_le)
  with assms show ?thesis by (simp add: str_find_def find_from_char unsigned_of_nat take_bit_nat_eq_self)
qed

lemma str_find_char_none: "c \<notin> set s \<Longrightarrow> str_find s [c] 0 = npos"
  by (simp add: str_find_def find_from_char)

lemma str_substr_upto_char:
  assumes "length s < 2 ^ 64"
  shows "str_substr s 0 (str_find s [c] 0) = Inr (takeWhile (\<lambda>d. d \<noteq> c) s)"
proof (cases "c \<in> set s")
  case True
  with assms show ?thesis
    by (simp add: str_substr_def str_find_char takeWhile_eq_take [symmetric])
next
  case False
  then have "takeWhile (\<lambda>d. d \<noteq> c) s = s" unfolding takeWhile_eq_all_conv by metis
  moreover have "unat npos = 2 ^ 64 - 1" by (simp add: npos_def unsigned_minus_1_eq_mask mask_eq_exp_minus_1)
  ultimately show ?thesis
    using False assms by (simp del: takeWhile_eq_all_conv add: str_substr_def str_find_char_none)
qed

text \<open>A number is read up to the first character that cannot continue it.\<close>

lemma parse_int_prefix:
  assumes "\<not> is_digit c" and "\<not> is_space c" and "c \<noteq> CHR ''-''" and "c \<noteq> CHR ''+''"
  shows "parse_int (takeWhile (\<lambda>d. d \<noteq> c) s) = parse_int s"
proof -
  have digits: "takeWhile is_digit (takeWhile (\<lambda>d. d \<noteq> c) t) = takeWhile is_digit t" for t
    using assms(1) by (induction t) auto
  have space: "dropWhile is_space (takeWhile (\<lambda>d. d \<noteq> c) t) = takeWhile (\<lambda>d. d \<noteq> c) (dropWhile is_space t)" for t
    using assms(2) by (induction t) auto
  have sign: "parse_sign (takeWhile (\<lambda>d. d \<noteq> c) t) = apsnd (takeWhile (\<lambda>d. d \<noteq> c)) (parse_sign t)" for t
    using assms(3,4) by (cases t) (auto simp: parse_sign_def)
  show ?thesis
    by (simp add: parse_int_def space sign digits split: prod.split)
qed

lemma stoi_prefix:
  "\<not> is_digit c \<Longrightarrow> \<not> is_space c \<Longrightarrow> c \<noteq> CHR ''-'' \<Longrightarrow> c \<noteq> CHR ''+'' \<Longrightarrow>
   stoi (takeWhile (\<lambda>d. d \<noteq> c) s) = stoi s"
  by (simp add: stoi_def parse_int_prefix)

end
