(* ===== verification/Cxx_Map.thy ===== *)
theory Cxx_Map
  imports Prelude
begin

text \<open>
  \<open>std::unordered_map\<close> as an association list with distinct keys.  The position of an entry is
  the place the container's iteration visits it, which the standard leaves open: no lemma
  depends on it.  \<open>emplace\<close> never overwrites, \<open>find\<close> gives \<open>end()\<close> (\<open>None\<close>) for a missing key,
  \<open>erase\<close> of a missing key does nothing, and \<open>operator[]\<close> inserts the default value.
\<close>

type_synonym ('k, 'v) umap = "('k \<times> 'v) list"

definition um_find :: "('k, 'v) umap \<Rightarrow> 'k \<Rightarrow> 'v option" where
  "um_find m k = map_of m k"

definition um_emplace :: "'k \<Rightarrow> 'v \<Rightarrow> ('k, 'v) umap \<Rightarrow> ('k, 'v) umap" where
  "um_emplace k v m = (case um_find m k of None \<Rightarrow> m @ [(k, v)] | Some _ \<Rightarrow> m)"

definition um_erase :: "'k \<Rightarrow> ('k, 'v) umap \<Rightarrow> ('k, 'v) umap" where
  "um_erase k m = filter (\<lambda>(j, _). j \<noteq> k) m"

text \<open>Writing through the reference \<open>find\<close> or the iteration hands out.\<close>

definition um_modify :: "'k \<Rightarrow> ('v \<Rightarrow> 'v) \<Rightarrow> ('k, 'v) umap \<Rightarrow> ('k, 'v) umap" where
  "um_modify k f m = map (\<lambda>(j, v). if j = k then (j, f v) else (j, v)) m"

definition um_index :: "'k \<Rightarrow> 'v \<Rightarrow> ('k, 'v) umap \<Rightarrow> 'v \<times> ('k, 'v) umap" where
  "um_index k d m = (case um_find m k of Some v \<Rightarrow> (v, m) | None \<Rightarrow> (d, um_emplace k d m))"

definition um_wf :: "('k, 'v) umap \<Rightarrow> bool" where
  "um_wf m \<longleftrightarrow> distinct (map fst m)"

definition um_keys :: "('k, 'v) umap \<Rightarrow> 'k list" where
  "um_keys m = map fst m"

lemma um_find_None_iff: "um_find m k = None \<longleftrightarrow> k \<notin> set (um_keys m)"
  by (simp add: um_find_def um_keys_def map_of_eq_None_iff)

lemma um_find_Nil [simp]: "um_find [] k = None"
  by (simp add: um_find_def)

lemma um_find_Cons: "um_find ((j, v) # m) k = (if k = j then Some v else um_find m k)"
  by (simp add: um_find_def)

lemma um_find_append:
  "um_find (m @ n) k = (case um_find m k of None \<Rightarrow> um_find n k | Some v \<Rightarrow> Some v)"
  by (simp add: um_find_def map_add_def split: option.splits)

lemma um_find_emplace:
  "um_find (um_emplace k v m) j = (if j = k \<and> um_find m k = None then Some v else um_find m j)"
  by (auto simp: um_emplace_def um_find_append um_find_Cons split: option.splits)

lemma um_find_erase: "um_find (um_erase k m) j = (if j = k then None else um_find m j)"
  by (induction m) (auto simp: um_erase_def um_find_Cons)

lemma um_erase_None: "um_find m k = None \<Longrightarrow> um_erase k m = m"
  by (induction m) (auto simp: um_erase_def um_find_Cons split: if_splits)

lemma um_find_modify:
  "um_find (um_modify k f m) j = (if j = k then map_option f (um_find m k) else um_find m j)"
  by (induction m) (auto simp: um_modify_def um_find_Cons)

lemma um_keys_emplace:
  "um_keys (um_emplace k v m) = um_keys m @ (if um_find m k = None then [k] else [])"
  by (auto simp: um_emplace_def um_keys_def split: option.splits)

lemma um_keys_erase: "um_keys (um_erase k m) = filter (\<lambda>j. j \<noteq> k) (um_keys m)"
  by (induction m) (auto simp: um_erase_def um_keys_def)

lemma um_keys_modify [simp]: "um_keys (um_modify k f m) = um_keys m"
  by (induction m) (auto simp: um_modify_def um_keys_def)

lemma um_wf_keys: "um_wf m \<longleftrightarrow> distinct (um_keys m)"
  by (simp add: um_wf_def um_keys_def)

lemma um_wf_Nil [simp]: "um_wf []"
  by (simp add: um_wf_def)

lemma um_wf_emplace [simp]: "um_wf m \<Longrightarrow> um_wf (um_emplace k v m)"
  by (auto simp: um_wf_keys um_keys_emplace um_find_None_iff)

lemma um_wf_erase [simp]: "um_wf m \<Longrightarrow> um_wf (um_erase k m)"
  by (simp add: um_wf_keys um_keys_erase)

lemma um_wf_modify [simp]: "um_wf (um_modify k f m) = um_wf m"
  by (simp add: um_wf_keys)

text \<open>The entry of a key splits the container; every operation on the key acts on that entry.\<close>

lemma um_split:
  assumes "um_find m k = Some v" and "um_wf m"
  shows "\<exists>m1 m2. m = m1 @ (k, v) # m2 \<and> (\<forall>f. um_modify k f m = m1 @ (k, f v) # m2) \<and>
    um_erase k m = m1 @ m2"
proof -
  from assms(1) have "(k, v) \<in> set m" by (auto simp: um_find_def dest: map_of_SomeD)
  then obtain m1 m2 where m: "m = m1 @ (k, v) # m2" by (auto simp: in_set_conv_decomp)
  with assms(2) have k: "k \<notin> fst ` set m1" "k \<notin> fst ` set m2"
    by (auto simp: um_wf_def)
  have mod: "um_modify k f n = n" if "k \<notin> fst ` set n" for n f
    using that by (induction n) (auto simp: um_modify_def)
  have era: "um_erase k n = n" if "k \<notin> fst ` set n" for n
    using that by (induction n) (auto simp: um_erase_def)
  have "um_modify k f m = m1 @ (k, f v) # m2" for f
    using mod [OF k(1)] mod [OF k(2)] by (simp add: m um_modify_def)
  moreover have "um_erase k m = m1 @ m2"
    using era [OF k(1)] era [OF k(2)] by (simp add: m um_erase_def)
  ultimately show ?thesis using m by blast
qed

lemma um_find_mem: "um_wf m \<Longrightarrow> (k, v) \<in> set m \<longleftrightarrow> um_find m k = Some v"
  by (simp add: um_find_def um_wf_def)

subsection \<open>The contract\<close>

text \<open>
  What a client of an \<open>unordered_map\<close> relies on: the result of \<open>find\<close> after each operation.
\<close>

locale unordered_map =
  fixes find :: "'m \<Rightarrow> 'k \<Rightarrow> 'v option"
    and emplace :: "'k \<Rightarrow> 'v \<Rightarrow> 'm \<Rightarrow> 'm"
    and erase :: "'k \<Rightarrow> 'm \<Rightarrow> 'm"
    and invar :: "'m \<Rightarrow> bool"
  assumes find_emplace:
      "find (emplace k v m) j = (if j = k \<and> find m k = None then Some v else find m j)"
    and find_erase: "find (erase k m) j = (if j = k then None else find m j)"
    and invar_emplace: "invar m \<Longrightarrow> invar (emplace k v m)"
    and invar_erase: "invar m \<Longrightarrow> invar (erase k m)"
begin

lemma emplace_keeps: "find m k = Some w \<Longrightarrow> find (emplace k v m) = find m"
  by (rule ext) (simp add: find_emplace)

lemma emplace_new: "find m k = None \<Longrightarrow> find (emplace k v m) = (find m)(k \<mapsto> v)"
  by (rule ext) (simp add: find_emplace)

lemma emplace_present: "find (emplace k v m) k \<noteq> None"
  by (simp add: find_emplace)

lemma erase_absent: "find (erase k m) k = None"
  by (simp add: find_erase)

lemma erase_find: "find (erase k m) = (find m)(k := None)"
  by (rule ext) (simp add: find_erase)

lemma erase_emplace: "find m k = None \<Longrightarrow> find (erase k (emplace k v m)) = find m"
  by (rule ext) (simp add: find_erase find_emplace)

lemma emplace_other: "j \<noteq> k \<Longrightarrow> find (emplace k v m) j = find m j"
  by (simp add: find_emplace)

end

interpretation um: unordered_map um_find um_emplace um_erase um_wf
  by unfold_locales (auto simp: um_find_emplace um_find_erase)

lemmas umap_simps = um_find_emplace um_find_erase um_find_modify um_find_Cons um_find_append
  um_keys_emplace um_keys_erase

end
