(* ===== verification/Config.thy ===== *)
theory Config
  imports Cxx_Base Cxx_Map
begin

text \<open>
  The configuration objects (\<open>src/config/\<close>, \<open>include/config/\<close>): the sections \<open>http\<close>, \<open>video\<close>,
  \<open>camera\<close> and \<open>events\<close> of \<open>config.json\<close>, and \<open>ProgramConfig\<close>, which loads each section once.

  The JSON property tree is Boost's: its five operations are the fields of a \<open>ptree_lib\<close>, an
  argument of every reader.  A reader's \<open>try\<close> block is a list of assignments run in order
  (\<open>try_steps\<close>); the first exception stops it and keeps the assignments made so far.  Only
  \<open>ptree_bad_path\<close> is caught, so the other exceptions leave the function.
\<close>

subsection \<open>The property-tree library and try blocks\<close>

record 'p ptree_lib =
  pt_empty :: 'p
  pt_read_json :: "string \<Rightarrow> 'p exn"
  pt_get_child :: "'p \<Rightarrow> string \<Rightarrow> 'p exn"
  pt_get_string :: "'p \<Rightarrow> string \<Rightarrow> string exn"
  pt_get_int :: "'p \<Rightarrow> string \<Rightarrow> int exn"
  pt_children :: "'p \<Rightarrow> 'p list"

definition put_field :: "'v exn \<Rightarrow> ('v \<Rightarrow> 'c \<Rightarrow> 'c) \<Rightarrow> 'c \<Rightarrow> 'c exn" where
  "put_field m upd c = (case m of Inl e \<Rightarrow> Inl e | Inr v \<Rightarrow> Inr (upd v c))"

fun try_steps :: "('c \<Rightarrow> 'c exn) list \<Rightarrow> 'c \<Rightarrow> 'c \<times> cxx_exn option" where
  "try_steps [] c = (c, None)"
| "try_steps (f # fs) c = (case f c of Inl e \<Rightarrow> (c, Some e) | Inr c' \<Rightarrow> try_steps fs c')"

text \<open>The handler \<open>catch(ptree_bad_path&) { return r; }\<close>, and the rest of the function otherwise.\<close>

definition catch_bad_path ::
  "int \<Rightarrow> ('c \<Rightarrow> 'c \<times> int exn) \<Rightarrow> 'c \<times> cxx_exn option \<Rightarrow> 'c \<times> int exn" where
  "catch_bad_path r k res =
     (case res of
        (c, None) \<Rightarrow> k c
      | (c, Some e) \<Rightarrow> if e = Ptree_bad_path then (c, Inr r) else (c, Inl e))"

lemma put_field_eq_Inr: "put_field m upd c = Inr c' \<longleftrightarrow> (\<exists>v. m = Inr v \<and> c' = upd v c)"
  by (auto simp: put_field_def split: sum.splits)

lemma put_field_simps [simp]:
  "put_field (Inl e) upd c = Inl e"
  "put_field (Inr v) upd c = Inr (upd v c)"
  by (simp_all add: put_field_def)

lemma try_steps_Cons_None:
  "try_steps (f # fs) c = (c', None) \<longleftrightarrow> (\<exists>d. f c = Inr d \<and> try_steps fs d = (c', None))"
  by (auto split: sum.splits)

lemma catch_bad_path_simps [simp]:
  "catch_bad_path r k (c, None) = k c"
  "catch_bad_path r k (c, Some Ptree_bad_path) = (c, Inr r)"
  by (simp_all add: catch_bad_path_def)

lemma catch_bad_path_zero:
  "r \<noteq> 0 \<Longrightarrow> catch_bad_path r k res = (c, Inr 0) \<longleftrightarrow> (\<exists>d. res = (d, None) \<and> k d = (c, Inr 0))"
  by (auto simp: catch_bad_path_def split: prod.splits option.splits if_splits)

lemma catch_bad_path_exn:
  "catch_bad_path r k res = (c, Inl e) \<Longrightarrow> (\<And>d c e. k d = (c, Inl e) \<Longrightarrow> e \<noteq> Ptree_bad_path) \<Longrightarrow>
    e \<noteq> Ptree_bad_path"
  by (auto simp: catch_bad_path_def split: prod.splits option.splits if_splits)

lemma catch_bad_path_range:
  "catch_bad_path r k res = (c, Inr v) \<Longrightarrow> (\<And>d c v. k d = (c, Inr v) \<Longrightarrow> v \<in> R) \<Longrightarrow> r \<in> R \<Longrightarrow> v \<in> R"
  by (auto simp: catch_bad_path_def split: prod.splits option.splits if_splits)

subsection \<open>HttpConfig\<close>

record 'p http_config =
  hc_props :: 'p
  hc_crt_file :: string
  hc_private_file :: string
  hc_thread_pool :: int
  hc_tls_enabled :: int
  hc_remote_server :: string
  hc_upload_user :: int
  hc_port :: int

text \<open>\<open>new HttpConfig()\<close>: the defaulted constructor is not user-provided, so the object is zeroed.\<close>

definition new_http_config :: "'p ptree_lib \<Rightarrow> 'p http_config" where
  "new_http_config lib =
     \<lparr>hc_props = pt_empty lib, hc_crt_file = '''', hc_private_file = '''', hc_thread_pool = 0,
      hc_tls_enabled = 0, hc_remote_server = '''', hc_upload_user = 0, hc_port = 0\<rparr>"

definition http_read_config :: "'p ptree_lib \<Rightarrow> 'p http_config \<Rightarrow> 'p http_config \<times> int exn" where
  "http_read_config lib c =
     (let str = pt_get_string lib (hc_props c); num = pt_get_int lib (hc_props c) in
      catch_bad_path 1 (\<lambda>c. (c, Inr 0))
       (try_steps
         [put_field (str ''cert_file'') (\<lambda>v c. c\<lparr>hc_crt_file := v\<rparr>),
          put_field (str ''private_file'') (\<lambda>v c. c\<lparr>hc_private_file := v\<rparr>),
          put_field (num ''thread_pool_size'') (\<lambda>v c. c\<lparr>hc_thread_pool := v\<rparr>),
          put_field (num ''tls'') (\<lambda>v c. c\<lparr>hc_tls_enabled := v\<rparr>),
          put_field (num ''port'') (\<lambda>v c. c\<lparr>hc_port := v\<rparr>),
          put_field (str ''remote_server'') (\<lambda>v c. c\<lparr>hc_remote_server := v\<rparr>),
          put_field (num ''upload_clients'') (\<lambda>v c. c\<lparr>hc_upload_user := v\<rparr>)] c))"

definition http_set_file :: "'p ptree_lib \<Rightarrow> string \<Rightarrow> 'p http_config \<Rightarrow> 'p http_config \<times> int exn" where
  "http_set_file lib json_file c =
     catch_bad_path 1 (http_read_config lib)
       (try_steps
         [put_field (pt_read_json lib json_file) (\<lambda>t c. c\<lparr>hc_props := t\<rparr>),
          \<lambda>c. put_field (pt_get_child lib (hc_props c) ''http'') (\<lambda>t c. c\<lparr>hc_props := t\<rparr>) c] c)"

text \<open>What a fully read section is: every key present, every field its key's value.\<close>

definition http_loaded :: "'p ptree_lib \<Rightarrow> string \<Rightarrow> 'p http_config \<Rightarrow> bool" where
  "http_loaded lib json_file c \<longleftrightarrow>
     (case pt_read_json lib json_file of Inl e \<Rightarrow> False | Inr t \<Rightarrow>
        pt_get_child lib t ''http'' = Inr (hc_props c)) \<and>
     pt_get_string lib (hc_props c) ''cert_file'' = Inr (hc_crt_file c) \<and>
     pt_get_string lib (hc_props c) ''private_file'' = Inr (hc_private_file c) \<and>
     pt_get_int lib (hc_props c) ''thread_pool_size'' = Inr (hc_thread_pool c) \<and>
     pt_get_int lib (hc_props c) ''tls'' = Inr (hc_tls_enabled c) \<and>
     pt_get_int lib (hc_props c) ''port'' = Inr (hc_port c) \<and>
     pt_get_string lib (hc_props c) ''remote_server'' = Inr (hc_remote_server c) \<and>
     pt_get_int lib (hc_props c) ''upload_clients'' = Inr (hc_upload_user c)"

lemma http_set_file_loaded: "http_set_file lib f c = (c', Inr 0) \<Longrightarrow> http_loaded lib f c'"
  by (auto simp: http_set_file_def http_read_config_def http_loaded_def catch_bad_path_zero
      try_steps_Cons_None put_field_eq_Inr Let_def split: sum.splits)

lemma http_set_file_range: "http_set_file lib f c = (c', Inr r) \<Longrightarrow> r \<in> {0, 1}"
  by (auto simp: http_set_file_def http_read_config_def catch_bad_path_def Let_def
      split: prod.splits option.splits if_splits)

lemma http_loaded_zero:
  assumes "http_loaded lib f c0"
  shows "\<exists>c'. http_set_file lib f c = (c', Inr 0)"
proof -
  from assms obtain t where t: "pt_read_json lib f = Inr t" "pt_get_child lib t ''http'' = Inr (hc_props c0)"
    by (auto simp: http_loaded_def split: sum.splits)
  with assms show ?thesis
    by (simp add: http_set_file_def http_read_config_def http_loaded_def put_field_def)
qed

text \<open>The getters hand out the fields.\<close>

definition crt_file :: "'p http_config \<Rightarrow> string" where
  "crt_file c = hc_crt_file c"

definition private_file :: "'p http_config \<Rightarrow> string" where
  "private_file c = hc_private_file c"

definition http_thread_pool :: "'p http_config \<Rightarrow> int" where
  "http_thread_pool c = hc_thread_pool c"

definition http_tls_enable :: "'p http_config \<Rightarrow> int" where
  "http_tls_enable c = hc_tls_enabled c"

definition http_upload_user :: "'p http_config \<Rightarrow> int" where
  "http_upload_user c = hc_upload_user c"

definition http_port :: "'p http_config \<Rightarrow> int" where
  "http_port c = hc_port c"

definition http_remote_server :: "'p http_config \<Rightarrow> string" where
  "http_remote_server c = hc_remote_server c"

lemmas http_getters = http_thread_pool_def http_tls_enable_def http_upload_user_def http_port_def
  http_remote_server_def

subsection \<open>VideoConfig\<close>

record 'p video_config =
  vc_props :: 'p
  vc_width :: int
  vc_height :: int
  vc_frame_rate :: string
  vc_format :: string
  vc_split_time :: int
  vc_duration :: int
  vc_vid_path :: string
  vc_maintain_sec :: int

definition new_video_config :: "'p ptree_lib \<Rightarrow> 'p video_config" where
  "new_video_config lib =
     \<lparr>vc_props = pt_empty lib, vc_width = 0, vc_height = 0, vc_frame_rate = '''', vc_format = '''',
      vc_split_time = 0, vc_duration = 0, vc_vid_path = '''', vc_maintain_sec = 0\<rparr>"

definition video_read_config :: "'p ptree_lib \<Rightarrow> 'p video_config \<Rightarrow> 'p video_config \<times> int exn" where
  "video_read_config lib c =
     (let str = pt_get_string lib (vc_props c); num = pt_get_int lib (vc_props c) in
      catch_bad_path 1 (\<lambda>c. (c, Inr 0))
       (try_steps
         [put_field (num ''width'') (\<lambda>v c. c\<lparr>vc_width := v\<rparr>),
          put_field (num ''height'') (\<lambda>v c. c\<lparr>vc_height := v\<rparr>),
          put_field (str ''framerate'') (\<lambda>v c. c\<lparr>vc_frame_rate := v\<rparr>),
          put_field (str ''format'') (\<lambda>v c. c\<lparr>vc_format := v\<rparr>),
          put_field (num ''split-time'') (\<lambda>v c. c\<lparr>vc_split_time := v\<rparr>),
          put_field (num ''duration'') (\<lambda>v c. c\<lparr>vc_duration := v\<rparr>),
          put_field (str ''save_path'') (\<lambda>v c. c\<lparr>vc_vid_path := v\<rparr>),
          put_field (num ''maintain'') (\<lambda>v c. c\<lparr>vc_maintain_sec := v\<rparr>)] c))"

definition video_set_file :: "'p ptree_lib \<Rightarrow> string \<Rightarrow> 'p video_config \<Rightarrow> 'p video_config \<times> int exn" where
  "video_set_file lib json_file c =
     catch_bad_path 1 (video_read_config lib)
       (try_steps
         [put_field (pt_read_json lib json_file) (\<lambda>t c. c\<lparr>vc_props := t\<rparr>),
          \<lambda>c. put_field (pt_get_child lib (vc_props c) ''video'') (\<lambda>t c. c\<lparr>vc_props := t\<rparr>) c] c)"

definition video_loaded :: "'p ptree_lib \<Rightarrow> string \<Rightarrow> 'p video_config \<Rightarrow> bool" where
  "video_loaded lib json_file c \<longleftrightarrow>
     (case pt_read_json lib json_file of Inl e \<Rightarrow> False | Inr t \<Rightarrow>
        pt_get_child lib t ''video'' = Inr (vc_props c)) \<and>
     pt_get_int lib (vc_props c) ''width'' = Inr (vc_width c) \<and>
     pt_get_int lib (vc_props c) ''height'' = Inr (vc_height c) \<and>
     pt_get_string lib (vc_props c) ''framerate'' = Inr (vc_frame_rate c) \<and>
     pt_get_string lib (vc_props c) ''format'' = Inr (vc_format c) \<and>
     pt_get_int lib (vc_props c) ''split-time'' = Inr (vc_split_time c) \<and>
     pt_get_int lib (vc_props c) ''duration'' = Inr (vc_duration c) \<and>
     pt_get_string lib (vc_props c) ''save_path'' = Inr (vc_vid_path c) \<and>
     pt_get_int lib (vc_props c) ''maintain'' = Inr (vc_maintain_sec c)"

lemma video_set_file_loaded: "video_set_file lib f c = (c', Inr 0) \<Longrightarrow> video_loaded lib f c'"
  by (auto simp: video_set_file_def video_read_config_def video_loaded_def catch_bad_path_zero
      try_steps_Cons_None put_field_eq_Inr Let_def split: sum.splits)

lemma video_set_file_range: "video_set_file lib f c = (c', Inr r) \<Longrightarrow> r \<in> {0, 1}"
  by (auto simp: video_set_file_def video_read_config_def catch_bad_path_def Let_def
      split: prod.splits option.splits if_splits)

lemma video_loaded_zero:
  assumes "video_loaded lib f c0"
  shows "\<exists>c'. video_set_file lib f c = (c', Inr 0)"
proof -
  from assms obtain t where t: "pt_read_json lib f = Inr t" "pt_get_child lib t ''video'' = Inr (vc_props c0)"
    by (auto simp: video_loaded_def split: sum.splits)
  with assms show ?thesis
    by (simp add: video_set_file_def video_read_config_def video_loaded_def put_field_def)
qed

text \<open>
  \<open>split_time()\<close> multiplies the seconds by \<open>static_cast<int>(pow(10, 9))\<close> in type \<open>int\<close>.
\<close>

definition split_time :: "'p video_config \<Rightarrow> int res" where
  "split_time c = int_mul (vc_split_time c) 1000000000"

definition video_width :: "'p video_config \<Rightarrow> int" where
  "video_width c = vc_width c"

definition video_height :: "'p video_config \<Rightarrow> int" where
  "video_height c = vc_height c"

definition video_frame_rate :: "'p video_config \<Rightarrow> string" where
  "video_frame_rate c = vc_frame_rate c"

definition video_format :: "'p video_config \<Rightarrow> string" where
  "video_format c = vc_format c"

definition duration :: "'p video_config \<Rightarrow> int" where
  "duration c = vc_duration c"

definition save_path :: "'p video_config \<Rightarrow> string" where
  "save_path c = vc_vid_path c"

definition maintain :: "'p video_config \<Rightarrow> int" where
  "maintain c = vc_maintain_sec c"

lemmas video_getters = duration_def save_path_def maintain_def video_width_def video_height_def
  video_frame_rate_def video_format_def

lemma split_time_cases:
  "split_time c =
     (if - 2 \<le> vc_split_time c \<and> vc_split_time c \<le> 2 then Inr (vc_split_time c * 1000000000)
      else Inl SignedOverflow)"
  by (auto simp: split_time_def int_mul_def chk32_def in_int32_def)

subsection \<open>CameraConfig\<close>

text \<open>The pixel formats are macros of \<open>linux/videodev2.h\<close>: a parameter.\<close>

record pixfmts =
  PIX_FMT_RGB24 :: "32 word"
  PIX_FMT_YUYV :: "32 word"
  PIX_FMT_MJPEG :: "32 word"

record video_meta =
  vm_type :: "32 word"
  vm_width :: int
  vm_height :: int

definition set_type :: "32 word \<Rightarrow> video_meta \<Rightarrow> video_meta" where
  "set_type t m = m\<lparr>vm_type := t\<rparr>"

definition set_width :: "int \<Rightarrow> video_meta \<Rightarrow> video_meta" where
  "set_width w m = m\<lparr>vm_width := w\<rparr>"

definition set_height :: "int \<Rightarrow> video_meta \<Rightarrow> video_meta" where
  "set_height h m = m\<lparr>vm_height := h\<rparr>"

definition get_type :: "video_meta \<Rightarrow> 32 word" where
  "get_type m = vm_type m"

definition get_width :: "video_meta \<Rightarrow> int" where
  "get_width m = vm_width m"

definition get_height :: "video_meta \<Rightarrow> int" where
  "get_height m = vm_height m"

lemmas video_meta_getters = get_type_def get_width_def get_height_def

lemmas video_meta_setters = set_type_def set_width_def set_height_def

record 'p camera_config =
  cc_props :: 'p
  cc_device_path :: string
  cc_metadata :: video_meta
  cc_fps :: int

definition new_camera_config :: "'p ptree_lib \<Rightarrow> 'p camera_config" where
  "new_camera_config lib =
     \<lparr>cc_props = pt_empty lib, cc_device_path = '''',
      cc_metadata = \<lparr>vm_type = 0, vm_width = 0, vm_height = 0\<rparr>, cc_fps = 0\<rparr>"

text \<open>
  The \<open>try\<close> block reads width, height and format into locals first, so a missing one leaves the
  object as it was after \<open>device_path\<close>.  The handler of \<open>ptree_bad_path\<close> only logs: the function
  goes on and returns 0.
\<close>

definition pixel_format :: "pixfmts \<Rightarrow> string \<Rightarrow> 32 word option" where
  "pixel_format pf format =
     (if format = ''V4L2_PIX_FMT_RGB24'' then Some (PIX_FMT_RGB24 pf)
      else if format = ''V4L2_PIX_FMT_YUYV'' then Some (PIX_FMT_YUYV pf)
      else if format = ''V4L2_PIX_FMT_MJPEG'' then Some (PIX_FMT_MJPEG pf)
      else None)"

definition camera_read_config ::
  "'p ptree_lib \<Rightarrow> pixfmts \<Rightarrow> 'p camera_config \<Rightarrow> 'p camera_config \<times> int exn" where
  "camera_read_config lib pf c =
     (let str = pt_get_string lib (cc_props c); num = pt_get_int lib (cc_props c) in
      case try_steps
        [put_field (str ''device_path'') (\<lambda>v (fm, c). (fm, c\<lparr>cc_device_path := v\<rparr>)),
         \<lambda>(fm, c). (case num ''width'' of Inl e \<Rightarrow> Inl e | Inr width \<Rightarrow>
            (case num ''height'' of Inl e \<Rightarrow> Inl e | Inr height \<Rightarrow>
              (case str ''format'' of Inl e \<Rightarrow> Inl e | Inr format \<Rightarrow>
                 Inr (format, c\<lparr>cc_metadata := set_height height (set_width width (cc_metadata c))\<rparr>)))),
         put_field (num ''fps'') (\<lambda>v (fm, c). (fm, c\<lparr>cc_fps := v\<rparr>))] ('''', c)
      of
        ((fm, c), None) \<Rightarrow>
          (case pixel_format pf fm of
             None \<Rightarrow> (c, Inr 1)
           | Some t \<Rightarrow> (c\<lparr>cc_metadata := set_type t (cc_metadata c)\<rparr>, Inr 0))
      | ((fm, c), Some e) \<Rightarrow> if e = Ptree_bad_path then (c, Inr 0) else (c, Inl e))"

definition camera_set_file ::
  "'p ptree_lib \<Rightarrow> pixfmts \<Rightarrow> string \<Rightarrow> 'p camera_config \<Rightarrow> 'p camera_config \<times> int exn" where
  "camera_set_file lib pf json_file c =
     catch_bad_path 1 (camera_read_config lib pf)
       (try_steps
         [put_field (pt_read_json lib json_file) (\<lambda>t c. c\<lparr>cc_props := t\<rparr>),
          \<lambda>c. put_field (pt_get_child lib (cc_props c) ''camera'') (\<lambda>t c. c\<lparr>cc_props := t\<rparr>) c] c)"

definition camera_fps :: "'p camera_config \<Rightarrow> int" where
  "camera_fps c = cc_fps c"

definition device_path :: "'p camera_config \<Rightarrow> string" where
  "device_path c = cc_device_path c"

definition metadata :: "'p camera_config \<Rightarrow> video_meta" where
  "metadata c = cc_metadata c"

lemma camera_read_config_range: "camera_read_config lib pf c = (c', Inr r) \<Longrightarrow> r \<in> {0, 1}"
  unfolding camera_read_config_def Let_def
  by (simp only: prod.case_eq_if split: option.splits if_splits) auto

lemma camera_set_file_range: "camera_set_file lib pf f c = (c', Inr r) \<Longrightarrow> r \<in> {0, 1}"
  unfolding camera_set_file_def
  by (erule catch_bad_path_range) (auto dest: camera_read_config_range)

subsection \<open>EventConfig\<close>

record event_config =
  ec_name :: "string list"
  ec_fps :: "(string, int) umap"

definition new_event_config :: event_config where
  "new_event_config = \<lparr>ec_name = [], ec_fps = []\<rparr>"

definition event_entry :: "'p ptree_lib \<Rightarrow> 'p \<Rightarrow> event_config \<Rightarrow> event_config exn" where
  "event_entry lib vt c =
     (case pt_get_string lib vt ''event_name'' of Inl e \<Rightarrow> Inl e | Inr name \<Rightarrow>
       (case pt_get_int lib vt ''fps'' of Inl e \<Rightarrow> Inl e | Inr fps \<Rightarrow>
          Inr (c\<lparr>ec_name := ec_name c @ [name], ec_fps := um_emplace name fps (ec_fps c)\<rparr>)))"

definition event_read_config :: "'p ptree_lib \<Rightarrow> 'p \<Rightarrow> event_config \<Rightarrow> event_config \<times> int exn" where
  "event_read_config lib props c =
     catch_bad_path 1 (\<lambda>c. (c, Inr 0)) (try_steps (map (event_entry lib) (pt_children lib props)) c)"

definition event_set_file :: "'p ptree_lib \<Rightarrow> string \<Rightarrow> event_config \<Rightarrow> event_config \<times> int exn" where
  "event_set_file lib json_file c =
     (case pt_read_json lib json_file of
        Inl e \<Rightarrow> if e = Ptree_bad_path then (c, Inr 1) else (c, Inl e)
      | Inr t \<Rightarrow> (case pt_get_child lib t ''events'' of
            Inl e \<Rightarrow> if e = Ptree_bad_path then (c, Inr 1) else (c, Inl e)
          | Inr props \<Rightarrow> event_read_config lib props c))"

definition event_config_names :: "event_config \<Rightarrow> string list" where
  "event_config_names c = ec_name c"

definition event_fps :: "string \<Rightarrow> event_config \<Rightarrow> int" where
  "event_fps name c = (case um_find (ec_fps c) name of None \<Rightarrow> -1 | Some fps \<Rightarrow> fps)"

text \<open>An invariant of the object: the table of rates has exactly the names read.\<close>

definition event_config_inv :: "event_config \<Rightarrow> bool" where
  "event_config_inv c \<longleftrightarrow> set (um_keys (ec_fps c)) = set (ec_name c) \<and> um_wf (ec_fps c)"

lemma event_entry_inv:
  "event_entry lib vt c = Inr c' \<Longrightarrow> event_config_inv c \<Longrightarrow> event_config_inv c'"
  by (auto simp: event_entry_def event_config_inv_def um_keys_emplace um_find_None_iff
      split: sum.splits if_splits)

lemma try_steps_inv:
  "(\<And>f c d. f \<in> set fs \<Longrightarrow> P c \<Longrightarrow> f c = Inr d \<Longrightarrow> P d) \<Longrightarrow> P c \<Longrightarrow> P (fst (try_steps fs c))"
proof (induction fs arbitrary: c)
  case Nil
  then show ?case by simp
next
  case (Cons f fs)
  show ?case
  proof (cases "f c")
    case (Inl e)
    with Cons.prems show ?thesis by simp
  next
    case (Inr d)
    with Cons.prems have "P d" by (metis list.set_intros(1))
    then have "P (fst (try_steps fs d))"
      by (rule Cons.IH [rotated]) (meson Cons.prems(1) list.set_intros(2))
    with Inr show ?thesis by simp
  qed
qed

lemma event_read_config_inv:
  assumes "event_config_inv c"
  shows "event_config_inv (fst (event_read_config lib props c))"
proof -
  let ?r = "try_steps (map (event_entry lib) (pt_children lib props)) c"
  have "event_config_inv (fst ?r)"
    by (rule try_steps_inv [where P = event_config_inv, OF _ assms])
      (auto dest: event_entry_inv)
  then show ?thesis
    by (cases ?r) (simp add: event_read_config_def catch_bad_path_def split: option.splits)
qed

subsection \<open>The contract of a configuration section\<close>

text \<open>
  \<open>Config\<close> promises that \<open>set_file\<close> returns 0 or 1; a complete reader promises more, that 0 means
  every key was read.  \<open>ProgramConfig\<close> is written against this interface.
\<close>

locale config_reader =
  fixes set_file :: "'c \<Rightarrow> 'c \<times> int exn"
    and fresh :: 'c
  assumes set_file_range: "set_file c = (c', Inr r) \<Longrightarrow> r \<in> {0, 1}"

locale complete_config_reader = config_reader +
  fixes loaded :: "'a \<Rightarrow> bool"
  assumes set_file_loaded: "set_file c = (c', Inr 0) \<Longrightarrow> loaded c'"

subsection \<open>ProgramConfig\<close>

text \<open>
  Each getter allocates its section on the first call and reads \<open>config.json\<close> into it; the pointer
  member stays set whether the read succeeded or not.  The result is the new member, and the
  returned pointer (\<open>None\<close> for \<open>nullptr\<close>) or the exception that leaves the getter.
\<close>

definition lazy_section ::
  "('c \<Rightarrow> 'c \<times> int exn) \<Rightarrow> 'c \<Rightarrow> 'c option \<Rightarrow> 'c option \<times> 'c option exn" where
  "lazy_section set_file fresh slot =
     (case slot of
        Some c \<Rightarrow> (Some c, Inr (Some c))
      | None \<Rightarrow> (case set_file fresh of
            (c, Inl e) \<Rightarrow> (Some c, Inl e)
          | (c, Inr r) \<Rightarrow> (Some c, Inr (if r \<noteq> 0 then None else Some c))))"

record 'p program_config =
  pc_http :: "'p http_config option"
  pc_video :: "'p video_config option"
  pc_camera :: "'p camera_config option"

definition new_program_config :: "'p program_config" where
  "new_program_config = \<lparr>pc_http = None, pc_video = None, pc_camera = None\<rparr>"

definition get_http_config ::
  "'p ptree_lib \<Rightarrow> 'p program_config \<Rightarrow> 'p program_config \<times> 'p http_config option exn" where
  "get_http_config lib pc =
     (let (slot, r) = lazy_section (http_set_file lib ''config.json'') (new_http_config lib) (pc_http pc)
      in (pc\<lparr>pc_http := slot\<rparr>, r))"

definition get_video_config ::
  "'p ptree_lib \<Rightarrow> 'p program_config \<Rightarrow> 'p program_config \<times> 'p video_config option exn" where
  "get_video_config lib pc =
     (let (slot, r) = lazy_section (video_set_file lib ''config.json'') (new_video_config lib) (pc_video pc)
      in (pc\<lparr>pc_video := slot\<rparr>, r))"

definition get_camera_config ::
  "'p ptree_lib \<Rightarrow> pixfmts \<Rightarrow> 'p program_config \<Rightarrow> 'p program_config \<times> 'p camera_config option exn" where
  "get_camera_config lib pf pc =
     (let (slot, r) = lazy_section (camera_set_file lib pf ''config.json'') (new_camera_config lib) (pc_camera pc)
      in (pc\<lparr>pc_camera := slot\<rparr>, r))"

context config_reader begin

lemma lazy_allocates: "fst (lazy_section set_file fresh slot) \<noteq> None"
  by (auto simp: lazy_section_def split: option.splits prod.splits sum.splits)

lemma lazy_second_call:
  assumes "lazy_section set_file fresh slot = (slot', r)"
  shows "\<exists>c. lazy_section set_file fresh slot' = (slot', Inr (Some c)) \<and> slot' = Some c"
proof -
  from assms lazy_allocates [of slot] obtain c where "slot' = Some c" by auto
  then show ?thesis by (simp add: lazy_section_def)
qed

lemma lazy_cached: "lazy_section set_file fresh (Some c) = (Some c, Inr (Some c))"
  by (simp add: lazy_section_def)

lemma lazy_null_iff:
  "snd (lazy_section set_file fresh None) = Inr None \<longleftrightarrow> (\<exists>c. set_file fresh = (c, Inr 1))"
proof -
  obtain c r where s: "set_file fresh = (c, r)" by (cases "set_file fresh")
  show ?thesis
  proof (cases r)
    case (Inl e)
    with s show ?thesis by (simp add: lazy_section_def)
  next
    case (Inr v)
    with s set_file_range [of fresh c v] show ?thesis by (auto simp: lazy_section_def)
  qed
qed

end

context complete_config_reader begin

lemma lazy_first_loaded:
  "snd (lazy_section set_file fresh None) = Inr (Some c) \<Longrightarrow> loaded c"
  by (auto simp: lazy_section_def dest: set_file_loaded split: prod.splits sum.splits if_splits)

end

interpretation http_reader: complete_config_reader
  "http_set_file lib f" "new_http_config lib" "http_loaded lib f" for lib f
  by unfold_locales (auto dest: http_set_file_range http_set_file_loaded)

interpretation video_reader: complete_config_reader
  "video_set_file lib f" "new_video_config lib" "video_loaded lib f" for lib f
  by unfold_locales (auto dest: video_set_file_range video_set_file_loaded)

interpretation camera_reader: config_reader
  "camera_set_file lib pf f" "new_camera_config lib" for lib pf f
  by unfold_locales (auto dest: camera_set_file_range)

end
