(* ===== verification/Video_Queue.thy ===== *)
theory Video_Queue
  imports Config
begin

text \<open>
  \<open>camera_device::VideoQueue\<close> (\<open>src/camera_device/VideoQueue.cpp\<close>): the queue that distributes the
  camera's frames to the events.  Frames and \<open>ThreadInfo\<close> objects live in explicit stores indexed
  by address, because the code frees them in one thread and reads them in another; reading a freed
  one is a fault of the model.  The mutexes make \<open>insert_event\<close>, \<open>remove_event\<close>, \<open>push\<close> and one
  round of \<open>distribute_buffer\<close> atomic; \<open>pop\<close> is split where it waits.

  First the code's operations, then the abstract machine (queues of frame values, no addresses),
  the representation invariant, and the simulation between the two.
\<close>

subsection \<open>Data\<close>

type_synonym addr = nat

record vbuf =
  vb_meta :: video_meta
  vb_time :: int
  vb_data :: "8 word list option"
  vb_size :: nat

record thread_info =
  ti_is_run :: bool
  ti_fps :: int

record vqueue =
  q_device_fps :: int
  q_input :: "addr list"
  q_frame_no :: int
  q_output :: "(string, addr list) umap"
  q_thread_info :: "(string, addr) umap"
  q_enable :: bool
  q_bufs :: "addr \<Rightarrow> vbuf option"
  q_infos :: "addr \<Rightarrow> thread_info option"
  q_next :: addr

definition new_vqueue :: "int \<Rightarrow> vqueue" where
  "new_vqueue fps =
     \<lparr>q_device_fps = fps, q_input = [], q_frame_no = 0, q_output = [], q_thread_info = [],
      q_enable = True, q_bufs = (\<lambda>_. None), q_infos = (\<lambda>_. None), q_next = 0\<rparr>"

text \<open>The constructor reads the frame rate of the camera's section; its pointer may be null.\<close>

definition vqueue_ctor :: "'p camera_config option \<Rightarrow> vqueue res" where
  "vqueue_ctor cfg = (case cfg of None \<Rightarrow> Inl NullDeref | Some c \<Rightarrow> Inr (new_vqueue (camera_fps c)))"

text \<open>Allocation and release.\<close>

definition new_buf :: "vbuf \<Rightarrow> vqueue \<Rightarrow> addr \<times> vqueue" where
  "new_buf b s = (q_next s, s\<lparr>q_bufs := (q_bufs s)(q_next s \<mapsto> b), q_next := Suc (q_next s)\<rparr>)"

definition new_info :: "thread_info \<Rightarrow> vqueue \<Rightarrow> addr \<times> vqueue" where
  "new_info i s = (q_next s, s\<lparr>q_infos := (q_infos s)(q_next s \<mapsto> i), q_next := Suc (q_next s)\<rparr>)"

definition delete_buf :: "addr \<Rightarrow> vqueue \<Rightarrow> vqueue res" where
  "delete_buf a s = (case q_bufs s a of
       None \<Rightarrow> Inl DoubleFree
     | Some _ \<Rightarrow> Inr (s\<lparr>q_bufs := (q_bufs s)(a := None)\<rparr>))"

definition read_buf :: "addr \<Rightarrow> vqueue \<Rightarrow> vbuf res" where
  "read_buf a s = (case q_bufs s a of None \<Rightarrow> Inl UseAfterFree | Some b \<Rightarrow> Inr b)"

definition read_info :: "addr \<Rightarrow> vqueue \<Rightarrow> thread_info res" where
  "read_info a s = (case q_infos s a of None \<Rightarrow> Inl UseAfterFree | Some i \<Rightarrow> Inr i)"

definition write_info :: "addr \<Rightarrow> (thread_info \<Rightarrow> thread_info) \<Rightarrow> vqueue \<Rightarrow> vqueue" where
  "write_info a f s = s\<lparr>q_infos := (q_infos s)(a := map_option f (q_infos s a))\<rparr>"

text \<open>\<open>memcpy\<close> of \<open>size\<close> bytes out of an array that may be absent or too short.\<close>

definition memcpy_bytes :: "8 word list option \<Rightarrow> nat \<Rightarrow> 8 word list res" where
  "memcpy_bytes src n =
     (if n = 0 then Inr []
      else case src of
        None \<Rightarrow> Inl NullDeref
      | Some bs \<Rightarrow> if n \<le> length bs then Inr (take n bs) else Inl OutOfBounds)"

subsection \<open>Operations\<close>

definition insert_event :: "string \<Rightarrow> addr option \<Rightarrow> vqueue \<Rightarrow> (int \<times> vqueue) res" where
  "insert_event name thread_info s =
     (case um_find (q_thread_info s) name of
        Some _ \<Rightarrow> Inr (1, s)
      | None \<Rightarrow>
         (case thread_info of
            None \<Rightarrow> Inl NullDeref
          | Some ti \<Rightarrow>
             rbind (read_info ti s) (\<lambda>info.
             rbind (int_div (q_device_fps s) (ti_fps info)) (\<lambda>period.
             let s1 = write_info ti (\<lambda>i. i\<lparr>ti_fps := period\<rparr>) s in
             Inr (0, s1\<lparr>q_thread_info := um_emplace name ti (q_thread_info s),
                        q_output := um_emplace name [] (q_output s)\<rparr>)))))"

definition remove_event :: "string \<Rightarrow> vqueue \<Rightarrow> (int \<times> vqueue) res" where
  "remove_event name s =
     (let queue_info = um_find (q_output s) name;
          thread_info = um_find (q_thread_info s) name in
      rbind (case thread_info of None \<Rightarrow> Inr () | Some ti \<Rightarrow> rbind (read_info ti s) (\<lambda>_. Inr ())) (\<lambda>_.
      rbind (case queue_info of
               None \<Rightarrow> Inr s
             | Some q \<Rightarrow> rbind (rfold delete_buf q s) (\<lambda>s1.
                 Inr (s1\<lparr>q_output := um_erase name (q_output s1)\<rparr>))) (\<lambda>s2.
      let s3 = (case thread_info of
                  None \<Rightarrow> s2
                | Some ti \<Rightarrow> (write_info ti (\<lambda>i. i\<lparr>ti_is_run := False\<rparr>) s2)
                              \<lparr>q_thread_info := um_erase name (q_thread_info s2)\<rparr>) in
      Inr (if thread_info = None then 1 else if queue_info = None then 2 else 0, s3))))"

definition push :: "addr \<Rightarrow> vqueue \<Rightarrow> int \<times> vqueue" where
  "push buffer s = (0, s\<lparr>q_input := q_input s @ [buffer]\<rparr>)"

text \<open>\<open>pop\<close>: the two checks at entry, the predicate of the wait, and the code after the wait.\<close>

definition pop_check :: "string \<Rightarrow> vqueue \<Rightarrow> bool" where
  "pop_check name s \<longleftrightarrow> um_find (q_thread_info s) name \<noteq> None \<and> um_find (q_output s) name \<noteq> None"

definition pop_is_run :: "string \<Rightarrow> vqueue \<Rightarrow> bool res" where
  "pop_is_run name s =
     (case um_find (q_thread_info s) name of
        None \<Rightarrow> Inl EndIterator
      | Some ti \<Rightarrow> rbind (read_info ti s) (\<lambda>i. Inr (ti_is_run i)))"

definition pop_output :: "string \<Rightarrow> vqueue \<Rightarrow> addr list res" where
  "pop_output name s =
     (case um_find (q_output s) name of None \<Rightarrow> Inl EndIterator | Some q \<Rightarrow> Inr q)"

definition pop_wait_pred :: "string \<Rightarrow> vqueue \<Rightarrow> bool res" where
  "pop_wait_pred name s =
     rbind (pop_is_run name s) (\<lambda>run.
       if \<not> run then Inr True
       else rbind (pop_output name s) (\<lambda>q. Inr (q \<noteq> [])))"

definition pop_finish :: "string \<Rightarrow> vqueue \<Rightarrow> (addr option \<times> vqueue) res" where
  "pop_finish name s =
     rbind (pop_is_run name s) (\<lambda>run.
       if \<not> run then Inr (None, s\<lparr>q_thread_info := um_erase name (q_thread_info s)\<rparr>)
       else rbind (pop_output name s) (\<lambda>q.
         case q of
           [] \<Rightarrow> Inl OutOfBounds
         | a # rest \<Rightarrow> Inr (Some a, s\<lparr>q_output := um_modify name (\<lambda>_. rest) (q_output s)\<rparr>)))"

text \<open>
  The wait of \<open>pop\<close> in one state: \<open>None\<close> when the thread blocks there.  A thread that blocked resumes here
  at each notification, and at spurious wake-ups, with the map lookups of the predicate and not with the
  checks at entry.
\<close>

definition pop_resume :: "string \<Rightarrow> vqueue \<Rightarrow> (addr option \<times> vqueue) option res" where
  "pop_resume name s =
     rbind (pop_wait_pred name s) (\<lambda>ready.
       if ready then rbind (pop_finish name s) (\<lambda>r. Inr (Some r)) else Inr None)"

definition pop :: "string \<Rightarrow> vqueue \<Rightarrow> (addr option \<times> vqueue) option res" where
  "pop name s = (if \<not> pop_check name s then Inr (Some (None, s)) else pop_resume name s)"

text \<open>One event's turn in a round of the distributor.\<close>

definition copy_frame :: "int \<Rightarrow> vbuf \<Rightarrow> vbuf res" where
  "copy_frame t input =
     rbind (memcpy_bytes (vb_data input) (vb_size input)) (\<lambda>bytes.
       Inr (input\<lparr>vb_data := Some bytes, vb_time := t\<rparr>))"

definition deliver :: "int \<Rightarrow> addr \<Rightarrow> string \<times> addr \<Rightarrow> vqueue \<Rightarrow> vqueue res" where
  "deliver t input item s =
     (let (name, ti) = item in
      rbind (read_info ti s) (\<lambda>info.
      rbind (int_mod (q_frame_no s) (ti_fps info)) (\<lambda>r.
      if r \<noteq> 0 then Inr s
      else rbind (read_buf input s) (\<lambda>src.
           rbind (copy_frame t src) (\<lambda>c.
           let (copy_to, s1) = new_buf c s in
           Inr (case um_find (q_output s1) name of
                  None \<Rightarrow> s1
                | Some _ \<Rightarrow>
                    s1\<lparr>q_output := um_modify name (\<lambda>q. q @ [copy_to]) (q_output s1)\<rparr>))))))"

text \<open>
  One round of the loop of \<open>distribute_buffer\<close>, from the return of the wait: the queue is enabled
  and the input is not empty (otherwise the thread ends or keeps waiting, and nothing changes).
\<close>

definition next_frame_no :: "vqueue \<Rightarrow> int res" where
  "next_frame_no s =
     rbind (int_add (q_frame_no s) 1) (\<lambda>n. Inr (if n > q_device_fps s then 1 else n))"

definition distribute_round :: "int \<Rightarrow> vqueue \<Rightarrow> vqueue res" where
  "distribute_round t s =
     (if \<not> q_enable s then Inr s
      else case q_input s of
        [] \<Rightarrow> Inr s
      | input # rest \<Rightarrow>
          rbind (next_frame_no s) (\<lambda>n.
          rbind (rfold (deliver t input) (q_thread_info s) (s\<lparr>q_input := rest, q_frame_no := n\<rparr>))
                (delete_buf input)))"

definition destroy_vqueue :: "vqueue \<Rightarrow> vqueue" where
  "destroy_vqueue s = s\<lparr>q_enable := False\<rparr>"

lemmas vqueue_ops = insert_event_def remove_event_def push_def pop_def pop_resume_def pop_check_def pop_is_run_def
  pop_output_def pop_wait_pred_def pop_finish_def copy_frame_def deliver_def next_frame_no_def
  distribute_round_def destroy_vqueue_def

end
