(* ===== verification/Config_Props.thy ===== *)
theory Config_Props
  imports Video_Queue
begin

text \<open>
  What the configuration objects promise (\<open>Config\<close>): the meaning of the status of \<open>set_file\<close>, the
  behaviour of the lazy getters of \<open>ProgramConfig\<close> after a failure, the camera section's silent
  default, the range of \<open>split_time\<close>, and the table of \<open>EventConfig\<close>.
\<close>

text \<open>A library that knows one file and answers each key from a table, for the witnesses.\<close>

definition table_lib :: "(string \<times> string) list \<Rightarrow> (string \<times> int) list \<Rightarrow> unit ptree_lib" where
  "table_lib strs nums =
     \<lparr>pt_empty = (), pt_read_json = (\<lambda>f. Inr ()), pt_get_child = (\<lambda>t k. Inr ()),
      pt_get_string = (\<lambda>t k. case map_of strs k of None \<Rightarrow> Inl Ptree_bad_path | Some v \<Rightarrow> Inr v),
      pt_get_int = (\<lambda>t k. case map_of nums k of None \<Rightarrow> Inl Ptree_bad_path | Some v \<Rightarrow> Inr v),
      pt_children = (\<lambda>t. [()])\<rparr>"

text \<open>
  C39: The status of \<open>set_file\<close> of the HTTP and of the video section.  It returns 0 exactly when the file is
  parsed, the section found and every key of it there with a value of its type, and then every field of the object
  is its key's value; otherwise it returns 1, or an exception leaves it, which is never the missing-key exception.
\<close>
theorem section_status:
  "(case http_set_file lib f h of (h', r) \<Rightarrow>
      (r = Inr 0 \<longleftrightarrow> (\<exists>c. http_loaded lib f c)) \<and>
      (if r = Inr 0 then http_loaded lib f h' else r = Inr 1 \<or> (\<exists>e. r = Inl e \<and> Ptree_bad_path \<noteq> e))) \<and>
   (case video_set_file lib f v of (v', r) \<Rightarrow>
      (r = Inr 0 \<longleftrightarrow> (\<exists>c. video_loaded lib f c)) \<and>
      (if r = Inr 0 then video_loaded lib f v' else r = Inr 1 \<or> (\<exists>e. r = Inl e \<and> Ptree_bad_path \<noteq> e)))"
proof
  obtain h' r where h: "http_set_file lib f h = (h', r)" by fastforce
  have "e \<noteq> Ptree_bad_path" if "http_set_file lib f h = (h', Inl e)" for h' e
    using that unfolding http_set_file_def
  proof (rule catch_bad_path_exn)
    show "e \<noteq> Ptree_bad_path" if "http_read_config lib d = (c, Inl e)" for d c e
      using that unfolding http_read_config_def Let_def by (rule catch_bad_path_exn) simp
  qed
  with h http_set_file_range [of lib f h h'] http_set_file_loaded [of lib f h h'] http_loaded_zero [of lib f _ h]
  show "case http_set_file lib f h of (h', r) \<Rightarrow>
      (r = Inr 0 \<longleftrightarrow> (\<exists>c. http_loaded lib f c)) \<and>
      (if r = Inr 0 then http_loaded lib f h' else r = Inr 1 \<or> (\<exists>e. r = Inl e \<and> Ptree_bad_path \<noteq> e))"
    by (cases r) fastforce+
  obtain v' s where v: "video_set_file lib f v = (v', s)" by fastforce
  have "e \<noteq> Ptree_bad_path" if "video_set_file lib f v = (v', Inl e)" for v' e
    using that unfolding video_set_file_def
  proof (rule catch_bad_path_exn)
    show "e \<noteq> Ptree_bad_path" if "video_read_config lib d = (c, Inl e)" for d c e
      using that unfolding video_read_config_def Let_def by (rule catch_bad_path_exn) simp
  qed
  with v video_set_file_range [of lib f v v'] video_set_file_loaded [of lib f v v'] video_loaded_zero [of lib f _ v]
  show "case video_set_file lib f v of (v', r) \<Rightarrow>
      (r = Inr 0 \<longleftrightarrow> (\<exists>c. video_loaded lib f c)) \<and>
      (if r = Inr 0 then video_loaded lib f v' else r = Inr 1 \<or> (\<exists>e. r = Inl e \<and> Ptree_bad_path \<noteq> e))"
    by (cases s) fastforce+
qed

text \<open>A file with the keys of the HTTP section, and none of the video section's own.\<close>

definition demo_section :: "unit ptree_lib" where
  "demo_section = table_lib [(''cert_file'', ''c''), (''private_file'', ''p''), (''remote_server'', ''srv'')]
     [(''thread_pool_size'', 4), (''tls'', 0), (''port'', 443), (''upload_clients'', 1)]"

theorem section_status_witness:
  "\<exists>c v. http_set_file demo_section ''config.json'' (new_http_config demo_section) = (c, Inr 0) \<and>
     hc_port c = 443 \<and> hc_remote_server c = ''srv'' \<and>
     video_set_file demo_section ''config.json'' (new_video_config demo_section) = (v, Inr 1)"
proof -
  obtain c r where h: "http_set_file demo_section ''config.json'' (new_http_config demo_section) = (c, r)" by fastforce
  obtain v u where v: "video_set_file demo_section ''config.json'' (new_video_config demo_section) = (v, u)" by fastforce
  have "http_loaded demo_section ''config.json'' \<lparr>hc_props = (), hc_crt_file = ''c'', hc_private_file = ''p'',
      hc_thread_pool = 4, hc_tls_enabled = 0, hc_remote_server = ''srv'', hc_upload_user = 1, hc_port = 443\<rparr>"
    by (simp add: http_loaded_def demo_section_def table_lib_def)
  moreover have "\<not> video_loaded demo_section ''config.json'' d" for d
    by (simp add: video_loaded_def demo_section_def table_lib_def)
  ultimately have "r = Inr 0" "http_loaded demo_section ''config.json'' c" "u \<noteq> Inr 0"
    using section_status [of demo_section "''config.json''" "new_http_config demo_section" "new_video_config demo_section"]
    unfolding h v by auto
  moreover have "u = Inr 1"
    using v by (auto simp: video_set_file_def video_read_config_def demo_section_def table_lib_def put_field_def
        new_video_config_def catch_bad_path_def)
  ultimately show ?thesis using h v by (simp add: http_loaded_def demo_section_def table_lib_def)
qed

text \<open>
  The getters of \<open>ProgramConfig\<close> return null on a failed read once only.  Whatever the first
  call did, the member is set afterwards, so every later call returns it, non-null, without
  reading again; the header documents null for every failed read.  A non-null first result is a
  fully loaded section.
\<close>
theorem config_getter_calls:
  "(case get_http_config lib pc of (pc', r) \<Rightarrow>
      \<exists>c. pc_http pc' = Some c \<and> get_http_config lib pc' = (pc', Inr (Some c)) \<and>
        (pc_http pc = None \<longrightarrow>
           (r = Inr None \<longleftrightarrow> snd (http_set_file lib ''config.json'' (new_http_config lib)) = Inr 1) \<and>
           (r = Inr (Some c) \<longrightarrow> http_loaded lib ''config.json'' c)))"
proof -
  obtain slot r where s:
    "lazy_section (http_set_file lib ''config.json'') (new_http_config lib) (pc_http pc) = (slot, r)"
    by (cases "lazy_section (http_set_file lib ''config.json'') (new_http_config lib) (pc_http pc)")
  from http_reader.lazy_second_call [OF s] obtain c where c: "slot = Some c"
    "lazy_section (http_set_file lib ''config.json'') (new_http_config lib) slot = (slot, Inr (Some c))"
    by blast
  have null: "r = Inr None \<longleftrightarrow> snd (http_set_file lib ''config.json'' (new_http_config lib)) = Inr 1"
    if "pc_http pc = None"
    using http_reader.lazy_null_iff [of lib "''config.json''"] s that
    by (cases "http_set_file lib ''config.json'' (new_http_config lib)") auto
  have load: "http_loaded lib ''config.json'' c" if "pc_http pc = None" and "r = Inr (Some c)"
    using http_reader.lazy_first_loaded [of lib "''config.json''" c] s that by simp
  show ?thesis
    using s c null load by (simp add: get_http_config_def)
qed

theorem config_getter_calls_witness:
  "\<exists>pc' c. get_http_config (table_lib [] []) new_program_config = (pc', Inr None) \<and>
     get_http_config (table_lib [] []) pc' = (pc', Inr (Some c)) \<and> hc_port c = 0"
proof -
  define lib where "lib = table_lib [] []"
  have h: "http_set_file lib f c = (c, Inr 1)" for f c
    by (simp add: lib_def table_lib_def http_set_file_def http_read_config_def)
  obtain pc' r where g: "get_http_config lib new_program_config = (pc', r)" by fastforce
  then have r: "r = Inr None" and p: "pc_http pc' = Some (new_http_config lib)"
    by (auto simp: get_http_config_def lazy_section_def h new_program_config_def)
  from config_getter_calls [of lib new_program_config] g p
  have "get_http_config lib pc' = (pc', Inr (Some (new_http_config lib)))" by auto
  with g r show ?thesis unfolding lib_def [symmetric] by (auto simp: new_http_config_def)
qed

text \<open>
  The camera section does not report a missing key.  When \<open>device_path\<close> is absent, \<open>set_file\<close>
  returns 0 with no field read, the getter returns the object as loaded, and the video queue is
  built with device rate 0: then every subscription gets period 0, and the first round that
  finds a frame for it divides by zero.
\<close>
theorem camera_missing_key:
  assumes "pt_read_json lib ''config.json'' = Inr t" and "pt_get_child lib t ''camera'' = Inr p"
    and "pt_get_string lib p ''device_path'' = Inl Ptree_bad_path"
    and "ti_fps i \<noteq> 0" and "in_int32 (ti_fps i)"
  shows "\<exists>pc c s. get_camera_config lib pf new_program_config = (pc, Inr (Some c)) \<and>
     camera_fps c = 0 \<and> device_path c = '''' \<and> vqueue_ctor (Some c) = Inr s \<and>
     (case new_info i s of (ti, s0) \<Rightarrow>
        \<exists>s1. insert_event e (Some ti) s0 = Inr (0, s1) \<and>
             distribute_round now (snd (push a s1)) = Inl DivByZero)"
proof -
  let ?c = "(new_camera_config lib)\<lparr>cc_props := p\<rparr>"
  have "camera_set_file lib pf ''config.json'' (new_camera_config lib) = (?c, Inr 0)"
    using assms(1-3) by (simp add: camera_set_file_def camera_read_config_def)
  then have g: "get_camera_config lib pf new_program_config =
      (new_program_config\<lparr>pc_camera := Some ?c\<rparr>, Inr (Some ?c))"
    by (simp add: get_camera_config_def lazy_section_def new_program_config_def)
  have f: "camera_fps ?c = 0" "device_path ?c = ''''"
    by (simp_all add: camera_fps_def device_path_def new_camera_config_def)
  have "0 sdiv ti_fps i = 0" by (simp add: signed_divide_int_def)
  then have d: "int_div 0 (ti_fps i) = Inr 0"
    using assms(4) by (simp add: int_div_def chk32_def in_int32_def)
  obtain ti s0 where n: "new_info i (new_vqueue 0) = (ti, s0)" by fastforce
  then have s0: "q_thread_info s0 = []" "q_infos s0 ti = Some i" "q_device_fps s0 = 0" "q_enable s0"
    "q_input s0 = []" "q_frame_no s0 = 0"
    by (auto simp: new_info_def new_vqueue_def)
  then obtain s1 where s1: "insert_event e (Some ti) s0 = Inr (0, s1)"
    and f1: "q_thread_info s1 = [(e, ti)]" "q_infos s1 ti = Some (i\<lparr>ti_fps := 0\<rparr>)" "q_enable s1"
      "q_input s1 = []" "q_frame_no s1 = 0" "q_device_fps s1 = 0"
    by (auto simp: insert_event_def read_info_def write_info_def d um_emplace_def)
  have "distribute_round now (snd (push a s1)) = Inl DivByZero"
    using f1 by (simp add: distribute_round_def push_def next_frame_no_def int_add_def chk32_def
        in_int32_def deliver_def read_info_def)
  with g f n s1 show ?thesis by (auto simp: vqueue_ctor_def)
qed

theorem camera_missing_key_witness:
  "\<exists>pf pc c. get_camera_config (table_lib [] []) pf new_program_config = (pc, Inr (Some c)) \<and> camera_fps c = 0"
proof -
  have h: "pt_read_json (table_lib [] []) ''config.json'' = Inr ()"
    "pt_get_child (table_lib [] []) () ''camera'' = Inr ()"
    "pt_get_string (table_lib [] []) () ''device_path'' = Inl Ptree_bad_path"
    "ti_fps \<lparr>ti_is_run = True, ti_fps = 30\<rparr> \<noteq> 0" "in_int32 (ti_fps \<lparr>ti_is_run = True, ti_fps = 30\<rparr>)"
    by (simp_all add: table_lib_def in_int32_def)
  from camera_missing_key [OF h] show ?thesis by blast
qed

text \<open>
  \<open>split_time()\<close> is the configured number of seconds in nanoseconds exactly when it is between
  -2 and 2; outside, the multiplication overflows \<open>int\<close>.
\<close>
theorem split_time_range:
  "split_time c =
     (if \<bar>vc_split_time c\<bar> \<le> 2 then Inr (vc_split_time c * 1000000000) else Inl SignedOverflow)"
  by (auto simp: split_time_cases)

text \<open>
  Reading the events section.  Status 0 lists the names in file order, one per entry;
  the rate of a name is that of its first entry, and -1 for a name the file does not have.
\<close>
theorem event_section:
  assumes "event_read_config lib props new_event_config = (c, Inr 0)"
  shows "\<exists>es. map (\<lambda>vt. (pt_get_string lib vt ''event_name'', pt_get_int lib vt ''fps'')) (pt_children lib props)
      = map (\<lambda>(n, r). (Inr n, Inr r)) es \<and>
     ec_name c = map fst es \<and>
     event_fps n c = (case map_of es n of None \<Rightarrow> -1 | Some r \<Rightarrow> r)"
proof -
  have gen: "\<exists>es. map (\<lambda>vt. (pt_get_string lib vt ''event_name'', pt_get_int lib vt ''fps'')) vts
      = map (\<lambda>(n, r). (Inr n, Inr r)) es \<and> ec_name c = ec_name c0 @ map fst es \<and>
      um_find (ec_fps c) n = (case um_find (ec_fps c0) n of Some r \<Rightarrow> Some r | None \<Rightarrow> map_of es n)"
    if "try_steps (map (event_entry lib) vts) c0 = (c, None)" for vts c0
    using that
  proof (induction vts arbitrary: c0)
    case Nil
    then show ?case by (auto split: option.split)
  next
    case (Cons vt vts)
    then obtain c1 where c1: "event_entry lib vt c0 = Inr c1"
      and rest: "try_steps (map (event_entry lib) vts) c1 = (c, None)"
      by (auto simp only: list.map try_steps_Cons_None)
    from c1 obtain m r where m: "pt_get_string lib vt ''event_name'' = Inr m"
      "pt_get_int lib vt ''fps'' = Inr r"
      "c1 = c0\<lparr>ec_name := ec_name c0 @ [m], ec_fps := um_emplace m r (ec_fps c0)\<rparr>"
      by (auto simp: event_entry_def split: sum.splits)
    from Cons.IH [OF rest] obtain es where
      "map (\<lambda>vt. (pt_get_string lib vt ''event_name'', pt_get_int lib vt ''fps'')) vts
        = map (\<lambda>(n, r). (Inr n, Inr r)) es"
      "ec_name c = ec_name c1 @ map fst es"
      "um_find (ec_fps c) n = (case um_find (ec_fps c1) n of Some r \<Rightarrow> Some r | None \<Rightarrow> map_of es n)"
      by blast
    with m show ?case
      by (intro exI [of _ "(m, r) # es"]) (auto simp: um_find_emplace split: option.splits)
  qed
  from assms have "try_steps (map (event_entry lib) (pt_children lib props)) new_event_config = (c, None)"
    by (auto simp: event_read_config_def catch_bad_path_zero)
  from gen [OF this] show ?thesis unfolding new_event_config_def event_fps_def
    by (elim ex_forward) simp
qed

theorem event_section_witness:
  "\<exists>c. event_read_config (table_lib [(''event_name'', ''7'')] [(''fps'', 7)]) () new_event_config = (c, Inr 0) \<and>
     event_fps ''7'' c = 7 \<and> event_fps ''8'' c = -1"
proof -
  let ?lib = "table_lib [(''event_name'', ''7'')] [(''fps'', 7)]"
  let ?c = "\<lparr>ec_name = [''7''], ec_fps = [(''7'', 7)]\<rparr>"
  have r: "event_read_config ?lib () new_event_config = (?c, Inr 0)"
    by (simp add: table_lib_def event_read_config_def event_entry_def new_event_config_def um_emplace_def)
  from event_section [OF r, of "''7''"] event_section [OF r, of "''8''"] r show ?thesis
    by (auto simp: table_lib_def)
qed

end
