(* ===== verification/Video_Queue_Spec.thy ===== *)
theory Video_Queue_Spec
  imports Video_Queue
begin

text \<open>
  What \<open>VideoQueue\<close> promises.  The abstract machine keeps frame values in per-event queues; the
  invariant says which addresses the code's queues own (each exactly once, all of them live, and
  nothing else live than what a caller holds); every operation of the code simulates the abstract
  one and keeps the invariant.  \<open>H\<close> is always the set of frames held outside the queue: pushed
  frames leave it, popped frames enter it.
\<close>

subsection \<open>Abstract machine\<close>

record aqueue =
  a_fps :: int
  a_input :: "vbuf list"
  a_frame :: int
  a_subs :: "string \<Rightarrow> thread_info option"
  a_queue :: "string \<Rightarrow> vbuf list option"

definition frame_copy :: "int \<Rightarrow> vbuf \<Rightarrow> vbuf" where
  "frame_copy t b =
     b\<lparr>vb_data := Some (if vb_size b = 0 then [] else take (vb_size b) (the (vb_data b))), vb_time := t\<rparr>"

definition a_next_frame :: "int \<Rightarrow> int \<Rightarrow> int" where
  "a_next_frame d n = (if n + 1 > d then 1 else n + 1)"

definition due :: "int \<Rightarrow> thread_info option \<Rightarrow> bool" where
  "due n i = (case i of None \<Rightarrow> False | Some i \<Rightarrow> n mod ti_fps i = 0)"

definition a_distribute :: "int \<Rightarrow> aqueue \<Rightarrow> aqueue" where
  "a_distribute t a =
     (case a_input a of
        [] \<Rightarrow> a
      | b # bs \<Rightarrow>
          let n = a_next_frame (a_fps a) (a_frame a) in
          a\<lparr>a_input := bs, a_frame := n,
            a_queue := (\<lambda>e. if due n (a_subs a e)
                            then map_option (\<lambda>q. q @ [frame_copy t b]) (a_queue a e)
                            else a_queue a e)\<rparr>)"

subsection \<open>Abstraction and invariant\<close>

definition buf_at :: "vqueue \<Rightarrow> addr \<Rightarrow> vbuf" where
  "buf_at s a = the (q_bufs s a)"

definition abs_queue :: "vqueue \<Rightarrow> string \<Rightarrow> vbuf list option" where
  "abs_queue s e = map_option (map (buf_at s)) (um_find (q_output s) e)"

definition abs_subs :: "vqueue \<Rightarrow> string \<Rightarrow> thread_info option" where
  "abs_subs s e = (case um_find (q_thread_info s) e of None \<Rightarrow> None | Some ti \<Rightarrow> q_infos s ti)"

definition abs_vq :: "vqueue \<Rightarrow> aqueue" where
  "abs_vq s = \<lparr>a_fps = q_device_fps s, a_input = map (buf_at s) (q_input s),
               a_frame = q_frame_no s, a_subs = abs_subs s, a_queue = abs_queue s\<rparr>"

definition owned :: "vqueue \<Rightarrow> addr list" where
  "owned s = q_input s @ concat (map snd (q_output s))"

definition frame_ok :: "vbuf \<Rightarrow> bool" where
  "frame_ok b \<longleftrightarrow> vb_size b = 0 \<or> (case vb_data b of None \<Rightarrow> False | Some bs \<Rightarrow> vb_size b \<le> length bs)"

text \<open>
  The device's rate is any \<open>int\<close> of the configuration, and an event's period whatever the division in
  \<open>insert_event\<close> left, 0 included; \<open>can_distribute\<close> is what a round of the distributor needs of them,
  \<open>served\<close> what all its later rounds need.
\<close>

definition rates_ok :: "vqueue \<Rightarrow> bool" where
  "rates_ok s \<longleftrightarrow> in_int32 (q_device_fps s) \<and> 0 \<le> q_frame_no s \<and> q_frame_no s \<le> max 1 (q_device_fps s)"

definition has_period :: "vqueue \<Rightarrow> string \<times> addr \<Rightarrow> bool" where
  "has_period s x \<longleftrightarrow> map_option ti_fps (q_infos s (snd x)) \<noteq> Some 0"

definition periods_ok :: "vqueue \<Rightarrow> bool" where
  "periods_ok s \<longleftrightarrow> list_all (has_period s) (q_thread_info s)"

definition can_distribute :: "vqueue \<Rightarrow> bool" where
  "can_distribute s \<longleftrightarrow> in_int32 (q_frame_no s + 1) \<and> periods_ok s"

definition served :: "vqueue \<Rightarrow> bool" where
  "served s \<longleftrightarrow> in_int32 (q_device_fps s + 1) \<and> periods_ok s"

definition subs_ok :: "vqueue \<Rightarrow> bool" where
  "subs_ok s \<longleftrightarrow> um_wf (q_thread_info s) \<and> um_wf (q_output s) \<and>
     distinct (map snd (q_thread_info s)) \<and>
     (\<forall>(e, ti) \<in> set (q_thread_info s). um_find (q_output s) e \<noteq> None \<and> q_infos s ti \<noteq> None) \<and>
     (\<forall>a. q_infos s a \<noteq> None \<longrightarrow> a < q_next s)"

definition bufs_ok :: "addr set \<Rightarrow> vqueue \<Rightarrow> bool" where
  "bufs_ok H s \<longleftrightarrow> distinct (owned s) \<and> H \<inter> set (owned s) = {} \<and>
     dom (q_bufs s) = H \<union> set (owned s) \<and>
     (\<forall>a b. q_bufs s a = Some b \<longrightarrow> a < q_next s \<and> frame_ok b)"

definition vq_inv :: "addr set \<Rightarrow> vqueue \<Rightarrow> bool" where
  "vq_inv H s \<longleftrightarrow> rates_ok s \<and> subs_ok s \<and> bufs_ok H s"

lemma has_period_cong: "q_infos s' = q_infos s \<Longrightarrow> has_period s' = has_period s"
  by (simp add: has_period_def fun_eq_iff)

lemma vq_invD:
  "vq_inv H s \<Longrightarrow> rates_ok s" "vq_inv H s \<Longrightarrow> subs_ok s" "vq_inv H s \<Longrightarrow> bufs_ok H s"
  by (simp_all add: vq_inv_def)

lemma new_vqueue_inv: "in_int32 d \<Longrightarrow> vq_inv {} (new_vqueue d)"
  by (simp add: vq_inv_def rates_ok_def subs_ok_def bufs_ok_def new_vqueue_def owned_def)

lemma copy_frame_ok: "frame_ok b \<Longrightarrow> copy_frame t b = Inr (frame_copy t b)"
  by (auto simp: copy_frame_def memcpy_bytes_def frame_copy_def frame_ok_def split: option.splits)

lemma frame_ok_copy: "frame_ok b \<Longrightarrow> frame_ok (frame_copy t b)"
  by (auto simp: frame_copy_def frame_ok_def split: option.splits)

lemma subs_ok_entry:
  assumes "subs_ok s" and "(e, ti) \<in> set (q_thread_info s)"
  obtains i q where "q_infos s ti = Some i" and "um_find (q_output s) e = Some q"
    and "um_find (q_thread_info s) e = Some ti"
  using assms by (fastforce simp: subs_ok_def um_find_mem)

lemma periods_ok_abs:
  assumes "subs_ok s"
  shows "periods_ok s \<longleftrightarrow> (\<forall>e i. abs_subs s e = Some i \<longrightarrow> ti_fps i \<noteq> 0)"
proof -
  have find: "um_find (q_thread_info s) e = Some ti \<longleftrightarrow> (e, ti) \<in> set (q_thread_info s)" for e ti
    using assms by (simp add: subs_ok_def um_find_mem)
  show ?thesis
    by (fastforce simp: periods_ok_def list_all_iff has_period_def abs_subs_def find [symmetric] split: option.splits
        elim: find [THEN iffD1, elim_format])
qed

lemma served_can_distribute: "rates_ok s \<Longrightarrow> served s \<Longrightarrow> can_distribute s"
  by (auto simp: rates_ok_def served_def can_distribute_def in_int32_def max_def split: if_splits)

lemma subs_okI:
  assumes "um_wf (q_thread_info s)" and "um_wf (q_output s)"
    and "distinct (map snd (q_thread_info s))"
    and "\<And>e t. (e, t) \<in> set (q_thread_info s) \<Longrightarrow> um_find (q_output s) e \<noteq> None \<and> q_infos s t \<noteq> None"
    and "\<And>a i. q_infos s a = Some i \<Longrightarrow> a < q_next s"
  shows "subs_ok s"
  unfolding subs_ok_def
proof (intro conjI ballI)
  fix x assume x: "x \<in> set (q_thread_info s)"
  obtain e t where et: "x = (e, t)" by (cases x)
  show "case x of (e, ti) \<Rightarrow> um_find (q_output s) e \<noteq> None \<and> q_infos s ti \<noteq> None"
    unfolding et prod.case by (rule assms(4) [OF x [unfolded et]])
qed (use assms(1-3,5) in auto)

lemma owned_output: "um_find (q_output s) e = Some q \<Longrightarrow> set q \<subseteq> set (owned s)"
  by (force simp: owned_def um_find_def dest: map_of_SomeD)

lemma bufs_ok_fresh:
  assumes "bufs_ok H s"
  shows "q_bufs s (q_next s) = None" and "q_next s \<notin> H" and "q_next s \<notin> set (owned s)"
proof -
  show none: "q_bufs s (q_next s) = None"
    using assms by (cases "q_bufs s (q_next s)") (auto simp: bufs_ok_def)
  then have "q_next s \<notin> H \<union> set (owned s)"
    using assms by (metis bufs_ok_def domIff)
  then show "q_next s \<notin> H" and "q_next s \<notin> set (owned s)" by simp_all
qed

lemma bufs_ok_live:
  assumes "bufs_ok H s" and "a \<in> H \<union> set (owned s)"
  obtains b where "q_bufs s a = Some b" and "frame_ok b"
proof -
  from assms have "a \<in> dom (q_bufs s)" by (metis bufs_ok_def)
  then obtain b where "q_bufs s a = Some b" by blast
  with assms(1) that show thesis by (auto simp: bufs_ok_def)
qed

text \<open>Frames allocated or released outside a queue do not change what the queues hold.\<close>

lemma abs_queue_bufs_cong:
  assumes "q_output s' = q_output s" and "\<And>a. a \<in> set (owned s) \<Longrightarrow> q_bufs s' a = q_bufs s a"
  shows "abs_queue s' = abs_queue s"
proof (rule ext)
  fix e
  show "abs_queue s' e = abs_queue s e"
    using assms owned_output [of s e]
    by (cases "um_find (q_output s) e") (auto simp: abs_queue_def buf_at_def)
qed

lemma abs_subs_cong:
  "q_thread_info s' = q_thread_info s \<Longrightarrow> q_infos s' = q_infos s \<Longrightarrow> abs_subs s' = abs_subs s"
  by (rule ext) (simp add: abs_subs_def split: option.split)

subsection \<open>Appending to one event's queue\<close>

definition enqueue_fresh :: "string \<Rightarrow> vbuf \<Rightarrow> vqueue \<Rightarrow> vqueue" where
  "enqueue_fresh e c s =
     (snd (new_buf c s))\<lparr>q_output := um_modify e (\<lambda>q. q @ [q_next s]) (q_output s)\<rparr>"

lemma enqueue_fresh_fields [simp]:
  "q_thread_info (enqueue_fresh e c s) = q_thread_info s"
  "q_infos (enqueue_fresh e c s) = q_infos s"
  "q_frame_no (enqueue_fresh e c s) = q_frame_no s"
  "q_device_fps (enqueue_fresh e c s) = q_device_fps s"
  "q_input (enqueue_fresh e c s) = q_input s"
  "q_enable (enqueue_fresh e c s) = q_enable s"
  "q_next (enqueue_fresh e c s) = Suc (q_next s)"
  "q_output (enqueue_fresh e c s) = um_modify e (\<lambda>q. q @ [q_next s]) (q_output s)"
  "q_bufs (enqueue_fresh e c s) = (q_bufs s)(q_next s \<mapsto> c)"
  by (simp_all add: enqueue_fresh_def new_buf_def)

lemma enqueue_fresh_bufs:
  assumes "bufs_ok H s" and "um_wf (q_output s)" and q: "um_find (q_output s) e = Some q"
    and "frame_ok c"
  shows "bufs_ok H (enqueue_fresh e c s)"
proof -
  let ?a = "q_next s"
  from um_split [OF q assms(2)] obtain m1 m2 where m: "q_output s = m1 @ (e, q) # m2"
    and m': "um_modify e (\<lambda>q. q @ [?a]) (q_output s) = m1 @ (e, q @ [?a]) # m2"
    by blast
  have fresh: "?a \<notin> H \<union> set (owned s)"
    using bufs_ok_fresh(2,3) [OF assms(1)] by simp
  have "set (owned (enqueue_fresh e c s)) = insert ?a (set (owned s))"
    and "distinct (owned (enqueue_fresh e c s)) = (distinct (owned s) \<and> ?a \<notin> set (owned s))"
    using m m' by (auto simp: owned_def)
  with fresh assms(1,4) show ?thesis
    by (auto simp: bufs_ok_def less_Suc_eq)
qed

lemma enqueue_fresh_inv:
  "vq_inv H s \<Longrightarrow> um_find (q_output s) e = Some q \<Longrightarrow> frame_ok c \<Longrightarrow> vq_inv H (enqueue_fresh e c s)"
  by (auto simp: vq_inv_def enqueue_fresh_bufs rates_ok_def subs_ok_def um_find_modify less_Suc_eq)

lemma enqueue_fresh_abs:
  assumes "bufs_ok H s"
  shows "abs_queue (enqueue_fresh e c s) =
    (abs_queue s)(e := map_option (\<lambda>q. q @ [c]) (abs_queue s e))"
proof (rule ext)
  fix j
  have old: "map (buf_at (enqueue_fresh e c s)) q = map (buf_at s) q"
    if "um_find (q_output s) j = Some q" for j q
  proof -
    have "q_next s \<notin> set q"
      using owned_output [OF that] bufs_ok_fresh(3) [OF assms] by blast
    then show ?thesis by (auto simp: buf_at_def)
  qed
  show "abs_queue (enqueue_fresh e c s) j =
    ((abs_queue s)(e := map_option (\<lambda>q. q @ [c]) (abs_queue s e))) j"
    using old [of j] by (cases "um_find (q_output s) j") (auto simp: abs_queue_def um_find_modify buf_at_def)
qed

subsection \<open>A round of the distributor\<close>

lemma rates_ok_frame: "rates_ok s \<Longrightarrow> in_int32 (q_frame_no s) \<and> 0 \<le> q_frame_no s"
  by (auto simp: rates_ok_def in_int32_def)

lemma next_frame_no_eq:
  "next_frame_no s = (if in_int32 (q_frame_no s + 1) then Inr (a_next_frame (q_device_fps s) (q_frame_no s))
     else Inl SignedOverflow)"
  by (simp add: next_frame_no_def int_add_def a_next_frame_def chk32_def)

lemma deliver_eq:
  assumes inv: "vq_inv H s" and it: "(e, ti) \<in> set (q_thread_info s)" and p: "has_period s (e, ti)"
    and b: "q_bufs s inp = Some b"
  shows "deliver t inp (e, ti) s =
    Inr (if due (q_frame_no s) (abs_subs s e) then enqueue_fresh e (frame_copy t b) s else s)"
proof -
  from vq_invD(2) [OF inv] it obtain i q where i: "q_infos s ti = Some i"
    and q: "um_find (q_output s) e = Some q" and e: "um_find (q_thread_info s) e = Some ti"
    by (rule subs_ok_entry)
  have fb: "frame_ok b" using vq_invD(3) [OF inv] b by (auto simp: bufs_ok_def)
  obtain r where "int_mod (q_frame_no s) (ti_fps i) = Inr r" "r = 0 \<longleftrightarrow> q_frame_no s mod ti_fps i = 0"
    using rates_ok_frame [OF vq_invD(1) [OF inv]] p i int_mod_nonzero by (auto simp: has_period_def)
  moreover have "due (q_frame_no s) (abs_subs s e) \<longleftrightarrow> q_frame_no s mod ti_fps i = 0"
    by (simp add: due_def abs_subs_def e i)
  ultimately show ?thesis
    by (simp add: deliver_def read_info_def read_buf_def i b copy_frame_ok [OF fb] q
        enqueue_fresh_def new_buf_def)
qed

lemma deliver_zero:
  assumes "vq_inv H s" and "(e, ti) \<in> set (q_thread_info s)" and "\<not> has_period s (e, ti)"
  shows "deliver t inp (e, ti) s = Inl DivByZero"
  using assms(3) by (auto simp: has_period_def deliver_def read_info_def)

definition same_subs :: "vqueue \<Rightarrow> vqueue \<Rightarrow> bool" where
  "same_subs s s' \<longleftrightarrow> q_thread_info s' = q_thread_info s \<and> q_infos s' = q_infos s \<and>
     q_frame_no s' = q_frame_no s \<and> q_device_fps s' = q_device_fps s \<and>
     q_input s' = q_input s \<and> q_enable s' = q_enable s \<and> q_bufs s \<subseteq>\<^sub>m q_bufs s'"

lemma same_subs_refl: "same_subs s s"
  by (simp add: same_subs_def)

lemma same_subs_trans: "same_subs s s' \<Longrightarrow> same_subs s' s'' \<Longrightarrow> same_subs s s''"
  by (auto simp: same_subs_def intro: map_le_trans)

lemma same_subs_abs: "same_subs s s' \<Longrightarrow> abs_subs s' = abs_subs s"
  by (rule abs_subs_cong) (simp_all add: same_subs_def)

lemma same_subs_enqueue: "bufs_ok H s \<Longrightarrow> same_subs s (enqueue_fresh e c s)"
  by (auto simp: same_subs_def map_le_def bufs_ok_fresh)

definition extend_due :: "string set \<Rightarrow> vbuf \<Rightarrow> vqueue \<Rightarrow> string \<Rightarrow> vbuf list option" where
  "extend_due E c s = (\<lambda>e. if e \<in> E \<and> due (q_frame_no s) (abs_subs s e)
     then map_option (\<lambda>q. q @ [c]) (abs_queue s e) else abs_queue s e)"

lemma deliver_step:
  assumes inv: "vq_inv H s" and it: "(e, ti) \<in> set (q_thread_info s)" and p: "has_period s (e, ti)"
    and b: "q_bufs s inp = Some b"
  shows "\<exists>s1. deliver t inp (e, ti) s = Inr s1 \<and> vq_inv H s1 \<and> same_subs s s1 \<and>
    abs_queue s1 = extend_due {e} (frame_copy t b) s"
proof -
  let ?c = "frame_copy t b"
  define s1 where "s1 = (if due (q_frame_no s) (abs_subs s e) then enqueue_fresh e ?c s else s)"
  have step: "deliver t inp (e, ti) s = Inr s1"
    using deliver_eq [OF inv it p b] by (simp add: s1_def)
  from subs_ok_entry [OF vq_invD(2) [OF inv] it] obtain q
    where q: "um_find (q_output s) e = Some q" by metis
  have fb: "frame_ok ?c"
    using vq_invD(3) [OF inv] b by (auto simp: bufs_ok_def frame_ok_copy)
  have "vq_inv H s1"
    using enqueue_fresh_inv [OF inv q fb] inv by (simp add: s1_def)
  moreover have "same_subs s s1"
    using same_subs_enqueue [OF vq_invD(3) [OF inv]] same_subs_refl by (simp add: s1_def)
  moreover have "abs_queue s1 = extend_due {e} ?c s"
    using enqueue_fresh_abs [OF vq_invD(3) [OF inv], of e ?c]
    by (auto simp: s1_def extend_due_def fun_eq_iff)
  ultimately show ?thesis using step by blast
qed

lemma deliver_loop:
  assumes "vq_inv H s" and "set xs \<subseteq> set (q_thread_info s)" and "distinct (map fst xs)"
    and "q_bufs s inp = Some b"
  shows "if list_all (has_period s) xs
    then \<exists>s'. rfold (deliver t inp) xs s = Inr s' \<and> vq_inv H s' \<and> same_subs s s' \<and>
      abs_queue s' = extend_due (fst ` set xs) (frame_copy t b) s
    else rfold (deliver t inp) xs s = Inl DivByZero"
  using assms
proof (induction xs arbitrary: s)
  case Nil
  then show ?case by (simp add: same_subs_refl extend_due_def)
next
  case (Cons x xs)
  obtain e ti where x: "x = (e, ti)" by (cases x)
  let ?c = "frame_copy t b"
  from Cons.prems(2) x have it: "(e, ti) \<in> set (q_thread_info s)" by simp
  show ?case
  proof (cases "has_period s x")
    case False
    with deliver_zero [OF Cons.prems(1) it] show ?thesis by (simp add: x)
  next
    case True
    with deliver_step [OF Cons.prems(1) it _ Cons.prems(4), of t] obtain s1
      where step: "deliver t inp x s = Inr s1" and inv1: "vq_inv H s1" and sub1: "same_subs s s1"
        and abs1: "abs_queue s1 = extend_due {e} ?c s" by (auto simp: x)
    have "set xs \<subseteq> set (q_thread_info s1)" and "q_bufs s1 inp = Some b"
      using sub1 Cons.prems(2,4) by (auto simp: same_subs_def map_le_def dom_def)
    note IH = Cons.IH [OF inv1 this(1) _ this(2)]
    have same: "list_all (has_period s1) xs = list_all (has_period s) xs"
      using sub1 by (simp add: list_all_iff has_period_def same_subs_def)
    have "abs_queue s' = extend_due (fst ` set (x # xs)) ?c s"
      if "abs_queue s' = extend_due (fst ` set xs) ?c s1" for s'
      using that abs1 same_subs_abs [OF sub1] sub1 Cons.prems(3)
      by (auto simp: extend_due_def x fun_eq_iff same_subs_def)
    with IH same Cons.prems(3) step same_subs_trans [OF sub1] True show ?thesis
      by (auto split: if_splits)
  qed
qed

lemma delete_held:
  assumes "vq_inv H s" and "a \<in> H"
  shows "\<exists>s'. delete_buf a s = Inr s' \<and> vq_inv (H - {a}) s' \<and> abs_queue s' = abs_queue s \<and>
    q_bufs s' = (q_bufs s)(a := None) \<and> q_output s' = q_output s \<and>
    same_subs (s\<lparr>q_bufs := q_bufs s'\<rparr>) s'"
proof -
  let ?s' = "s\<lparr>q_bufs := (q_bufs s)(a := None)\<rparr>"
  from vq_invD(3) [OF assms(1)] assms(2) obtain b where "q_bufs s a = Some b"
    by (blast elim: bufs_ok_live)
  then have "delete_buf a s = Inr ?s'" by (simp add: delete_buf_def)
  moreover have "bufs_ok (H - {a}) ?s'"
    using vq_invD(3) [OF assms(1)] assms(2)
    by (auto simp: bufs_ok_def owned_def split: if_splits)
  moreover have "abs_queue ?s' = abs_queue s"
    using vq_invD(3) [OF assms(1)] assms(2)
    by (intro abs_queue_bufs_cong) (auto simp: bufs_ok_def)
  ultimately show ?thesis
    using assms(1)
    by (auto simp: vq_inv_def rates_ok_def subs_ok_def same_subs_def)
qed

lemma a_next_frame_range:
  "0 \<le> n \<Longrightarrow> n \<le> max 1 d \<Longrightarrow> 1 \<le> a_next_frame d n \<and> a_next_frame d n \<le> max 1 d"
  by (simp add: a_next_frame_def)

lemma distribute_round_sim:
  assumes inv: "vq_inv H s" and en: "q_enable s" and can: "q_input s \<noteq> [] \<Longrightarrow> can_distribute s"
  shows "\<exists>s'. distribute_round t s = Inr s' \<and> vq_inv H s' \<and> q_enable s' \<and>
    abs_vq s' = a_distribute t (abs_vq s) \<and> q_thread_info s' = q_thread_info s"
proof (cases "q_input s")
  case Nil
  then show ?thesis using inv en by (simp add: distribute_round_def a_distribute_def abs_vq_def)
next
  case (Cons inp rest)
  let ?n = "a_next_frame (q_device_fps s) (q_frame_no s)"
  define s1 where "s1 = s\<lparr>q_input := rest, q_frame_no := ?n\<rparr>"
  have bo: "bufs_ok H s" by (rule vq_invD(3) [OF inv])
  have inpH: "inp \<notin> H" using bo Cons by (auto simp: bufs_ok_def owned_def)
  have inv1: "vq_inv (insert inp H) s1"
    using inv Cons a_next_frame_range [of "q_frame_no s" "q_device_fps s"]
    by (auto simp: vq_inv_def s1_def rates_ok_def subs_ok_def bufs_ok_def owned_def)
  obtain b where b: "q_bufs s inp = Some b"
    using bufs_ok_live [OF bo, of inp] Cons by (auto simp: owned_def)
  have nn: "in_int32 (q_frame_no s + 1)" and "list_all (has_period s1) (q_thread_info s1)"
    using can Cons has_period_cong [of s1 s] by (simp_all add: can_distribute_def periods_ok_def s1_def)
  moreover have "um_wf (q_thread_info s1)" using vq_invD(2) [OF inv] by (simp add: s1_def subs_ok_def)
  ultimately have "list_all (has_period s1) (q_thread_info s1)" "um_wf (q_thread_info s1)" by blast+
  with deliver_loop [OF inv1, of "q_thread_info s1" inp b t] b obtain s2 where
    s2: "rfold (deliver t inp) (q_thread_info s1) s1 = Inr s2" "vq_inv (insert inp H) s2"
      "same_subs s1 s2"
      "abs_queue s2 = extend_due (fst ` set (q_thread_info s1)) (frame_copy t b) s1"
    by (auto simp: um_wf_def s1_def)
  from delete_held [OF s2(2)] obtain s' where s': "delete_buf inp s2 = Inr s'"
    "vq_inv H s'" "abs_queue s' = abs_queue s2" "q_bufs s' = (q_bufs s2)(inp := None)"
    "same_subs (s2\<lparr>q_bufs := q_bufs s'\<rparr>) s'"
    using inpH by (metis Diff_insert_absorb insertI1)
  have run: "distribute_round t s = Inr s'"
    using en Cons nn s2(1) s'(1) by (simp add: distribute_round_def next_frame_no_eq s1_def)
  have qs: "abs_queue s1 = abs_queue s" by (rule abs_queue_bufs_cong) (simp_all add: s1_def)
  have ss: "abs_subs s1 = abs_subs s" by (rule abs_subs_cong) (simp_all add: s1_def)
  have s1f: "q_frame_no s1 = ?n" "q_thread_info s1 = q_thread_info s" by (simp_all add: s1_def)
  have nd: "\<not> due n (abs_subs s e)" if "e \<notin> fst ` set (q_thread_info s)" for n e
  proof -
    have "um_find (q_thread_info s) e = None"
      using that by (simp add: um_find_def map_of_eq_None_iff)
    then show ?thesis by (simp add: due_def abs_subs_def)
  qed
  have inp: "map (buf_at s') rest = map (buf_at s) rest"
  proof (rule map_cong [OF refl])
    fix a assume a: "a \<in> set rest"
    have "a \<noteq> inp" and "a \<in> dom (q_bufs s)"
      using bo Cons a by (auto simp: bufs_ok_def owned_def)
    with s2(3) s'(4) show "buf_at s' a = buf_at s a"
      by (auto simp: same_subs_def map_le_def buf_at_def s1_def)
  qed
  have "abs_queue s' = (\<lambda>e. if due ?n (abs_subs s e)
      then map_option (\<lambda>q. q @ [frame_copy t b]) (abs_queue s e) else abs_queue s e)"
    using s2(4) s'(3) nd [of _ ?n] s1f by (auto simp: extend_due_def qs ss fun_eq_iff)
  moreover have "abs_subs s' = abs_subs s"
    using s2(3) s'(5) by (intro abs_subs_cong) (simp_all add: same_subs_def s1_def)
  moreover have "q_input s' = rest \<and> q_frame_no s' = ?n \<and> q_device_fps s' = q_device_fps s \<and>
      q_enable s' \<and> q_thread_info s' = q_thread_info s"
    using s2(3) s'(5) en by (auto simp: same_subs_def s1_def)
  ultimately have "abs_vq s' = a_distribute t (abs_vq s)"
    using Cons b inp by (simp add: abs_vq_def a_distribute_def Let_def buf_at_def cong: if_cong)
  with run s'(2) \<open>q_input s' = rest \<and> _\<close> show ?thesis by blast
qed

text \<open>A round that cannot be served ends in one of the two faults of its arithmetic.\<close>

lemma distribute_round_faults:
  assumes inv: "vq_inv H s" and en: "q_enable s" and inp: "q_input s \<noteq> []" and bad: "\<not> can_distribute s"
  shows "distribute_round t s = Inl (if in_int32 (q_frame_no s + 1) then DivByZero else SignedOverflow)"
proof (cases "in_int32 (q_frame_no s + 1)")
  case False
  with en inp show ?thesis by (cases "q_input s") (simp_all add: distribute_round_def next_frame_no_eq)
next
  case True
  obtain a rest where a: "q_input s = a # rest" using inp by (cases "q_input s") auto
  define s1 where "s1 = s\<lparr>q_input := rest, q_frame_no := a_next_frame (q_device_fps s) (q_frame_no s)\<rparr>"
  have bo: "bufs_ok H s" by (rule vq_invD(3) [OF inv])
  have inv1: "vq_inv (insert a H) s1"
    using inv a a_next_frame_range [of "q_frame_no s" "q_device_fps s"]
    by (auto simp: vq_inv_def s1_def rates_ok_def subs_ok_def bufs_ok_def owned_def)
  obtain b where b: "q_bufs s a = Some b" using bufs_ok_live [OF bo, of a] a by (auto simp: owned_def)
  have "\<not> list_all (has_period s1) (q_thread_info s1)"
    using bad True has_period_cong [of s1 s] by (simp add: can_distribute_def periods_ok_def s1_def)
  moreover have "distinct (map fst (q_thread_info s))"
    using vq_invD(2) [OF inv] by (simp add: subs_ok_def um_wf_def)
  ultimately have "rfold (deliver t a) (q_thread_info s1) s1 = Inl DivByZero"
    using deliver_loop [OF inv1, of "q_thread_info s1" a b t] b by (simp add: s1_def)
  with en a True show ?thesis by (simp add: distribute_round_def next_frame_no_eq s1_def)
qed

lemma distribute_round_served:
  "distribute_round t s = Inr s' \<Longrightarrow> vq_inv H s \<Longrightarrow> q_enable s \<Longrightarrow> q_input s \<noteq> [] \<Longrightarrow> can_distribute s"
  using distribute_round_faults [of H s t] by fastforce

subsection \<open>Producers: a new frame, and push\<close>

lemma new_buf_inv:
  assumes "vq_inv H s" and "frame_ok b" and "new_buf b s = (a, s')"
  shows "vq_inv (insert a H) s'" and "a \<notin> H" and "abs_vq s' = abs_vq s"
proof -
  have a: "a = q_next s" and s': "s' = s\<lparr>q_bufs := (q_bufs s)(a \<mapsto> b), q_next := Suc a\<rparr>"
    using assms(3) by (auto simp: new_buf_def)
  note bo = vq_invD(3) [OF assms(1)]
  note fresh = bufs_ok_fresh [OF bo, folded a]
  have "owned s' = owned s" by (simp add: s' owned_def)
  then have "bufs_ok (insert a H) s'"
    using bo fresh(2,3) assms(2) by (auto simp: bufs_ok_def s' less_Suc_eq a)
  then show "vq_inv (insert a H) s'"
    using assms(1) by (auto simp: vq_inv_def rates_ok_def subs_ok_def s' a less_Suc_eq)
  show "a \<notin> H" by (rule fresh(2))
  have "abs_queue s' = abs_queue s"
    using fresh(3) by (intro abs_queue_bufs_cong) (auto simp: s')
  moreover have "abs_subs s' = abs_subs s" by (rule abs_subs_cong) (simp_all add: s')
  moreover have "map (buf_at s') (q_input s) = map (buf_at s) (q_input s)"
    using fresh(3) by (auto simp: buf_at_def s' owned_def)
  ultimately show "abs_vq s' = abs_vq s" by (simp add: abs_vq_def s')
qed

lemma push_inv:
  assumes "vq_inv H s" and "a \<in> H"
  shows "vq_inv (H - {a}) (snd (push a s))"
  using assms by (auto simp: vq_inv_def push_def rates_ok_def subs_ok_def bufs_ok_def owned_def)

lemma push_abs:
  "abs_vq (snd (push a s)) = (abs_vq s)\<lparr>a_input := a_input (abs_vq s) @ [buf_at s a]\<rparr>"
proof -
  let ?s = "s\<lparr>q_input := q_input s @ [a]\<rparr>"
  have "buf_at ?s = buf_at s" by (simp add: fun_eq_iff buf_at_def)
  moreover have "abs_queue ?s = abs_queue s" by (rule abs_queue_bufs_cong) simp_all
  moreover have "abs_subs ?s = abs_subs s" by (rule abs_subs_cong) simp_all
  ultimately show ?thesis by (simp add: push_def abs_vq_def)
qed

subsection \<open>Subscribing\<close>

lemma insert_event_dup:
  "um_find (q_thread_info s) name = Some ti \<Longrightarrow> insert_event name p s = Inr (1, s)"
  by (simp add: insert_event_def)

lemma div_pos_int: "0 < f \<Longrightarrow> f \<le> d \<Longrightarrow> 0 < d div f" for d f :: int
  by (simp add: pos_imp_zdiv_pos_iff)

lemma insert_event_new:
  assumes inv: "vq_inv H s" and new: "um_find (q_thread_info s) name = None"
    and i: "q_infos s ti = Some i" and period: "int_div (q_device_fps s) (ti_fps i) = Inr p"
    and tinew: "ti \<notin> snd ` set (q_thread_info s)"
  shows "\<exists>s'. insert_event name (Some ti) s = Inr (0, s') \<and> vq_inv H s' \<and>
    abs_subs s' = (abs_subs s)(name \<mapsto> i\<lparr>ti_fps := p\<rparr>) \<and>
    abs_queue s' = (abs_queue s)(name \<mapsto> (case abs_queue s name of None \<Rightarrow> [] | Some q \<Rightarrow> q)) \<and>
    q_input s' = q_input s \<and> q_frame_no s' = q_frame_no s \<and> q_device_fps s' = q_device_fps s \<and>
    q_bufs s' = q_bufs s \<and> q_enable s' = q_enable s"
proof -
  let ?s1 = "write_info ti (\<lambda>i. i\<lparr>ti_fps := p\<rparr>) s"
  define s' where "s' = ?s1\<lparr>q_thread_info := um_emplace name ti (q_thread_info s),
    q_output := um_emplace name [] (q_output s)\<rparr>"
  have run: "insert_event name (Some ti) s = Inr (0, s')"
    using new i period by (simp add: insert_event_def read_info_def s'_def Let_def)
  have flds: "q_infos s' = (q_infos s)(ti \<mapsto> i\<lparr>ti_fps := p\<rparr>)" "q_bufs s' = q_bufs s"
    "q_next s' = q_next s" "q_input s' = q_input s" "q_frame_no s' = q_frame_no s"
    "q_device_fps s' = q_device_fps s" "q_enable s' = q_enable s" "q_thread_info s' = q_thread_info s @ [(name, ti)]"
    "q_output s' = um_emplace name [] (q_output s)"
    using i new by (simp_all add: s'_def write_info_def um_emplace_def)
  have own: "owned s' = owned s"
    by (auto simp: owned_def flds um_emplace_def split: option.splits)
  have so: "subs_ok s" by (rule vq_invD(2) [OF inv])
  have old: "um_find (q_output s') e \<noteq> None \<and> q_infos s' t \<noteq> None"
    if "(e, t) \<in> set (q_thread_info s)" for e t
  proof -
    have "t \<noteq> ti" using that tinew by force
    with so that show ?thesis
      by (fastforce simp: subs_ok_def flds um_find_emplace split: option.splits)
  qed
  have "subs_ok s'"
  proof (rule subs_okI)
    show "um_wf (q_thread_info s')" and "um_wf (q_output s')"
      using so new by (auto simp: flds subs_ok_def um_wf_keys um_keys_def um_find_None_iff
          intro: um_wf_emplace [unfolded um_wf_keys um_keys_def])
    show "distinct (map snd (q_thread_info s'))"
      using so tinew by (simp add: flds subs_ok_def)
    fix e t
    assume "(e, t) \<in> set (q_thread_info s')"
    then consider "(e, t) \<in> set (q_thread_info s)" | "e = name" "t = ti" by (auto simp: flds)
    then show "um_find (q_output s') e \<noteq> None \<and> q_infos s' t \<noteq> None"
      using old by cases (simp_all add: flds um_find_emplace)
  next
    show "a < q_next s'" if "q_infos s' a = Some j" for a j
      using so i that by (auto simp: flds subs_ok_def split: if_splits)
  qed
  moreover have "bufs_ok H s'" using vq_invD(3) [OF inv] by (simp add: bufs_ok_def own flds)
  moreover have "rates_ok s'" using vq_invD(1) [OF inv] by (simp add: rates_ok_def flds)
  ultimately have inv': "vq_inv H s'" by (simp add: vq_inv_def)
  have subs: "abs_subs s' = (abs_subs s)(name \<mapsto> i\<lparr>ti_fps := p\<rparr>)"
  proof (rule ext)
    fix e
    have "t \<noteq> ti" if "um_find (q_thread_info s) e = Some t" for t
      using that tinew by (force simp: um_find_def dest: map_of_SomeD)
    then show "abs_subs s' e = ((abs_subs s)(name \<mapsto> i\<lparr>ti_fps := p\<rparr>)) e"
      using new by (auto simp: abs_subs_def flds um_find_append um_find_Cons split: option.splits)
  qed
  have "abs_queue s' = (abs_queue s)(name \<mapsto> (case abs_queue s name of None \<Rightarrow> [] | Some q \<Rightarrow> q))"
  proof (rule ext)
    fix e
    have "buf_at s' = buf_at s" by (simp add: fun_eq_iff buf_at_def flds)
    then show "abs_queue s' e =
        ((abs_queue s)(name \<mapsto> (case abs_queue s name of None \<Rightarrow> [] | Some q \<Rightarrow> q))) e"
      by (auto simp: abs_queue_def flds um_find_emplace split: option.splits)
  qed
  with run inv' subs flds show ?thesis by blast
qed

subsection \<open>Unsubscribing\<close>

lemma delete_all:
  assumes "distinct q" and "\<forall>a \<in> set q. q_bufs s a \<noteq> None"
  shows "rfold delete_buf q s = Inr (s\<lparr>q_bufs := (\<lambda>a. if a \<in> set q then None else q_bufs s a)\<rparr>)"
  using assms
proof (induction q arbitrary: s)
  case Nil
  then show ?case by simp
next
  case (Cons a q)
  let ?s1 = "s\<lparr>q_bufs := (q_bufs s)(a := None)\<rparr>"
  have d: "delete_buf a s = Inr ?s1" using Cons.prems(2) by (auto simp: delete_buf_def)
  have "\<forall>x \<in> set q. q_bufs ?s1 x \<noteq> None" using Cons.prems by auto
  with Cons.prems(1) have IH: "rfold delete_buf q ?s1 =
      Inr (?s1\<lparr>q_bufs := (\<lambda>x. if x \<in> set q then None else q_bufs ?s1 x)\<rparr>)"
    by (intro Cons.IH) auto
  have "(\<lambda>x. if x \<in> set q then None else q_bufs ?s1 x) =
      (\<lambda>x. if x \<in> set (a # q) then None else q_bufs s x)"
    by (auto simp: fun_eq_iff)
  with d IH show ?case by simp
qed

lemma remove_event_subscribed:
  assumes inv: "vq_inv H s" and ti: "um_find (q_thread_info s) name = Some ti"
    and q: "um_find (q_output s) name = Some q"
  shows "\<exists>s'. remove_event name s = Inr (0, s') \<and> vq_inv H s' \<and>
    abs_subs s' = (abs_subs s)(name := None) \<and> abs_queue s' = (abs_queue s)(name := None) \<and>
    q_bufs s' = (\<lambda>a. if a \<in> set q then None else q_bufs s a) \<and>
    q_thread_info s' = um_erase name (q_thread_info s) \<and>
    q_output s' = um_erase name (q_output s) \<and>
    map_option ti_is_run (q_infos s' ti) = Some False \<and> q_input s' = q_input s"
proof -
  have bo: "bufs_ok H s" and so: "subs_ok s" by (rule vq_invD [OF inv])+
  obtain m1 m2 where m: "q_output s = m1 @ (name, q) # m2" "um_erase name (q_output s) = m1 @ m2"
    using um_split [OF q] so unfolding subs_ok_def by blast
  obtain n1 n2 where n: "q_thread_info s = n1 @ (name, ti) # n2"
    "um_erase name (q_thread_info s) = n1 @ n2"
    using um_split [OF ti] so unfolding subs_ok_def by blast
  obtain i where i: "q_infos s ti = Some i"
    using so n by (auto simp: subs_ok_def split: option.splits)
  have "set q \<subseteq> dom (q_bufs s)"
    using owned_output [OF q] bo by (simp add: bufs_ok_def) blast
  then have live: "distinct q" "\<forall>a \<in> set q. q_bufs s a \<noteq> None"
    using bo m(1) by (simp_all add: bufs_ok_def owned_def subset_iff domIff)
  define bufs' where "bufs' = (\<lambda>a. if a \<in> set q then None else q_bufs s a)"
  define s' where "s' = s\<lparr>q_bufs := bufs', q_output := um_erase name (q_output s),
    q_infos := (q_infos s)(ti \<mapsto> i\<lparr>ti_is_run := False\<rparr>),
    q_thread_info := um_erase name (q_thread_info s)\<rparr>"
  have run: "remove_event name s = Inr (0, s')"
    by (simp add: remove_event_def ti q read_info_def i delete_all [OF live] write_info_def
        s'_def bufs'_def Let_def)
  have tinew: "ti \<notin> snd ` set (n1 @ n2)" using so n by (auto simp: subs_ok_def)
  have namenew: "name \<notin> fst ` set (n1 @ n2)" using so n by (auto simp: subs_ok_def um_wf_def)
  have own: "set (owned s) = set q \<union> set (owned s')" "distinct (owned s')"
    "set q \<inter> set (owned s') = {}" "set q \<inter> H = {}"
    using bo m by (auto simp: bufs_ok_def owned_def s'_def)
  have "dom bufs' = dom (q_bufs s) - set q"
    by (auto simp: bufs'_def split: if_splits)
  then have "bufs_ok H s'"
    using bo own by (auto simp: bufs_ok_def s'_def bufs'_def split: if_splits)
  moreover have "subs_ok s'"
  proof (rule subs_okI)
    fix e t
    assume "(e, t) \<in> set (q_thread_info s')"
    then have et: "(e, t) \<in> set (n1 @ n2)" by (simp add: s'_def n(2))
    have "t \<noteq> ti" and "e \<noteq> name" using tinew namenew et by force+
    moreover have "(e, t) \<in> set (q_thread_info s)" using n et by auto
    ultimately show "um_find (q_output s') e \<noteq> None \<and> q_infos s' t \<noteq> None"
      using so by (auto simp: subs_ok_def s'_def um_find_erase)
  next
    show "a < q_next s'" if "q_infos s' a = Some j" for a j
      using so i that by (auto simp: s'_def subs_ok_def split: if_splits)
    show "distinct (map snd (q_thread_info s'))"
      using so n by (simp add: subs_ok_def s'_def)
  qed (use so in \<open>simp_all add: subs_ok_def s'_def\<close>)
  ultimately have inv': "vq_inv H s'"
    using vq_invD(1) [OF inv] by (simp add: vq_inv_def rates_ok_def s'_def)
  have subs: "abs_subs s' = (abs_subs s)(name := None)"
  proof (rule ext)
    fix e
    have "t \<noteq> ti" if "um_find (q_thread_info s) e = Some t" "e \<noteq> name" for t
    proof -
      have "(e, t) \<in> set (n1 @ n2)"
        using that n(1) so by (auto simp: subs_ok_def simp flip: um_find_mem)
      then show ?thesis using tinew by force
    qed
    then show "abs_subs s' e = ((abs_subs s)(name := None)) e"
      by (auto simp: abs_subs_def s'_def um_find_erase split: option.splits)
  qed
  have queues: "abs_queue s' = (abs_queue s)(name := None)"
  proof (rule ext)
    fix e
    have "map (buf_at s') p = map (buf_at s) p"
      if "um_find (q_output s) e = Some p" "e \<noteq> name" for p
    proof -
      have "set p \<subseteq> set (owned s')"
        using that by (intro owned_output [of s' e]) (simp add: s'_def um_find_erase)
      then have "set p \<inter> set q = {}" using own(3) by blast
      then show ?thesis by (auto simp: buf_at_def s'_def bufs'_def)
    qed
    then show "abs_queue s' e = ((abs_queue s)(name := None)) e"
      by (cases "um_find (q_output s) e") (auto simp: abs_queue_def s'_def um_find_erase)
  qed
  from run inv' subs queues show ?thesis
    by (intro exI [of _ s']) (simp add: s'_def bufs'_def)
qed

lemma remove_event_unknown:
  assumes "um_find (q_thread_info s) name = None" and "um_find (q_output s) name = None"
  shows "remove_event name s = Inr (1, s)"
  using assms by (simp add: remove_event_def Let_def)

subsection \<open>Taking a frame\<close>

lemma pop_unsubscribed:
  "um_find (q_thread_info s) name = None \<Longrightarrow> pop name s = Inr (Some (None, s))"
  by (simp add: pop_def pop_check_def)

lemma pop_cases:
  assumes inv: "vq_inv H s" and ti: "um_find (q_thread_info s) name = Some ti"
    and i: "q_infos s ti = Some i"
  shows "\<exists>q. um_find (q_output s) name = Some q \<and> pop name s =
    (if \<not> ti_is_run i then Inr (Some (None, s\<lparr>q_thread_info := um_erase name (q_thread_info s)\<rparr>))
     else case q of [] \<Rightarrow> Inr None
       | a # rest \<Rightarrow> Inr (Some (Some a, s\<lparr>q_output := um_modify name (\<lambda>_. rest) (q_output s)\<rparr>)))"
proof -
  have "(name, ti) \<in> set (q_thread_info s)"
    using ti vq_invD(2) [OF inv] by (simp add: um_find_mem subs_ok_def)
  from subs_ok_entry [OF vq_invD(2) [OF inv] this] obtain q
    where "um_find (q_output s) name = Some q" by metis
  with ti i show ?thesis
    by (auto simp: pop_def pop_resume_def pop_check_def pop_wait_pred_def pop_is_run_def pop_output_def
        pop_finish_def read_info_def split: list.splits)
qed

text \<open>
  A thread that waits resumes as if it entered anew while its subscription stands; once that is gone,
  the first lookup of its predicate is the end iterator.
\<close>

lemma pop_resume_eq:
  assumes inv: "vq_inv H s"
  shows "pop_resume name s =
    (if um_find (q_thread_info s) name = None then Inl EndIterator else pop name s)"
proof (cases "um_find (q_thread_info s) name")
  case None
  then show ?thesis by (simp add: pop_resume_def pop_wait_pred_def pop_is_run_def)
next
  case (Some ti)
  then have "(name, ti) \<in> set (q_thread_info s)"
    using vq_invD(2) [OF inv] by (simp add: um_find_mem subs_ok_def)
  from subs_ok_entry [OF vq_invD(2) [OF inv] this] have "um_find (q_output s) name \<noteq> None" by auto
  with Some show ?thesis by (simp add: pop_def pop_check_def)
qed

lemma pop_take_inv:
  assumes inv: "vq_inv H s" and q: "um_find (q_output s) name = Some (a # rest)"
  defines "s' \<equiv> s\<lparr>q_output := um_modify name (\<lambda>_. rest) (q_output s)\<rparr>"
  shows "vq_inv (insert a H) s'" and "a \<notin> H"
    and "abs_queue s' = (abs_queue s)(name := map_option tl (abs_queue s name))"
    and "abs_queue s name = Some (buf_at s a # map (buf_at s) rest)"
proof -
  have bo: "bufs_ok H s" and so: "subs_ok s" by (rule vq_invD [OF inv])+
  obtain m1 m2 where m: "q_output s = m1 @ (name, a # rest) # m2"
    "um_modify name (\<lambda>_. rest) (q_output s) = m1 @ (name, rest) # m2"
    using um_split [OF q] so unfolding subs_ok_def by blast
  have "set (owned s) = insert a (set (owned s'))" "a \<notin> set (owned s')" "distinct (owned s')" "a \<notin> H"
    using bo m by (auto simp: bufs_ok_def owned_def s'_def)
  then have "bufs_ok (insert a H) s'"
    using bo by (auto simp: bufs_ok_def s'_def)
  moreover have "subs_ok s'"
    using so by (auto simp: subs_ok_def s'_def um_find_modify)
  ultimately show "vq_inv (insert a H) s'"
    using vq_invD(1) [OF inv] by (simp add: vq_inv_def rates_ok_def s'_def)
  show "a \<notin> H" by fact
  show "abs_queue s' = (abs_queue s)(name := map_option tl (abs_queue s name))"
  proof (rule ext)
    fix e
    have "buf_at s' = buf_at s" by (simp add: fun_eq_iff buf_at_def s'_def)
    then show "abs_queue s' e = ((abs_queue s)(name := map_option tl (abs_queue s name))) e"
      using q by (simp add: abs_queue_def s'_def um_find_modify)
  qed
  show "abs_queue s name = Some (buf_at s a # map (buf_at s) rest)"
    using q by (simp add: abs_queue_def)
qed

lemma pop_disabled_inv:
  assumes inv: "vq_inv H s"
  shows "vq_inv H (s\<lparr>q_thread_info := um_erase name (q_thread_info s)\<rparr>)"
proof -
  have sub: "set (um_erase name (q_thread_info s)) \<subseteq> set (q_thread_info s)"
    by (auto simp: um_erase_def)
  have "distinct (map snd (um_erase name (q_thread_info s)))"
    using vq_invD(2) [OF inv] by (simp add: subs_ok_def um_erase_def distinct_map_filter)
  with inv sub show ?thesis
    by (auto simp: vq_inv_def rates_ok_def bufs_ok_def owned_def subs_ok_def)
qed

end
