(* ===== verification/Video_Queue_Run.thy ===== *)
theory Video_Queue_Run
  imports Video_Queue_Spec
begin

text \<open>
  Executions of \<open>VideoQueue\<close>: the interleaved steps of the camera thread, the distributor threads,
  the event threads and the control thread, with the invariant in every reachable state; and runs
  of the distributor alone, with what each event receives.
\<close>

subsection \<open>Interleaved steps\<close>

lemma served_abs:
  "subs_ok s \<Longrightarrow> served s \<longleftrightarrow> in_int32 (a_fps (abs_vq s) + 1) \<and>
     (\<forall>e i. a_subs (abs_vq s) e = Some i \<longrightarrow> ti_fps i \<noteq> 0)"
  by (simp add: served_def periods_ok_abs abs_vq_def)

text \<open>
  \<open>new_info\<close> and the removal of an event that is only left in \<open>_output\<close> (its \<open>ThreadInfo\<close> entry
  was dropped by \<open>pop\<close>) also keep the invariant.
\<close>

lemma new_info_inv:
  assumes "vq_inv H s" and "new_info i s = (ti, s')"
  shows "vq_inv H s'" and "ti \<notin> snd ` set (q_thread_info s')" and "q_infos s' ti = Some i"
    and "abs_vq s' = abs_vq s" and "q_thread_info s' = q_thread_info s"
    and "q_device_fps s' = q_device_fps s"
proof -
  have ti: "ti = q_next s"
    and s': "s' = s\<lparr>q_infos := (q_infos s)(q_next s \<mapsto> i), q_next := Suc (q_next s)\<rparr>"
    using assms(2) by (auto simp: new_info_def)
  have so: "subs_ok s" by (rule vq_invD(2) [OF assms(1)])
  have fresh: "t \<noteq> q_next s" if "(e, t) \<in> set (q_thread_info s)" for e t
    using so that by (fastforce simp: subs_ok_def split: option.splits)
  show "ti \<notin> snd ` set (q_thread_info s')" using fresh by (force simp: ti s')
  have "subs_ok s'"
  proof (rule subs_okI)
    fix e t assume "(e, t) \<in> set (q_thread_info s')"
    with fresh [of e t] so show "um_find (q_output s') e \<noteq> None \<and> q_infos s' t \<noteq> None"
      by (auto simp: s' subs_ok_def)
  qed (use so in \<open>auto simp: s' subs_ok_def less_Suc_eq split: if_splits\<close>)
  then show "vq_inv H s'"
    using assms(1) by (auto simp: vq_inv_def rates_ok_def bufs_ok_def owned_def s' less_Suc_eq)
  have "buf_at s' = buf_at s" by (simp add: fun_eq_iff buf_at_def s')
  moreover have "abs_queue s' = abs_queue s" by (rule abs_queue_bufs_cong) (simp_all add: s')
  moreover have "abs_subs s' e = abs_subs s e" for e
  proof (cases "um_find (q_thread_info s) e")
    case None
    then show ?thesis by (simp add: abs_subs_def s')
  next
    case (Some t)
    with so have "(e, t) \<in> set (q_thread_info s)" by (simp add: subs_ok_def um_find_mem)
    with fresh Some show ?thesis by (auto simp: abs_subs_def s')
  qed
  ultimately show "abs_vq s' = abs_vq s" by (simp add: abs_vq_def s' fun_eq_iff)
qed (use assms(2) in \<open>auto simp: new_info_def\<close>)

lemma new_info_served: "vq_inv H s \<Longrightarrow> new_info i s = (ti, s') \<Longrightarrow> served s' = served s"
  using new_info_inv(1,4) [of H s i ti s'] by (simp add: served_abs vq_invD)

lemma remove_event_orphan:
  assumes inv: "vq_inv H s" and ti: "um_find (q_thread_info s) name = None"
    and q: "um_find (q_output s) name = Some q"
  shows "\<exists>s'. remove_event name s = Inr (1, s') \<and> vq_inv H s'"
proof -
  have bo: "bufs_ok H s" and so: "subs_ok s" by (rule vq_invD [OF inv])+
  obtain m1 m2 where m: "q_output s = m1 @ (name, q) # m2" "um_erase name (q_output s) = m1 @ m2"
    using um_split [OF q] so unfolding subs_ok_def by blast
  have "set q \<subseteq> dom (q_bufs s)"
    using owned_output [OF q] bo by (simp add: bufs_ok_def) blast
  then have live: "distinct q" "\<forall>a \<in> set q. q_bufs s a \<noteq> None"
    using bo m(1) by (simp_all add: bufs_ok_def owned_def subset_iff domIff)
  define bufs' where "bufs' = (\<lambda>a. if a \<in> set q then None else q_bufs s a)"
  define s' where "s' = s\<lparr>q_bufs := bufs', q_output := um_erase name (q_output s)\<rparr>"
  have run: "remove_event name s = Inr (1, s')"
    by (simp add: remove_event_def ti q delete_all [OF live] s'_def bufs'_def Let_def)
  have own: "set (owned s) = set q \<union> set (owned s')" "distinct (owned s')"
    "set q \<inter> set (owned s') = {}" "set q \<inter> H = {}"
    using bo m by (auto simp: bufs_ok_def owned_def s'_def)
  have "dom bufs' = dom (q_bufs s) - set q" by (auto simp: bufs'_def split: if_splits)
  then have "bufs_ok H s'"
    using bo own by (auto simp: bufs_ok_def s'_def bufs'_def split: if_splits)
  moreover have "e \<noteq> name" if "(e, t) \<in> set (q_thread_info s)" for e t
    using ti that so by (auto simp: subs_ok_def um_find_mem)
  then have "subs_ok s'"
    using so by (intro subs_okI) (auto simp: subs_ok_def s'_def um_find_erase)
  ultimately have "vq_inv H s'"
    using vq_invD(1) [OF inv] by (simp add: vq_inv_def rates_ok_def s'_def)
  with run show ?thesis by blast
qed

lemma remove_event_inv:
  assumes inv: "vq_inv H s"
  shows "\<exists>r s'. remove_event name s = Inr (r, s') \<and> vq_inv H s'"
proof (cases "um_find (q_thread_info s) name")
  case None
  then show ?thesis
    using remove_event_unknown remove_event_orphan [OF inv] inv
    by (cases "um_find (q_output s) name") blast+
next
  case (Some ti)
  then have "(name, ti) \<in> set (q_thread_info s)"
    using vq_invD(2) [OF inv] by (simp add: um_find_mem subs_ok_def)
  from subs_ok_entry [OF vq_invD(2) [OF inv] this] obtain q
    where "um_find (q_output s) name = Some q" by metis
  with remove_event_subscribed [OF inv Some] show ?thesis by blast
qed

lemma pop_inv:
  assumes inv: "vq_inv H s"
  shows "\<exists>r. pop name s = Inr r \<and>
    (case r of None \<Rightarrow> True
     | Some (None, s') \<Rightarrow> vq_inv H s'
     | Some (Some a, s') \<Rightarrow> a \<notin> H \<and> vq_inv (insert a H) s')"
proof (cases "um_find (q_thread_info s) name")
  case None
  then show ?thesis using inv by (simp add: pop_unsubscribed)
next
  case (Some ti)
  then have "(name, ti) \<in> set (q_thread_info s)"
    using vq_invD(2) [OF inv] by (simp add: um_find_mem subs_ok_def)
  from subs_ok_entry [OF vq_invD(2) [OF inv] this] obtain i where i: "q_infos s ti = Some i"
    by metis
  from pop_cases [OF inv Some i] obtain q where q: "um_find (q_output s) name = Some q"
    and p: "pop name s =
      (if \<not> ti_is_run i then Inr (Some (None, s\<lparr>q_thread_info := um_erase name (q_thread_info s)\<rparr>))
       else case q of [] \<Rightarrow> Inr None
         | a # rest \<Rightarrow> Inr (Some (Some a, s\<lparr>q_output := um_modify name (\<lambda>_. rest) (q_output s)\<rparr>)))"
    by blast
  show ?thesis
  proof (cases "ti_is_run i")
    case False
    with p pop_disabled_inv [OF inv] show ?thesis by simp
  next
    case True
    with p q pop_take_inv(1,2) [OF inv] show ?thesis by (cases q) auto
  qed
qed

lemma pop_resume_inv:
  assumes inv: "vq_inv H s" and sub: "um_find (q_thread_info s) name \<noteq> None"
  shows "\<exists>r. pop_resume name s = Inr r"
  using pop_inv [OF inv, of name] pop_resume_eq [OF inv, of name] sub by auto

text \<open>
  Subscribing divides the device's rate by the event's, unless the name is taken; whatever period that
  leaves, the invariant holds.
\<close>

definition divides_rate :: "string \<Rightarrow> int \<Rightarrow> vqueue \<Rightarrow> bool" where
  "divides_rate name f s \<longleftrightarrow> um_find (q_thread_info s) name \<noteq> None \<or> f \<noteq> 0 \<and> in_int32 (q_device_fps s sdiv f)"

lemma insert_event_inv:
  assumes inv: "vq_inv H s" and new: "new_info i s = (ti, s1)"
  shows "(\<exists>r s'. insert_event name (Some ti) s1 = Inr (r, s')) \<longleftrightarrow> divides_rate name (ti_fps i) s"
    and "insert_event name (Some ti) s1 = Inr (r, s') \<Longrightarrow> vq_inv H s'"
proof -
  note n = new_info_inv [OF inv new]
  show "(\<exists>r s'. insert_event name (Some ti) s1 = Inr (r, s')) \<longleftrightarrow> divides_rate name (ti_fps i) s"
    using n(3,5,6)
    by (auto simp: divides_rate_def insert_event_def read_info_def Let_def rbind_eq_Inr int_div_def chk32_def
        split: option.split)
  assume ins: "insert_event name (Some ti) s1 = Inr (r, s')"
  show "vq_inv H s'"
  proof (cases "um_find (q_thread_info s1) name")
    case None
    with ins n(3) obtain p where "int_div (q_device_fps s1) (ti_fps i) = Inr p"
      by (auto simp: insert_event_def read_info_def rbind_eq_Inr)
    from insert_event_new [OF n(1) None n(3) this n(2)] ins show ?thesis by auto
  next
    case (Some t)
    from insert_event_dup [OF this] n(1) ins show ?thesis by fastforce
  qed
qed

lemma insert_event_returns:
  assumes "vq_inv H s" and "new_info i s = (ti, s1)" and "divides_rate name (ti_fps i) s"
  shows "\<exists>r s'. insert_event name (Some ti) s1 = Inr (r, s') \<and> vq_inv H s'"
  using insert_event_inv [OF assms(1,2), of name] assms(3) by auto

lemma rate_divides:
  assumes "0 < f" and "rates_ok s"
  shows "divides_rate name f s"
proof -
  have "\<bar>q_device_fps s\<bar> div f \<le> \<bar>q_device_fps s\<bar>" "0 \<le> \<bar>q_device_fps s\<bar> div f"
    using assms(1) zdiv_mono2 [of "\<bar>q_device_fps s\<bar>" 1 f] by (simp_all add: pos_imp_zdiv_nonneg_iff)
  with assms show ?thesis by (auto simp: divides_rate_def signed_divide_int_def rates_ok_def in_int32_def sgn_if)
qed

text \<open>
  One step of the system.  The pair is the set of frames held outside the queue and the state.  An
  event subscribes with any rate the device can serve (\<open>1\<close> to its own frames per second).
\<close>

inductive vq_step :: "addr set \<times> vqueue \<Rightarrow> addr set \<times> vqueue \<Rightarrow> bool" where
  capture: "frame_ok b \<Longrightarrow> new_buf b s = (a, s') \<Longrightarrow> vq_step (H, s) (insert a H, s')"
| pushes: "a \<in> H \<Longrightarrow> push a s = (r, s') \<Longrightarrow> vq_step (H, s) (H - {a}, s')"
| distributes: "distribute_round t s = Inr s' \<Longrightarrow> vq_step (H, s) (H, s')"
| subscribes: "0 < ti_fps i \<Longrightarrow> ti_fps i \<le> q_device_fps s \<Longrightarrow> new_info i s = (ti, s1) \<Longrightarrow>
    insert_event name (Some ti) s1 = Inr (r, s') \<Longrightarrow> vq_step (H, s) (H, s')"
| pop_frame: "pop name s = Inr (Some (Some a, s')) \<Longrightarrow> vq_step (H, s) (insert a H, s')"
| pop_null: "pop name s = Inr (Some (None, s')) \<Longrightarrow> vq_step (H, s) (H, s')"
| removes: "remove_event name s = Inr (r, s') \<Longrightarrow> vq_step (H, s) (H, s')"
| frees: "a \<in> H \<Longrightarrow> delete_buf a s = Inr s' \<Longrightarrow> vq_step (H, s) (H - {a}, s')"
| shuts_down: "vq_step (H, s) (H, destroy_vqueue s)"

inductive vq_reachable :: "int \<Rightarrow> addr set \<times> vqueue \<Rightarrow> bool" for d where
  start: "vq_reachable d ({}, new_vqueue d)"
| step: "vq_reachable d c \<Longrightarrow> vq_step c c' \<Longrightarrow> vq_reachable d c'"

inductive_cases vq_stepE: "vq_step (H, s) c'"

lemma distribute_round_inv:
  assumes inv: "vq_inv H s" and d: "distribute_round t s = Inr s'"
  shows "vq_inv H s'"
proof (cases "q_enable s")
  case False
  with assms show ?thesis by (simp add: distribute_round_def)
next
  case True
  with distribute_round_sim [OF inv True distribute_round_served [OF d inv True], of t] d show ?thesis by auto
qed

lemma distribute_round_returns:
  assumes inv: "vq_inv H s"
  shows "(\<exists>s'. distribute_round t s = Inr s') \<longleftrightarrow> q_enable s \<and> q_input s \<noteq> [] \<longrightarrow> can_distribute s"
proof (cases "q_enable s")
  case False
  then show ?thesis by (simp add: distribute_round_def)
next
  case True
  with distribute_round_sim [OF inv True] distribute_round_served [OF _ inv True] show ?thesis by blast
qed

lemma vq_step_inv: "vq_step (H, s) (H', s') \<Longrightarrow> vq_inv H s \<Longrightarrow> vq_inv H' s'"
proof (induction "(H, s)" "(H', s')" arbitrary: H s H' s' rule: vq_step.induct)
  case (capture b s a s' H)
  then show ?case using new_buf_inv(1) by blast
next
  case (pushes a H s r s')
  then show ?case using push_inv [of H s a] by simp
next
  case (distributes t s s' H)
  then show ?case using distribute_round_inv by blast
next
  case (subscribes i s ti s1 name r s' H)
  then show ?case using insert_event_inv(2) by blast
next
  case (pop_frame name s a s' H)
  then show ?case using pop_inv [of H s name] by simp
next
  case (pop_null name s s' H)
  then show ?case using pop_inv [of H s name] by simp
next
  case (removes name s r s' H)
  then show ?case using remove_event_inv [of H s name] by simp
next
  case (frees a H s s')
  then show ?case using delete_held [of H s a] by auto
next
  case (shuts_down H s)
  then show ?case
    by (simp add: destroy_vqueue_def vq_inv_def rates_ok_def subs_ok_def bufs_ok_def owned_def)
qed

lemma vq_reachable_inv:
  assumes "in_int32 d" and "vq_reachable d c"
  shows "vq_inv (fst c) (snd c)"
  using assms(2)
proof (induction rule: vq_reachable.induct)
  case start
  show ?case using new_vqueue_inv [OF assms(1)] by simp
next
  case (step c c')
  then show ?case by (metis prod.collapse vq_step_inv)
qed

subsection \<open>Runs of the distributor\<close>

text \<open>The frame numbers of the next \<open>n\<close> rounds.\<close>

fun frame_numbers :: "int \<Rightarrow> int \<Rightarrow> nat \<Rightarrow> int list" where
  "frame_numbers d f 0 = []"
| "frame_numbers d f (Suc n) = a_next_frame d f # frame_numbers d (a_next_frame d f) n"

lemma length_frame_numbers [simp]: "length (frame_numbers d f n) = n"
  by (induction n arbitrary: f) auto

lemma a_next_frame_mod: "0 < d \<Longrightarrow> 0 \<le> f \<Longrightarrow> f \<le> d \<Longrightarrow> a_next_frame d f = f mod d + 1"
  by (cases "f = d") (auto simp: a_next_frame_def)

lemma frame_numbers_eq:
  "0 < d \<Longrightarrow> 0 \<le> f \<Longrightarrow> f \<le> d \<Longrightarrow>
   frame_numbers d f n = map (\<lambda>k. (f + int k) mod d + 1) [0..<n]"
proof (induction n arbitrary: f)
  case 0
  show ?case by simp
next
  case (Suc n)
  let ?f = "f mod d + 1"
  have r: "0 \<le> ?f" "?f \<le> d"
    using pos_mod_bound [OF Suc.prems(1), of f] pos_mod_sign [OF Suc.prems(1), of f] by linarith+
  have "(?f + int k) mod d = (f + int (Suc k)) mod d" for k
    by (metis ab_semigroup_add_class.add_ac(1) add.commute mod_add_left_eq of_nat_Suc)
  with Suc.IH [OF Suc.prems(1) r] show ?case
    by (simp add: a_next_frame_mod Suc.prems map_upt_Suc del: upt_Suc)
qed

text \<open>Over one device second every frame number occurs once.\<close>

lemma frame_numbers_perm:
  assumes d: "0 < d" and f: "0 \<le> f" "f \<le> d"
  shows "set (frame_numbers d f (nat d)) = {1..d}" and "distinct (frame_numbers d f (nat d))"
proof -
  let ?g = "\<lambda>k. (f + int k) mod d + 1"
  have inj: "inj_on ?g (set [0..<nat d])"
  proof (rule inj_onI)
    fix x y assume "x \<in> set [0..<nat d]" "y \<in> set [0..<nat d]" "?g x = ?g y"
    then have "(f + int x) mod d = (f + int y) mod d" and "int x < d" "int y < d" by auto
    then have "int x mod d = int y mod d" by (metis add_diff_cancel_left mod_eq_dvd_iff)
    with \<open>int x < d\<close> \<open>int y < d\<close> show "x = y" by simp
  qed
  then show dist: "distinct (frame_numbers d f (nat d))"
    by (simp add: frame_numbers_eq d f distinct_map)
  have "(f + int k) mod d + 1 \<le> d" for k
    using pos_mod_bound [OF d, of "f + int k"] by linarith
  then have "set (frame_numbers d f (nat d)) \<subseteq> {1..d}"
    using d by (auto simp: frame_numbers_eq f)
  moreover have "card (set (frame_numbers d f (nat d))) = card {1..d}"
    using distinct_card [OF dist] d by simp
  ultimately show "set (frame_numbers d f (nat d)) = {1..d}"
    by (simp add: card_subset_eq)
qed

lemma div_mult_le: "0 < p \<Longrightarrow> d div p * p \<le> d" for d p :: int
  using div_mult_mod_eq [of d p] pos_mod_sign [of p d] by linarith

lemma card_multiples:
  fixes d p :: int
  assumes "0 < p" and "0 \<le> d"
  shows "card {n \<in> {1..d}. n mod p = 0} = nat (d div p)"
proof -
  have "{n \<in> {1..d}. n mod p = 0} = (\<lambda>k. k * p) ` {1..d div p}"
  proof (intro set_eqI iffI)
    fix n assume n: "n \<in> {n \<in> {1..d}. n mod p = 0}"
    then obtain k where k: "n = k * p" by (metis (mono_tags, lifting) div_mult_mod_eq add.right_neutral mem_Collect_eq)
    with n assms(1) have "1 \<le> k" by (auto simp: int_one_le_iff_zero_less zero_less_mult_iff)
    moreover have "k \<le> d div p"
      using n k assms(1) zdiv_mono1 [of "k * p" d p] by simp
    ultimately show "n \<in> (\<lambda>k. k * p) ` {1..d div p}" using k by auto
  next
    fix n assume "n \<in> (\<lambda>k. k * p) ` {1..d div p}"
    then obtain k where "n = k * p" and "k \<in> {1..d div p}" by (rule imageE)
    then have k: "n = k * p" "1 \<le> k" "k \<le> d div p" by simp_all
    have "k * p \<le> d div p * p" using k(3) assms(1) by (simp add: mult_right_mono)
    also have "\<dots> \<le> d" using assms(1) by (rule div_mult_le)
    finally have "k * p \<le> d" .
    moreover have "1 \<le> k * p" using k(2) assms(1) by (simp add: int_one_le_iff_zero_less)
    ultimately show "n \<in> {n \<in> {1..d}. n mod p = 0}" using k(1) by simp
  qed
  moreover have "inj_on (\<lambda>k. k * p) {1..d div p}" using assms(1) by (auto simp: inj_on_def)
  ultimately show ?thesis by (simp add: card_image)
qed

lemma due_count:
  assumes "0 < p" and "0 < d" and "0 \<le> f" "f \<le> d"
  shows "length (filter (\<lambda>n. n mod p = 0) (frame_numbers d f (nat d))) = nat (d div p)"
proof -
  let ?l = "frame_numbers d f (nat d)"
  have "length (filter (\<lambda>n. n mod p = 0) ?l) = card (set (filter (\<lambda>n. n mod p = 0) ?l))"
    using frame_numbers_perm(2) [OF assms(2-4)] by (metis distinct_card distinct_filter)
  also have "\<dots> = card {n \<in> {1..d}. n mod p = 0}"
    by (simp add: frame_numbers_perm(1) [OF assms(2-4)])
  also have "\<dots> = nat (d div p)" using assms(1,2) by (intro card_multiples) simp_all
  finally show ?thesis .
qed

text \<open>What \<open>n\<close> rounds deliver to an event of period \<open>p\<close>: the frames whose number is due, in order.\<close>

definition deliveries :: "int \<Rightarrow> int list \<Rightarrow> vbuf list \<Rightarrow> int list \<Rightarrow> vbuf list" where
  "deliveries p ts bs ns =
     map (\<lambda>(t, b, n). frame_copy t b) (filter (\<lambda>(t, b, n). n mod p = 0) (zip ts (zip bs ns)))"

definition distribute_rounds :: "int list \<Rightarrow> vqueue \<Rightarrow> vqueue res" where
  "distribute_rounds ts s = rfold distribute_round ts s"

lemma a_rounds_queue:
  assumes "a_subs a e = Some i" and "a_queue a e = Some q" and "length ts \<le> length (a_input a)"
  shows "a_queue (fold a_distribute ts a) e =
    Some (q @ deliveries (ti_fps i) ts (a_input a) (frame_numbers (a_fps a) (a_frame a) (length ts)))"
  using assms
proof (induction ts arbitrary: a q)
  case Nil
  then show ?case by (simp add: deliveries_def)
next
  case (Cons t ts)
  from Cons.prems(3) obtain b bs where b: "a_input a = b # bs" by (cases "a_input a") auto
  let ?n = "a_next_frame (a_fps a) (a_frame a)" and ?a = "a_distribute t a"
  let ?q = "q @ (if ?n mod ti_fps i = 0 then [frame_copy t b] else [])"
  have a: "a_subs ?a e = Some i" "a_queue ?a e = Some ?q" "a_input ?a = bs"
    "a_fps ?a = a_fps a" "a_frame ?a = ?n"
    using Cons.prems(1,2) b by (auto simp: a_distribute_def due_def Let_def)
  have "length ts \<le> length (a_input ?a)" using Cons.prems(3) b a(3) by simp
  with Cons.IH [OF a(1,2)] a show ?case
    by (simp add: b deliveries_def)
qed

lemma served_distribute:
  assumes "vq_inv H s" and "served s" and "vq_inv H' s'" and "abs_vq s' = a_distribute t (abs_vq s)"
  shows "served s'"
proof -
  have "a_fps (abs_vq s') = a_fps (abs_vq s)" "a_subs (abs_vq s') = a_subs (abs_vq s)"
    unfolding assms(4) by (simp_all add: a_distribute_def Let_def split: list.split)
  with assms(1-3) show ?thesis by (simp add: served_abs [OF vq_invD(2)])
qed

lemma distribute_rounds_sim:
  assumes "vq_inv H s" and "q_enable s" and "served s"
  shows "\<exists>s'. distribute_rounds ts s = Inr s' \<and> vq_inv H s' \<and> q_enable s' \<and>
    abs_vq s' = fold a_distribute ts (abs_vq s)"
  using assms
proof (induction ts arbitrary: s)
  case Nil
  then show ?case by (simp add: distribute_rounds_def)
next
  case (Cons t ts)
  from distribute_round_sim [OF Cons.prems(1,2), of t] served_can_distribute [OF vq_invD(1) Cons.prems(3)] Cons.prems(1)
  obtain s1 where
    s1: "distribute_round t s = Inr s1" "vq_inv H s1" "q_enable s1"
      "abs_vq s1 = a_distribute t (abs_vq s)" by blast
  from Cons.IH [OF s1(2,3) served_distribute [OF Cons.prems(1,3) s1(2,4)]] s1(1,4) show ?case
    by (auto simp: distribute_rounds_def)
qed

lemma distribute_rounds_queue:
  assumes inv: "vq_inv H s" and en: "q_enable s" and rates: "served s" and sub: "abs_subs s e = Some i"
    and q: "abs_queue s e = Some q" and len: "length ts \<le> length (q_input s)"
  shows "\<exists>s'. distribute_rounds ts s = Inr s' \<and> vq_inv H s' \<and>
    abs_queue s' e = Some (q @ deliveries (ti_fps i) ts (map (buf_at s) (q_input s))
      (frame_numbers (q_device_fps s) (q_frame_no s) (length ts)))"
proof -
  from distribute_rounds_sim [OF inv en rates, of ts] obtain s' where
    s': "distribute_rounds ts s = Inr s'" "vq_inv H s'"
      "abs_vq s' = fold a_distribute ts (abs_vq s)" by blast
  have "a_queue (abs_vq s') e = Some (q @ deliveries (ti_fps i) ts (map (buf_at s) (q_input s))
      (frame_numbers (q_device_fps s) (q_frame_no s) (length ts)))"
    unfolding s'(3) using a_rounds_queue [of "abs_vq s" e i q ts] sub q len by (simp add: abs_vq_def)
  moreover have "a_queue (abs_vq s') e = abs_queue s' e" by (simp add: abs_vq_def)
  ultimately show ?thesis using s'(1,2) by simp
qed

lemma length_deliveries:
  "length ts = length ns \<Longrightarrow> length ns \<le> length bs \<Longrightarrow>
   length (deliveries p ts bs ns) = length (filter (\<lambda>n. n mod p = 0) ns)"
proof (induction ns arbitrary: ts bs)
  case Nil
  then show ?case by (simp add: deliveries_def)
next
  case (Cons n ns)
  then obtain t ts' b bs' where "ts = t # ts'" "bs = b # bs'"
    by (cases ts; cases bs) auto
  with Cons show ?case by (auto simp: deliveries_def)
qed

lemma period_rate:
  fixes d f :: int
  assumes "0 < f" and "f \<le> d"
  shows "f \<le> d div (d div f)" and "d div (d div f) < 2 * f"
proof -
  let ?p = "d div f"
  have p: "0 < ?p" using assms by (rule div_pos_int)
  have "f * ?p \<le> d" using div_mult_le [OF assms(1), of d] by (simp add: mult.commute)
  then show "f \<le> d div ?p" using p zdiv_mono1 [of "f * ?p" d ?p] by simp
  have "d < f * ?p + f"
    using mult_div_mod_eq [of f d] pos_mod_bound [OF assms(1), of d] by linarith
  also have "\<dots> \<le> f * ?p + f * ?p" using p assms(1) by simp
  finally have "d < (2 * f) * ?p" by simp
  then show "d div ?p < 2 * f"
    using p by (metis div_mult_le mult_less_cancel_right_pos order_le_less_trans)
qed

subsection \<open>Taking a frame\<close>

text \<open>What a consumer does with the oldest waiting frame of its event: pop it, read it, free it.\<close>

lemma take_read_free:
  assumes inv: "vq_inv H q" and sub: "abs_subs q name = Some i" "ti_is_run i"
    and queue: "abs_queue q name = Some (b # bs)"
  shows "\<exists>a q1 q2. pop name q = Inr (Some (Some a, q1)) \<and> read_buf a q1 = Inr b \<and> frame_ok b \<and>
    delete_buf a q1 = Inr q2 \<and> vq_inv H q2 \<and> abs_queue q2 = (abs_queue q)(name \<mapsto> bs) \<and> abs_subs q2 = abs_subs q"
proof -
  from sub obtain ti where ti: "um_find (q_thread_info q) name = Some ti" "q_infos q ti = Some i"
    by (auto simp: abs_subs_def split: option.splits)
  from pop_cases [OF inv ti] sub(2) obtain l where l: "um_find (q_output q) name = Some l"
    and pop: "pop name q = (case l of [] \<Rightarrow> Inr None
      | a # rest \<Rightarrow> Inr (Some (Some a, q\<lparr>q_output := um_modify name (\<lambda>_. rest) (q_output q)\<rparr>)))"
    by auto
  with queue obtain a rest where al: "l = a # rest" by (cases l) (auto simp: abs_queue_def)
  define q1 where "q1 = q\<lparr>q_output := um_modify name (\<lambda>_. rest) (q_output q)\<rparr>"
  note take = pop_take_inv [OF inv l [unfolded al], folded q1_def]
  from queue take(4) have b: "buf_at q a = b" "map (buf_at q) rest = bs" by simp_all
  from bufs_ok_live [OF vq_invD(3) [OF take(1)], of a] obtain c where c: "q_bufs q1 a = Some c" "frame_ok c"
    by auto
  with b(1) have read: "read_buf a q1 = Inr b" "c = b" by (auto simp: read_buf_def buf_at_def q1_def)
  from delete_held [OF take(1), of a] obtain q2 where q2: "delete_buf a q1 = Inr q2" "vq_inv (insert a H - {a}) q2"
    "abs_queue q2 = abs_queue q1" "same_subs (q1\<lparr>q_bufs := q_bufs q2\<rparr>) q2" by auto
  have "abs_queue q1 = (abs_queue q)(name \<mapsto> bs)" using take(3,4) queue by simp
  moreover have "abs_subs (q1\<lparr>q_bufs := q_bufs q2\<rparr>) = abs_subs q"
    by (rule abs_subs_cong) (simp_all add: q1_def)
  moreover have "insert a H - {a} = H" using take(2) by simp
  moreover have "pop name q = Inr (Some (Some a, q1))" using pop by (simp add: al q1_def)
  ultimately show ?thesis using read c(2) q2 same_subs_abs [OF q2(4)] by auto
qed

text \<open>
  A subscription above the device's rate gets period 0, whoever else is subscribed, and the next round
  that finds a frame divides by 0.
\<close>

lemma fast_subscription:
  assumes inv: "vq_inv H s" and en: "q_enable s" and inp: "q_input s \<noteq> []"
    and new: "um_find (q_thread_info s) e = None" and i: "q_infos s ti = Some i"
    and tinew: "ti \<notin> snd ` set (q_thread_info s)"
    and rate: "0 \<le> q_device_fps s" "in_int32 (q_device_fps s + 1)" "q_device_fps s < ti_fps i"
  shows "\<exists>s1. insert_event e (Some ti) s = Inr (0, s1) \<and> distribute_round t s1 = Inl DivByZero"
proof -
  have "int_div (q_device_fps s) (ti_fps i) = Inr 0"
    using vq_invD(1) [OF inv] rate by (subst int_div_nonneg) (auto simp: rates_ok_def)
  from insert_event_new [OF inv new i this tinew] obtain s1 where s1: "insert_event e (Some ti) s = Inr (0, s1)"
    "vq_inv H s1" "abs_subs s1 e = Some (i\<lparr>ti_fps := 0\<rparr>)" "q_input s1 = q_input s" "q_enable s1"
    "q_device_fps s1 = q_device_fps s" using en by auto
  then have "\<not> periods_ok s1" by (fastforce simp: periods_ok_abs [OF vq_invD(2)])
  moreover have "in_int32 (q_frame_no s1 + 1)"
    using vq_invD(1) [OF s1(2)] rate s1(6) by (auto simp: rates_ok_def in_int32_def max_def split: if_splits)
  ultimately have "distribute_round t s1 = Inl DivByZero"
    using distribute_round_faults [OF s1(2,5)] inp s1(4) by (simp add: can_distribute_def)
  with s1(1) show ?thesis by blast
qed

end
