(* ===== verification/Camera.thy ===== *)
theory Camera
  imports Video_Queue_Run
begin

text \<open>
  \<open>camera_device::CameraInitializer\<close> (\<open>src/camera_device/CameraInitializer.cpp\<close>): opening and
  configuring the V4L2 device, the eight mapped buffers, and the capture loop that moves frames
  into the \<open>VideoQueue\<close>; and \<open>utils::Singleton\<close> (\<open>include/utils/Singleton.hpp\<close>).

  The kernel is a parameter: a \<open>v4l2\<close> record gives, for each system call the code makes, its
  result and the next state of the device.  The capture loop runs with fuel; \<open>None\<close> as its status
  means that it is still running.
\<close>

subsection \<open>Singletons\<close>

text \<open>
  \<open>get_instance\<close>: the first call constructs the object, later ones return it.  A constructor that
  throws leaves the once-flag unset, so the exception reaches this caller.
\<close>

definition get_instance :: "'a res \<Rightarrow> 'a option \<Rightarrow> ('a \<times> 'a option) res" where
  "get_instance mk instance =
     (case instance of
        Some x \<Rightarrow> Inr (x, instance)
      | None \<Rightarrow> rbind mk (\<lambda>x. Inr (x, Some x)))"

lemma get_instance_once:
  "get_instance mk i = Inr (x, j) \<Longrightarrow> j = Some x \<and> get_instance mk' j = Inr (x, j)"
  by (auto simp: get_instance_def rbind_eq_Inr split: option.splits)

subsection \<open>The device\<close>

record v4l2_fmt =
  fmt_width :: "32 word"
  fmt_height :: "32 word"
  fmt_pixelformat :: "32 word"

record 'd v4l2 =
  v_open :: "string \<Rightarrow> 'd \<Rightarrow> int \<times> 'd"
  v_querycap :: "int \<Rightarrow> 'd \<Rightarrow> int \<times> 'd"
  v_s_fmt :: "int \<Rightarrow> v4l2_fmt \<Rightarrow> 'd \<Rightarrow> int \<times> 'd"
  v_s_parm :: "int \<Rightarrow> 32 word \<Rightarrow> 'd \<Rightarrow> int \<times> 'd"
  v_reqbufs :: "int \<Rightarrow> 32 word \<Rightarrow> 'd \<Rightarrow> int \<times> 32 word \<times> 'd"
  v_querybuf :: "int \<Rightarrow> 32 word \<Rightarrow> 'd \<Rightarrow> int \<times> 32 word \<times> 32 word \<times> 'd"
  v_mmap :: "int \<Rightarrow> 32 word \<Rightarrow> 32 word \<Rightarrow> 'd \<Rightarrow> addr \<times> 'd"
  v_qbuf :: "int \<Rightarrow> 32 word \<Rightarrow> 'd \<Rightarrow> int \<times> 32 word \<times> 'd"
  v_dqbuf :: "int \<Rightarrow> 'd \<Rightarrow> int \<times> 32 word \<times> 32 word \<times> 'd"
  v_select :: "int \<Rightarrow> 'd \<Rightarrow> int \<times> 'd"
  v_stream :: "bool \<Rightarrow> int \<Rightarrow> 'd \<Rightarrow> int \<times> 'd"
  v_memory :: "'d \<Rightarrow> addr \<Rightarrow> 8 word list option"
  v_time :: "'d \<Rightarrow> int \<times> 'd"

definition N_CAM_BUF :: nat where
  "N_CAM_BUF = 8"

record ('p, 'd) camera =
  ci_cam_config :: "'p camera_config option"
  ci_is_run :: bool
  ci_camera_buffers :: "addr option list"
  ci_fd :: int
  ci_dev :: 'd

text \<open>
  The constructor.  The slots of \<open>_camera_buffers\<close> are not initialised (\<open>None\<close>).  The camera
  section is read first; the queue's constructor asks for it again.
\<close>

definition camera_ctor ::
  "'p ptree_lib \<Rightarrow> pixfmts \<Rightarrow> 'd \<Rightarrow> 'p program_config \<Rightarrow> vqueue option \<Rightarrow>
     (('p, 'd) camera \<times> 'p program_config \<times> vqueue option) res" where
  "camera_ctor lib pf dev pc queue =
     (let (pc1, r1) = get_camera_config lib pf pc in
      rbind (throw_uncaught r1) (\<lambda>cfg.
      let (pc2, mk) =
            (case queue of
               Some q \<Rightarrow> (pc1, Inr q)
             | None \<Rightarrow> (let (pc2, r2) = get_camera_config lib pf pc1 in
                          (pc2, rbind (throw_uncaught r2) vqueue_ctor))) in
      rbind (get_instance mk queue) (\<lambda>(_, inst).
      Inr (\<lparr>ci_cam_config = cfg, ci_is_run = False, ci_camera_buffers = replicate N_CAM_BUF None,
            ci_fd = -1, ci_dev = dev\<rparr>, pc2, inst))))"

definition set_v4l2_format :: "'d v4l2 \<Rightarrow> ('p, 'd) camera \<Rightarrow> (int \<times> ('p, 'd) camera) res" where
  "set_v4l2_format k c =
     (case ci_cam_config c of
        None \<Rightarrow> Inl NullDeref
      | Some cfg \<Rightarrow>
         (let (fd, d1) = v_open k (device_path cfg) (ci_dev c); c1 = c\<lparr>ci_fd := fd, ci_dev := d1\<rparr> in
          if fd = -1 then Inr (1, c1)
          else let (r2, d2) = v_querycap k fd d1 in
          if r2 = -1 then Inr (2, c1\<lparr>ci_dev := d2\<rparr>)
          else let fmt = \<lparr>fmt_width = word_of_int (get_width (metadata cfg)),
                          fmt_height = word_of_int (get_height (metadata cfg)),
                          fmt_pixelformat = get_type (metadata cfg)\<rparr>;
                   (r3, d3) = v_s_fmt k fd fmt d2 in
          if r3 = -1 then Inr (4, c1\<lparr>ci_dev := d3\<rparr>)
          else let (r4, d4) = v_s_parm k fd (word_of_int (camera_fps cfg)) d3 in
          if r4 \<noteq> 0 then Inr (5, c1\<lparr>ci_dev := d4\<rparr>)
          else Inr (0, c1\<lparr>ci_dev := d4\<rparr>)))"

text \<open>The loop that maps the buffers \<open>i\<close>, \<open>i + 1\<close>, \dots, 7.\<close>

function map_buffers :: "'d v4l2 \<Rightarrow> nat \<Rightarrow> ('p, 'd) camera \<Rightarrow> int \<times> ('p, 'd) camera" where
  "map_buffers k i c =
     (if i < N_CAM_BUF then
        let (r, len, off, d1) = v_querybuf k (ci_fd c) (of_nat i) (ci_dev c) in
        if r = -1 then (3, c\<lparr>ci_dev := d1\<rparr>)
        else let (a, d2) = v_mmap k (ci_fd c) len off d1 in
          map_buffers k (Suc i)
            (c\<lparr>ci_dev := d2, ci_camera_buffers := (ci_camera_buffers c)[i := Some a]\<rparr>)
      else (0, c))"
  by auto
termination by (relation "measure (\<lambda>(k, i, c). N_CAM_BUF - i)") auto

declare map_buffers.simps [simp del]

definition set_v4l2_buffer :: "'d v4l2 \<Rightarrow> ('p, 'd) camera \<Rightarrow> int \<times> ('p, 'd) camera" where
  "set_v4l2_buffer k c =
     (let (r, count, d1) = v_reqbufs k (ci_fd c) (of_nat N_CAM_BUF) (ci_dev c); c1 = c\<lparr>ci_dev := d1\<rparr> in
      if r = -1 then (1, c1)
      else if count > of_nat N_CAM_BUF then (2, c1)
      else map_buffers k 0 c1)"

definition queue_v4l2_buffer ::
  "'d v4l2 \<Rightarrow> int \<Rightarrow> ('p, 'd) camera \<Rightarrow> int \<times> ('p, 'd) camera" where
  "queue_v4l2_buffer k index c =
     (let (r, bytesused, d1) = v_qbuf k (ci_fd c) (word_of_int index) (ci_dev c) in
      (if r = -1 then 0 else sint bytesused, c\<lparr>ci_dev := d1\<rparr>))"

definition camera_init :: "'d v4l2 \<Rightarrow> ('p, 'd) camera \<Rightarrow> (int \<times> ('p, 'd) camera) res" where
  "camera_init k c =
     rbind (set_v4l2_format k c) (\<lambda>(r1, c1).
       if r1 \<noteq> 0 then Inr (r1, c1)
       else let (r2, c2) = set_v4l2_buffer k c1 in
         if r2 \<noteq> 0 then Inr (r2, c2)
         else Inr (0, fold (\<lambda>i c. snd (queue_v4l2_buffer k (int i) c)) [0..<N_CAM_BUF] c2))"

subsection \<open>Capture\<close>

text \<open>
  \<open>deque_v4l2_buffer\<close>: the frame the driver filled, copied out of its mapped buffer.  \<open>None\<close> is the
  null pointer.
\<close>

definition deque_v4l2_buffer ::
  "'d v4l2 \<Rightarrow> ('p, 'd) camera \<Rightarrow> vqueue \<Rightarrow>
     ((addr \<times> int) option \<times> ('p, 'd) camera \<times> vqueue) res" where
  "deque_v4l2_buffer k c q =
     (let (r, index, bytesused, d1) = v_dqbuf k (ci_fd c) (ci_dev c) in
      if r = -1 then Inr (None, c\<lparr>ci_dev := d1\<rparr>, q)
      else let (now, d2) = v_time k d1 in
        case ci_cam_config c of
          None \<Rightarrow> Inl NullDeref
        | Some cfg \<Rightarrow>
           if \<not> unat index < length (ci_camera_buffers c) then Inl OutOfBounds
           else case ci_camera_buffers c ! unat index of
             None \<Rightarrow> Inl Uninitialised
           | Some a \<Rightarrow>
              rbind (memcpy_bytes (v_memory k d2 a) (unat bytesused)) (\<lambda>bytes.
              let (p, q1) = new_buf \<lparr>vb_meta = metadata cfg, vb_time = now, vb_data = Some bytes,
                                     vb_size = unat bytesused\<rparr> q in
              Inr (Some (p, sint index), c\<lparr>ci_dev := d2\<rparr>, q1)))"

definition camera_stop :: "'d v4l2 \<Rightarrow> ('p, 'd) camera \<Rightarrow> int \<times> ('p, 'd) camera" where
  "camera_stop k c =
     (let (r, d1) = v_stream k False (ci_fd c) (ci_dev c) in
      (if r = -1 then 1 else 0, c\<lparr>ci_dev := d1\<rparr>))"

text \<open>
  One iteration of \<open>loop\<close>: \<open>Some r\<close> when the loop ends with status \<open>r\<close>.  A failed \<open>select\<close> is only
  logged.
\<close>

definition loop_round ::
  "'d v4l2 \<Rightarrow> ('p, 'd) camera \<times> vqueue \<Rightarrow> (int option \<times> ('p, 'd) camera \<times> vqueue) res" where
  "loop_round k cq =
     (let (c, q) = cq; (r, d1) = v_select k (ci_fd c) (ci_dev c); c1 = c\<lparr>ci_dev := d1\<rparr> in
      if r = 0 then Inr (Some 1, c1, q)
      else rbind (deque_v4l2_buffer k c1 q) (\<lambda>(buf, c2, q2).
        case buf of
          None \<Rightarrow> Inr (Some 0, snd (camera_stop k c2), q2)
        | Some (p, index) \<Rightarrow>
            Inr (None, snd (queue_v4l2_buffer k index c2), snd (push p q2))))"

fun camera_loop ::
  "nat \<Rightarrow> 'd v4l2 \<Rightarrow> ('p, 'd) camera \<times> vqueue \<Rightarrow> (int option \<times> ('p, 'd) camera \<times> vqueue) res" where
  "camera_loop 0 k cq = Inr (None, cq)"
| "camera_loop (Suc n) k cq =
     rbind (loop_round k cq) (\<lambda>(r, cq1).
       case r of Some v \<Rightarrow> Inr (Some v, cq1) | None \<Rightarrow> camera_loop n k cq1)"

definition camera_start ::
  "nat \<Rightarrow> 'd v4l2 \<Rightarrow> ('p, 'd) camera \<times> vqueue \<Rightarrow> (int option \<times> ('p, 'd) camera \<times> vqueue) res" where
  "camera_start fuel k cq =
     (let (c, q) = cq; (r, d1) = v_stream k True (ci_fd c) (ci_dev c); c1 = c\<lparr>ci_dev := d1\<rparr> in
      if r = -1 then Inr (Some 1, c1, q) else camera_loop fuel k (c1, q))"

lemmas camera_ops = set_v4l2_format_def set_v4l2_buffer_def queue_v4l2_buffer_def
  deque_v4l2_buffer_def camera_stop_def loop_round_def camera_start_def

end
