(* ===== verification/Camera_Props.thy ===== *)
theory Camera_Props
  imports Camera
begin

text \<open>
  What the camera component guarantees: a successful \<open>init\<close> leaves every buffer mapped, the capture
  loop keeps the invariant of the video queue and appends one frame per iteration, and each frame
  is the driver's.  \<open>driver_ok\<close> states what V4L2 documents: a dequeued index is one of the requested
  buffers and the bytes it reports are readable at the address \<open>mmap\<close> returned for it.
\<close>

definition driver_ok :: "'d v4l2 \<Rightarrow> ('p, 'd) camera \<Rightarrow> bool" where
  "driver_ok k c \<longleftrightarrow> (\<forall>d r i b d'. v_dqbuf k (ci_fd c) d = (r, i, b, d') \<and> r \<noteq> -1 \<longrightarrow>
     unat i < length (ci_camera_buffers c) \<and>
     (\<forall>a e. ci_camera_buffers c ! unat i = Some a \<longrightarrow>
        (\<exists>bs. v_memory k e a = Some bs \<and> unat b \<le> length bs)))"

lemma driver_okD:
  assumes "driver_ok k c" and "v_dqbuf k (ci_fd c) d = (r, i, b, d')" and "r \<noteq> -1"
  shows "unat i < length (ci_camera_buffers c)"
    and "ci_camera_buffers c ! unat i = Some a \<Longrightarrow> \<exists>bs. v_memory k e a = Some bs \<and> unat b \<le> length bs"
  using assms unfolding driver_ok_def by blast+

definition all_mapped :: "('p, 'd) camera \<Rightarrow> bool" where
  "all_mapped c \<longleftrightarrow> length (ci_camera_buffers c) = N_CAM_BUF \<and> None \<notin> set (ci_camera_buffers c)"

subsection \<open>Initialisation\<close>

lemma map_buffers_result:
  "map_buffers k i c = (r, c') \<Longrightarrow> length (ci_camera_buffers c) = N_CAM_BUF \<Longrightarrow>
   \<forall>j<i. ci_camera_buffers c ! j \<noteq> None \<Longrightarrow>
   r \<in> {0, 3} \<and> ci_fd c' = ci_fd c \<and> ci_cam_config c' = ci_cam_config c \<and>
   length (ci_camera_buffers c') = N_CAM_BUF \<and> (r = 0 \<longrightarrow> (\<forall>j<N_CAM_BUF. ci_camera_buffers c' ! j \<noteq> None))"
proof (induction k i c rule: map_buffers.induct)
  case (1 k i c)
  obtain q len off d1 where q: "v_querybuf k (ci_fd c) (of_nat i) (ci_dev c) = (q, len, off, d1)"
    by (metis prod.collapse)
  obtain a d2 where a: "v_mmap k (ci_fd c) len off d1 = (a, d2)" by fastforce
  show ?case
  proof (cases "i < N_CAM_BUF \<and> q \<noteq> -1")
    case False
    then show ?thesis using 1(2-4) q by (subst (asm) map_buffers.simps) (auto split: if_splits)
  next
    case True
    then have rec: "map_buffers k (Suc i)
      (c\<lparr>ci_dev := d2, ci_camera_buffers := (ci_camera_buffers c)[i := Some a]\<rparr>) = (r, c')"
      using 1(2) q a by (subst (asm) map_buffers.simps) simp
    have "\<forall>j<Suc i. (ci_camera_buffers c)[i := Some a] ! j \<noteq> None"
      using 1(3,4) True by (auto simp: nth_list_update less_Suc_eq)
    with 1(1) [OF _ q [symmetric] refl refl refl _ a [symmetric] refl rec] True 1(3) show ?thesis
      by simp
  qed
qed

lemma queue_v4l2_buffer_frame [simp]:
  "ci_fd (snd (queue_v4l2_buffer k i c)) = ci_fd c"
  "ci_cam_config (snd (queue_v4l2_buffer k i c)) = ci_cam_config c"
  "ci_camera_buffers (snd (queue_v4l2_buffer k i c)) = ci_camera_buffers c"
  by (simp_all add: queue_v4l2_buffer_def split: prod.split)

lemma queue_all_frame:
  "ci_fd (fold (\<lambda>i c. snd (queue_v4l2_buffer k (int i) c)) is c) = ci_fd c \<and>
   ci_cam_config (fold (\<lambda>i c. snd (queue_v4l2_buffer k (int i) c)) is c) = ci_cam_config c \<and>
   ci_camera_buffers (fold (\<lambda>i c. snd (queue_v4l2_buffer k (int i) c)) is c) = ci_camera_buffers c"
  by (induction "is" arbitrary: c) simp_all

lemma set_v4l2_format_result:
  assumes "ci_cam_config c = Some cfg"
  shows "\<exists>r c'. set_v4l2_format k c = Inr (r, c') \<and> r \<in> {0, 1, 2, 4, 5} \<and>
     ci_cam_config c' = Some cfg \<and> ci_camera_buffers c' = ci_camera_buffers c \<and>
     (ci_fd c' = -1 \<longleftrightarrow> r = 1)"
  using assms by (simp add: set_v4l2_format_def Let_def split: prod.split)

lemma set_v4l2_buffer_result:
  assumes "set_v4l2_buffer k c = (r, c')" and "length (ci_camera_buffers c) = N_CAM_BUF"
  shows "r \<in> {0, 1, 2, 3} \<and> ci_fd c' = ci_fd c \<and> ci_cam_config c' = ci_cam_config c \<and>
     (r = 0 \<longrightarrow> all_mapped c')"
proof -
  obtain q n d1 where q: "v_reqbufs k (ci_fd c) (of_nat N_CAM_BUF) (ci_dev c) = (q, n, d1)"
    by (metis prod.collapse)
  show ?thesis
  proof (cases "q = -1 \<or> n > of_nat N_CAM_BUF")
    case True
    then show ?thesis using assms q by (auto simp: set_v4l2_buffer_def Let_def split: if_splits)
  next
    case False
    then have "map_buffers k 0 (c\<lparr>ci_dev := d1\<rparr>) = (r, c')"
      using assms(1) q by (simp add: set_v4l2_buffer_def Let_def)
    from map_buffers_result [OF this] assms(2) show ?thesis
      by (auto simp: all_mapped_def in_set_conv_nth)
  qed
qed

text \<open>
  \<open>init\<close> always returns a status between 0 and 5 when the camera section is there; status 0
  means that the device is open and that each of the eight buffer slots holds a mapping; the
  caller can tell an unopened device by its descriptor.
\<close>
theorem camera_init_status:
  assumes "ci_cam_config c = Some cfg" and "length (ci_camera_buffers c) = N_CAM_BUF"
  shows "\<exists>r c'. camera_init k c = Inr (r, c') \<and> r \<in> {0..5} \<and> ci_cam_config c' = Some cfg \<and>
    (r = 0 \<longrightarrow> ci_fd c' \<noteq> -1 \<and> all_mapped c')"
proof -
  from set_v4l2_format_result [OF assms(1)] obtain r1 c1 where
    1: "set_v4l2_format k c = Inr (r1, c1)" "r1 \<in> {0, 1, 2, 4, 5}" "ci_cam_config c1 = Some cfg"
      "ci_camera_buffers c1 = ci_camera_buffers c" "ci_fd c1 = -1 \<longleftrightarrow> r1 = 1"
    by blast
  obtain r2 c2 where 2: "set_v4l2_buffer k c1 = (r2, c2)" by fastforce
  from set_v4l2_buffer_result [OF 2] 1(4) assms(2) have
    3: "r2 \<in> {0, 1, 2, 3}" "ci_fd c2 = ci_fd c1" "ci_cam_config c2 = Some cfg" "r2 = 0 \<longrightarrow> all_mapped c2"
    by (simp_all add: 1(3))
  let ?c3 = "fold (\<lambda>i c. snd (queue_v4l2_buffer k (int i) c)) [0..<N_CAM_BUF] c2"
  have "all_mapped ?c3 \<longleftrightarrow> all_mapped c2" by (simp add: all_mapped_def queue_all_frame)
  with 1 2 3 show ?thesis
    by (auto simp: camera_init_def queue_all_frame)
qed

text \<open>A driver for the witnesses: frames of three bytes in buffer 2 until its clock reaches 3.\<close>

definition demo_driver :: "nat v4l2" where
  "demo_driver = \<lparr>v_open = (\<lambda>p d. (7, d)), v_querycap = (\<lambda>f d. (0, d)), v_s_fmt = (\<lambda>f m d. (0, d)),
     v_s_parm = (\<lambda>f n d. (0, d)), v_reqbufs = (\<lambda>f n d. (0, n, d)),
     v_querybuf = (\<lambda>f i d. (0, 64, i * 64, d)), v_mmap = (\<lambda>f len off d. (unat off, d)),
     v_qbuf = (\<lambda>f i d. (0, 0, d)), v_dqbuf = (\<lambda>f d. (0, 2, 3, Suc d)),
     v_select = (\<lambda>f d. (if d < 3 then 1 else 0, d)), v_stream = (\<lambda>on f d. (0, d)),
     v_memory = (\<lambda>d a. Some [1, 2, 3]), v_time = (\<lambda>d. (int d, d))\<rparr>"

definition demo_camera :: "addr option list \<Rightarrow> (unit, nat) camera" where
  "demo_camera bufs = \<lparr>ci_cam_config = Some \<lparr>cc_props = (), cc_device_path = ''/dev/video0'',
       cc_metadata = \<lparr>vm_type = 0, vm_width = 4, vm_height = 2\<rparr>, cc_fps = 2\<rparr>,
     ci_is_run = False, ci_camera_buffers = bufs, ci_fd = -1, ci_dev = 0\<rparr>"

theorem camera_init_status_witness:
  "\<exists>c'. camera_init demo_driver (demo_camera (replicate 8 None)) = Inr (0, c') \<and> all_mapped c'"
proof -
  let ?c = "demo_camera (replicate 8 None)"
  have f: "set_v4l2_format demo_driver ?c = Inr (0, ?c\<lparr>ci_fd := 7\<rparr>)"
    by (simp add: set_v4l2_format_def demo_driver_def demo_camera_def)
  have "fst (map_buffers demo_driver i c) = 0" for i and c :: "(unit, nat) camera"
  proof (induction demo_driver i c rule: map_buffers.induct)
    case (1 i c)
    then show ?case
      by (subst map_buffers.simps) (simp add: demo_driver_def)
  qed
  then have b: "fst (set_v4l2_buffer demo_driver c) = 0" for c :: "(unit, nat) camera"
    by (simp add: set_v4l2_buffer_def) (simp add: demo_driver_def)
  obtain r2 c2 where r2: "set_v4l2_buffer demo_driver (?c\<lparr>ci_fd := 7\<rparr>) = (r2, c2)" by fastforce
  have "\<exists>c'. camera_init demo_driver ?c = Inr (0, c')"
    using b [of "?c\<lparr>ci_fd := 7\<rparr>"] r2 by (simp add: camera_init_def f)
  moreover obtain cfg where "ci_cam_config ?c = Some cfg" by (simp add: demo_camera_def)
  moreover have "length (ci_camera_buffers ?c) = N_CAM_BUF"
    by (simp add: demo_camera_def N_CAM_BUF_def)
  ultimately show ?thesis using camera_init_status [of ?c cfg demo_driver] by auto
qed

subsection \<open>Capture\<close>

text \<open>
  C14: One iteration of the capture loop.  A timeout ends it with status 1 and leaves the queue
  alone.  A failed dequeue stops the stream and ends the loop with status 0, which the header
  documents as success.  Otherwise exactly one frame, the driver's bytes with the configured
  metadata and the time of the capture, is appended to the input queue, and the same buffer is
  given back to the driver; a failed \<open>select\<close> makes no difference.
\<close>
theorem capture_round:
  assumes inv: "vq_inv H q" and cfg: "ci_cam_config c = Some cfg" and ok: "driver_ok k c"
    and mapped: "None \<notin> set (ci_camera_buffers c)"
    and sel: "v_select k (ci_fd c) (ci_dev c) = (s, d1)"
    and dq: "v_dqbuf k (ci_fd c) d1 = (r, index, n, d2)" and now: "v_time k d2 = (t, d3)"
  shows "if s = 0 then loop_round k (c, q) = Inr (Some 1, c\<lparr>ci_dev := d1\<rparr>, q)
    else if r = -1 then loop_round k (c, q) =
        Inr (Some 0, c\<lparr>ci_dev := snd (v_stream k False (ci_fd c) d2)\<rparr>, q)
    else \<exists>a bytes q'. ci_camera_buffers c ! unat index = Some a \<and>
        v_memory k d3 a = Some bytes \<and> unat n \<le> length bytes \<and>
        loop_round k (c, q) = Inr (None, c\<lparr>ci_dev := snd (snd (v_qbuf k (ci_fd c) index d3))\<rparr>, q') \<and>
        vq_inv H q' \<and>
        abs_vq q' = (abs_vq q)\<lparr>a_input := a_input (abs_vq q) @
          [\<lparr>vb_meta = metadata cfg, vb_time = t, vb_data = Some (take (unat n) bytes), vb_size = unat n\<rparr>]\<rparr>"
proof (cases "s = 0 \<or> r = -1")
  case True
  then show ?thesis
    using sel dq by (auto simp: loop_round_def deque_v4l2_buffer_def camera_stop_def Let_def split: prod.split)
next
  case False
  then have "r \<noteq> -1" by simp
  note i = driver_okD(1) [OF ok dq this]
  with mapped obtain a where a: "ci_camera_buffers c ! unat index = Some a"
    by (metis not_None_eq nth_mem)
  from driver_okD(2) [OF ok dq \<open>r \<noteq> -1\<close> this] obtain bytes
    where b: "v_memory k d3 a = Some bytes" "unat n \<le> length bytes" by blast
  let ?f = "\<lparr>vb_meta = metadata cfg, vb_time = t, vb_data = Some (take (unat n) bytes), vb_size = unat n\<rparr>"
  obtain p q1 where nb: "new_buf ?f q = (p, q1)" by fastforce
  have f: "frame_ok ?f" using b by (simp add: frame_ok_def)
  have m: "memcpy_bytes (v_memory k d3 a) (unat n) = Inr (take (unat n) bytes)"
    using b by (simp add: memcpy_bytes_def)
  have round: "loop_round k (c, q) =
      Inr (None, c\<lparr>ci_dev := snd (snd (v_qbuf k (ci_fd c) index d3))\<rparr>, snd (push p q1))"
    using False sel dq now i a m nb cfg
    by (simp add: loop_round_def deque_v4l2_buffer_def queue_v4l2_buffer_def split: prod.split)
  note n = new_buf_inv [OF inv f nb]
  have "insert p H - {p} = H" using n(2) by simp
  with push_inv [OF n(1), of p] have "vq_inv H (snd (push p q1))" by simp
  moreover have "buf_at q1 p = ?f" using nb by (auto simp: new_buf_def buf_at_def)
  ultimately show ?thesis
    using False a b round n(3) push_abs [of p q1] by auto
qed

lemma demo_driver_ok: "driver_ok demo_driver (demo_camera (replicate 8 (Some 0)))"
  by (simp add: driver_ok_def demo_driver_def demo_camera_def)

theorem capture_round_witness:
  "\<exists>c' q'. loop_round demo_driver (demo_camera (replicate 8 (Some 0)), new_vqueue 2) = Inr (None, c', q') \<and>
     vq_inv {} q' \<and> map vb_data (a_input (abs_vq q')) = [Some [1, 2, 3]]"
proof -
  let ?c = "demo_camera (replicate 8 (Some 0))"
  have inv: "vq_inv {} (new_vqueue 2)" by (rule new_vqueue_inv) (simp_all add: in_int32_def)
  have h: "ci_cam_config ?c = Some (the (ci_cam_config ?c))" "None \<notin> set (ci_camera_buffers ?c)"
    "v_select demo_driver (ci_fd ?c) (ci_dev ?c) = (1, 0)"
    "v_dqbuf demo_driver (ci_fd ?c) 0 = (0, 2, 3, 1)" "v_time demo_driver 1 = (1, 1)"
    by (simp_all add: demo_camera_def demo_driver_def)
  have mem: "v_memory demo_driver d a = Some [1, 2, 3]" for d a by (simp add: demo_driver_def)
  have "a_input (abs_vq (new_vqueue 2)) = []" by (simp add: abs_vq_def new_vqueue_def)
  with capture_round [OF inv h(1) demo_driver_ok h(2-5)] mem show ?thesis by auto
qed

text \<open>
  C15: Any number of iterations of the capture loop, on a device that keeps its contract: none
  faults, the queue's invariant is kept, nothing of the queue but its input changes, and while
  the loop runs it appends exactly one well-formed frame per iteration.
\<close>
theorem capture_loop:
  assumes "vq_inv H q" and "ci_cam_config c = Some cfg" and "driver_ok k c"
    and "None \<notin> set (ci_camera_buffers c)"
  shows "\<exists>r c' q' frames. camera_loop n k (c, q) = Inr (r, c', q') \<and> r \<in> {None, Some 0, Some 1} \<and>
    vq_inv H q' \<and> abs_vq q' = (abs_vq q)\<lparr>a_input := a_input (abs_vq q) @ frames\<rparr> \<and>
    (\<forall>f \<in> set frames. frame_ok f \<and> vb_meta f = metadata cfg) \<and>
    length frames \<le> n \<and> (r = None \<longrightarrow> length frames = n)"
  using assms
proof (induction n arbitrary: c q)
  case 0
  then show ?case by (auto intro!: exI [of _ "[]"])
next
  case (Suc n)
  obtain s d1 where s: "v_select k (ci_fd c) (ci_dev c) = (s, d1)" by fastforce
  obtain r index m d2 where d: "v_dqbuf k (ci_fd c) d1 = (r, index, m, d2)" by (metis prod.collapse)
  obtain t d3 where t: "v_time k d2 = (t, d3)" by fastforce
  from Suc.prems have round:
    "if s = 0 then loop_round k (c, q) = Inr (Some 1, c\<lparr>ci_dev := d1\<rparr>, q)
     else if r = -1 then loop_round k (c, q) =
        Inr (Some 0, c\<lparr>ci_dev := snd (v_stream k False (ci_fd c) d2)\<rparr>, q)
     else \<exists>e q' f. loop_round k (c, q) = Inr (None, c\<lparr>ci_dev := e\<rparr>, q') \<and> vq_inv H q' \<and>
        frame_ok f \<and> vb_meta f = metadata cfg \<and>
        abs_vq q' = (abs_vq q)\<lparr>a_input := a_input (abs_vq q) @ [f]\<rparr>"
  proof (cases "s = 0 \<or> r = -1")
    case True
    then show ?thesis using capture_round [OF Suc.prems s d t] by auto
  next
    case False
    with capture_round [OF Suc.prems s d t] obtain e q' bytes where
      "loop_round k (c, q) = Inr (None, c\<lparr>ci_dev := e\<rparr>, q')" "vq_inv H q'" "unat m \<le> length bytes"
      "abs_vq q' = (abs_vq q)\<lparr>a_input := a_input (abs_vq q) @ [\<lparr>vb_meta = metadata cfg, vb_time = t,
         vb_data = Some (take (unat m) bytes), vb_size = unat m\<rparr>]\<rparr>"
      by auto
    with False show ?thesis
      by (auto simp: frame_ok_def intro!: exI [of _ "\<lparr>vb_meta = metadata cfg, vb_time = t,
         vb_data = Some (take (unat m) bytes), vb_size = unat m\<rparr>"])
  qed
  show ?case
  proof (cases "s = 0 \<or> r = -1")
    case True
    with round Suc.prems(1) show ?thesis by (auto split: if_splits intro!: exI [of _ "[]"])
  next
    case False
    with round obtain e q1 f where 1: "loop_round k (c, q) = Inr (None, c\<lparr>ci_dev := e\<rparr>, q1)"
      "vq_inv H q1" "frame_ok f" "vb_meta f = metadata cfg"
      "abs_vq q1 = (abs_vq q)\<lparr>a_input := a_input (abs_vq q) @ [f]\<rparr>" by auto
    have "driver_ok k (c\<lparr>ci_dev := e\<rparr>)" using Suc.prems(3) by (simp add: driver_ok_def)
    from Suc.IH [OF 1(2) _ this] Suc.prems obtain rr c' q' frames where
      "camera_loop n k (c\<lparr>ci_dev := e\<rparr>, q1) = Inr (rr, c', q')" "rr \<in> {None, Some 0, Some 1}" "vq_inv H q'"
      "abs_vq q' = (abs_vq q1)\<lparr>a_input := a_input (abs_vq q1) @ frames\<rparr>"
      "\<forall>f \<in> set frames. frame_ok f \<and> vb_meta f = metadata cfg" "length frames \<le> n"
      "rr = None \<longrightarrow> length frames = n" by auto
    with 1 show ?thesis by (intro exI [of _ rr] exI [of _ c'] exI [of _ q'] exI [of _ "f # frames"]) simp
  qed
qed

theorem capture_loop_witness:
  "\<exists>c' q'. camera_loop 5 demo_driver (demo_camera (replicate 8 (Some 0)), new_vqueue 2) =
       Inr (Some 1, c', q') \<and> length (a_input (abs_vq q')) \<le> 5 \<and> vq_inv {} q'"
proof -
  let ?c = "demo_camera (replicate 8 (Some 0))"
  have inv: "vq_inv {} (new_vqueue 2)" by (rule new_vqueue_inv) (simp_all add: in_int32_def)
  have h: "ci_cam_config ?c = Some (the (ci_cam_config ?c))" "None \<notin> set (ci_camera_buffers ?c)"
    by (simp_all add: demo_camera_def)
  have more: "\<exists>q'. loop_round demo_driver (?c\<lparr>ci_dev := d\<rparr>, q) = Inr (None, ?c\<lparr>ci_dev := Suc d\<rparr>, q')"
    if "d < 3" for d q
    using that by (simp add: loop_round_def deque_v4l2_buffer_def demo_driver_def demo_camera_def
        queue_v4l2_buffer_def memcpy_bytes_def new_buf_def)
  have last: "loop_round demo_driver (?c\<lparr>ci_dev := 3\<rparr>, q) = Inr (Some 1, ?c\<lparr>ci_dev := 3\<rparr>, q)" for q
    by (simp add: loop_round_def demo_driver_def demo_camera_def)
  have c0: "?c = ?c\<lparr>ci_dev := 0\<rparr>" by (simp add: demo_camera_def)
  have n5: "5 = Suc (Suc (Suc (Suc (Suc 0))))" by simp
  obtain q1 where 1: "loop_round demo_driver (?c\<lparr>ci_dev := 0\<rparr>, new_vqueue 2) = Inr (None, ?c\<lparr>ci_dev := 1\<rparr>, q1)"
    using more [of 0 "new_vqueue 2"] by auto
  obtain q2 where 2: "loop_round demo_driver (?c\<lparr>ci_dev := 1\<rparr>, q1) = Inr (None, ?c\<lparr>ci_dev := 2\<rparr>, q2)"
    using more [of 1 q1] by (auto simp: numeral_2_eq_2)
  obtain q3 where 3: "loop_round demo_driver (?c\<lparr>ci_dev := 2\<rparr>, q2) = Inr (None, ?c\<lparr>ci_dev := 3\<rparr>, q3)"
    using more [of 2 q2] by (auto simp: numeral_3_eq_3 numeral_2_eq_2)
  have "camera_loop 5 demo_driver (?c, new_vqueue 2) = Inr (Some 1, ?c\<lparr>ci_dev := 3\<rparr>, q3)"
    by (subst c0) (simp only: n5 camera_loop.simps 1 2 3 last rbind_Inr prod.case option.case)
  then have run: "camera_loop 5 demo_driver (?c, new_vqueue 2) = Inr (Some 1, ?c\<lparr>ci_dev := 3\<rparr>, q3)" .
  from capture_loop [OF inv h(1) demo_driver_ok h(2), of 5] obtain r c' q' frames where
    p: "camera_loop 5 demo_driver (?c, new_vqueue 2) = Inr (r, c', q')" "vq_inv {} q'"
      "abs_vq q' = (abs_vq (new_vqueue 2))\<lparr>a_input := a_input (abs_vq (new_vqueue 2)) @ frames\<rparr>"
      "length frames \<le> 5" by blast
  have "q' = q3" using run p(1) by (simp only: sum.inject prod.inject)
  moreover have "a_input (abs_vq (new_vqueue 2)) = []" by (simp add: abs_vq_def new_vqueue_def)
  ultimately have "length (a_input (abs_vq q3)) \<le> 5" "vq_inv {} q3" using p(2-4) by simp_all
  with run show ?thesis by blast
qed

end
