(* ===== verification/Cxx_Fs.thy ===== *)
theory Cxx_Fs
  imports Cxx_Base
begin

text \<open>
  \<open>std::filesystem\<close> and the file streams, over an explicit store of directories and files.

  A path is resolved against the working directory to a list of names: empty names and \<open>.\<close> are
  dropped, \<open>..\<close> goes one level up (the model has no symbolic links).  The store is an association
  list, so that a directory can be listed; its order is the unspecified order of
  \<open>directory_iterator\<close>.  \<open>can_open\<close> is the answer of the operating system to opening a file
  (permissions, free descriptors): a parameter of the operations that open one.
\<close>

type_synonym path = "string list"

datatype node = Dir | File string

type_synonym fs = "(path \<times> node) list"

named_theorems fs_simps \<open>laws of the file store\<close>

subsection \<open>Paths\<close>

fun split_slash :: "string \<Rightarrow> string list" where
  "split_slash [] = [[]]"
| "split_slash (c # s) =
     (if c = CHR ''/'' then [] # split_slash s
      else case split_slash s of [] \<Rightarrow> [[c]] | w # ws \<Rightarrow> (c # w) # ws)"

fun walk :: "path \<Rightarrow> string list \<Rightarrow> path" where
  "walk p [] = p"
| "walk p (n # ns) =
     (if n = [] \<or> n = ''.'' then walk p ns
      else if n = ''..'' then walk (butlast p) ns
      else walk (p @ [n]) ns)"

definition resolve :: "path \<Rightarrow> string \<Rightarrow> path" where
  "resolve cwd s =
     walk (case s of c # _ \<Rightarrow> if c = CHR ''/'' then [] else cwd | [] \<Rightarrow> cwd) (split_slash s)"

definition plain_name :: "string \<Rightarrow> bool" where
  "plain_name n \<longleftrightarrow> n \<noteq> [] \<and> n \<noteq> ''.'' \<and> n \<noteq> ''..'' \<and> CHR ''/'' \<notin> set n"

lemma split_slash_nonempty [simp]: "split_slash s \<noteq> []"
  by (cases s) (auto split: list.splits)

lemma split_slash_no_slash: "CHR ''/'' \<notin> set s \<Longrightarrow> split_slash s = [s]"
  by (induction s) auto

lemma split_slash_append:
  "CHR ''/'' \<notin> set s \<Longrightarrow> split_slash (s @ CHR ''/'' # t) = s # split_slash t"
  by (induction s) auto

lemma split_slash_join: "split_slash (s @ CHR ''/'' # t) = split_slash s @ split_slash t"
proof (induction s)
  case Nil
  show ?case by simp
next
  case (Cons c s)
  show ?case
    using Cons.IH split_slash_nonempty [of s] by (cases "split_slash s") auto
qed

lemma walk_append: "walk p (ms @ ns) = walk (walk p ms) ns"
  by (induction p ms rule: walk.induct) auto

lemma walk_plain: "plain_name n \<Longrightarrow> walk p (n # ns) = walk (p @ [n]) ns"
  by (simp add: plain_name_def)

lemma resolve_child:
  assumes "p \<noteq> []" and "plain_name f"
  shows "resolve cwd (p @ CHR ''/'' # f) = resolve cwd p @ [f]"
proof -
  have "split_slash f = [f]" using assms(2) by (simp add: plain_name_def split_slash_no_slash)
  then have "walk q (split_slash (p @ CHR ''/'' # f)) = walk q (split_slash p) @ [f]" for q
    using assms(2) by (simp add: split_slash_join walk_append plain_name_def)
  with assms(1) show ?thesis by (cases p) (simp_all add: resolve_def del: split_slash.simps)
qed

lemma resolve_plain: "plain_name n \<Longrightarrow> resolve cwd n = cwd @ [n]"
  by (auto simp: resolve_def plain_name_def split_slash_no_slash split: list.splits)

lemma resolve_dir_name:
  assumes "plain_name d"
  shows "resolve cwd (d @ CHR ''/'' # t) = walk (cwd @ [d]) (split_slash t)"
proof -
  from assms obtain c cs where d: "d = c # cs" and "c \<noteq> CHR ''/''"
    by (cases d) (auto simp: plain_name_def)
  then have "resolve cwd (d @ CHR ''/'' # t) = walk cwd (split_slash (d @ CHR ''/'' # t))"
    by (simp add: resolve_def del: split_slash.simps)
  also have "\<dots> = walk (cwd @ [d]) (split_slash t)"
    using assms by (simp add: split_slash_append plain_name_def)
  finally show ?thesis .
qed

subsection \<open>The store\<close>

definition fs_lookup :: "fs \<Rightarrow> path \<Rightarrow> node option" where
  "fs_lookup fs p = (if p = [] then Some Dir else map_of fs p)"

definition fs_put :: "path \<Rightarrow> node \<Rightarrow> fs \<Rightarrow> fs" where
  "fs_put p n fs = (p, n) # filter (\<lambda>(q, _). q \<noteq> p) fs"

definition below :: "path \<Rightarrow> path \<Rightarrow> bool" where
  "below p q \<longleftrightarrow> take (length p) q = p"

definition remove_all :: "path \<Rightarrow> fs \<Rightarrow> fs" where
  "remove_all p fs = filter (\<lambda>(q, _). \<not> below p q) fs"

definition is_directory :: "fs \<Rightarrow> path \<Rightarrow> bool" where
  "is_directory fs p \<longleftrightarrow> fs_lookup fs p = Some Dir"

definition fs_exists :: "fs \<Rightarrow> path \<Rightarrow> bool" where
  "fs_exists fs p \<longleftrightarrow> fs_lookup fs p \<noteq> None"

fun is_file :: "node \<Rightarrow> bool" where
  "is_file (File _) = True"
| "is_file Dir = False"

definition children :: "fs \<Rightarrow> path \<Rightarrow> (string \<times> node) list" where
  "children fs p =
     map (\<lambda>(q, n). (last q, n)) (filter (\<lambda>(q, n). q \<noteq> [] \<and> butlast q = p) fs)"

definition directory_iterator :: "fs \<Rightarrow> path \<Rightarrow> (string \<times> node) list exn" where
  "directory_iterator fs p =
     (if is_directory fs p then Inr (children fs p) else Inl Filesystem_error)"

definition create_directory :: "path \<Rightarrow> fs \<Rightarrow> fs exn" where
  "create_directory p fs =
     (case fs_lookup fs p of
        Some Dir \<Rightarrow> Inr fs
      | Some (File _) \<Rightarrow> Inl Filesystem_error
      | None \<Rightarrow> if is_directory fs (butlast p) then Inr (fs_put p Dir fs)
                else Inl Filesystem_error)"

definition remove_file :: "path \<Rightarrow> fs \<Rightarrow> fs exn" where
  "remove_file p fs =
     (if fs_lookup fs p = Some Dir \<and> children fs p \<noteq> [] then Inl Filesystem_error
      else Inr (filter (\<lambda>(q, _). q \<noteq> p) fs))"

text \<open>
  Opening an output stream: \<open>None\<close> when the stream is not open.  Without \<open>app\<close> an existing file
  is emptied; with it the contents are kept.
\<close>

definition open_out :: "(path \<Rightarrow> bool) \<Rightarrow> bool \<Rightarrow> path \<Rightarrow> fs \<Rightarrow> fs option" where
  "open_out can_open app p fs =
     (if can_open p \<and> is_directory fs (butlast p) \<and> \<not> is_directory fs p then
        Some (case fs_lookup fs p of
                Some (File c) \<Rightarrow> if app then fs else fs_put p (File []) fs
              | _ \<Rightarrow> fs_put p (File []) fs)
      else None)"

definition append_file :: "path \<Rightarrow> string \<Rightarrow> fs \<Rightarrow> fs" where
  "append_file p s fs =
     (case fs_lookup fs p of Some (File c) \<Rightarrow> fs_put p (File (c @ s)) fs | _ \<Rightarrow> fs)"

definition open_in :: "(path \<Rightarrow> bool) \<Rightarrow> path \<Rightarrow> fs \<Rightarrow> string option" where
  "open_in can_open p fs =
     (if can_open p then (case fs_lookup fs p of Some (File c) \<Rightarrow> Some c | _ \<Rightarrow> None) else None)"

text \<open>
  The operating system resolves a path through the store: each name is looked up in a directory
  that exists, also before a \<open>..\<close>.  \<open>None\<close> is a path that cannot be followed.
\<close>

fun walk_ok :: "fs \<Rightarrow> path \<Rightarrow> string list \<Rightarrow> bool" where
  "walk_ok fs p [] = True"
| "walk_ok fs p (n # ns) =
     (if n = [] then walk_ok fs p ns
      else is_directory fs p \<and>
        walk_ok fs (if n = ''.'' then p else if n = ''..'' then butlast p else p @ [n]) ns)"

definition start_dir :: "path \<Rightarrow> string \<Rightarrow> path" where
  "start_dir cwd s = (case s of c # _ \<Rightarrow> if c = CHR ''/'' then [] else cwd | [] \<Rightarrow> cwd)"

definition locate :: "fs \<Rightarrow> path \<Rightarrow> string \<Rightarrow> path option" where
  "locate fs cwd s = (if walk_ok fs (start_dir cwd s) (split_slash s) then Some (resolve cwd s) else None)"

lemma map_of_filter_neq:
  "map_of (filter (\<lambda>(q, _). P q) fs) p = (if P p then map_of fs p else None)"
  by (induction fs) auto

lemma fs_lookup_put [fs_simps]:
  "p \<noteq> [] \<Longrightarrow> fs_lookup (fs_put p n fs) q = (if q = p then Some n else fs_lookup fs q)"
  by (auto simp: fs_lookup_def fs_put_def map_of_filter_neq)

lemma fs_lookup_remove_all [fs_simps]:
  "p \<noteq> [] \<Longrightarrow> fs_lookup (remove_all p fs) q = (if below p q then None else fs_lookup fs q)"
  by (auto simp: fs_lookup_def remove_all_def map_of_filter_neq below_def)

lemma fs_lookup_remove_file [fs_simps]:
  "remove_file p fs = Inr fs' \<Longrightarrow> p \<noteq> [] \<Longrightarrow>
   fs_lookup fs' q = (if q = p then None else fs_lookup fs q)"
  by (auto simp: remove_file_def fs_lookup_def map_of_filter_neq split: if_splits)

lemma below_refl [simp]: "below p p"
  by (simp add: below_def)

lemma below_append [simp]: "below p (p @ q)"
  by (simp add: below_def)

lemma below_iff: "below p q \<longleftrightarrow> (\<exists>r. q = p @ r)"
  unfolding below_def by (metis append_eq_conv_conj append_take_drop_id)

lemma walk_below:
  "below p (walk p ns)" if "\<forall>n \<in> set ns. n \<noteq> ''..''"
  using that
proof (induction p ns rule: walk.induct)
  case (1 p)
  show ?case by simp
next
  case (2 p n ns)
  show ?case
  proof (cases "n = [] \<or> n = ''.''")
    case True
    with 2 show ?thesis by auto
  next
    case False
    with 2 have "below (p @ [n]) (walk (p @ [n]) ns)" by auto
    with False 2(4) show ?thesis by (auto simp: below_iff)
  qed
qed

subsection \<open>The contract of a file store\<close>

text \<open>
  The laws a client of the store relies on, stated for any store with a lookup, a write and a
  recursive removal.  A removal below \<open>p\<close> and a write outside it commute for every reader.
\<close>

locale file_store =
  fixes lookup :: "'f \<Rightarrow> path \<Rightarrow> node option"
    and put :: "path \<Rightarrow> node \<Rightarrow> 'f \<Rightarrow> 'f"
    and rm :: "path \<Rightarrow> 'f \<Rightarrow> 'f"
  assumes lookup_put: "p \<noteq> [] \<Longrightarrow> lookup (put p n f) q = (if q = p then Some n else lookup f q)"
    and lookup_rm: "p \<noteq> [] \<Longrightarrow> lookup (rm p f) q = (if below p q then None else lookup f q)"
begin

lemma put_same: "p \<noteq> [] \<Longrightarrow> lookup (put p n f) p = Some n"
  by (simp add: lookup_put)

lemma put_frame: "p \<noteq> [] \<Longrightarrow> q \<noteq> p \<Longrightarrow> lookup (put p n f) q = lookup f q"
  by (simp add: lookup_put)

lemma rm_gone: "p \<noteq> [] \<Longrightarrow> lookup (rm p f) (p @ r) = None"
  by (simp add: lookup_rm)

lemma rm_frame: "p \<noteq> [] \<Longrightarrow> \<not> below p q \<Longrightarrow> lookup (rm p f) q = lookup f q"
  by (simp add: lookup_rm)

lemma rm_put_inside: "p \<noteq> [] \<Longrightarrow> lookup (rm p (put (p @ r) n f)) = lookup (rm p f)"
  by (rule ext) (auto simp: lookup_rm lookup_put)

lemma rm_put_outside:
  "p \<noteq> [] \<Longrightarrow> q \<noteq> [] \<Longrightarrow> \<not> below p q \<Longrightarrow> lookup (rm p (put q n f)) = lookup (put q n (rm p f))"
  by (rule ext) (auto simp: lookup_rm lookup_put)

end

interpretation store: file_store fs_lookup fs_put remove_all
  by unfold_locales (simp_all add: fs_simps)

end
