(* ===== verification/Http_Client.thy ===== *)
theory Http_Client
  imports Config Cxx_Fs
begin

text \<open>
  The client half of \<open>http::EventHandlerHTTP\<close> (\<open>src/http/EventHandlerHTTP.cpp\<close>): its constructor, and
  the requests it sends to the remote server (\<open>event_send\<close>, \<open>video_send\<close>, \<open>camerainfo_send\<close>,
  \<open>send_request\<close> and the write callback).

  libcurl, the JSON writer and the clock's local time are parameters (\<open>net_env\<close>): performing a
  request gives curl's status and the chunks it hands to the write callback, each with the memory
  readable at the address it passes and the two sizes.  A handle is the record of the options set
  on it; the requests performed are logged in order.
\<close>

subsection \<open>Requests and the environment\<close>

datatype mime_part = Mime_data string string | Mime_file string string

datatype body = No_body | Post_fields string | Mime_post "mime_part list"

record curl_request =
  rq_method :: string
  rq_url :: string
  rq_headers :: "string list"
  rq_follow :: bool
  rq_protocol :: string
  rq_agent :: string
  rq_body :: body
  rq_callback :: bool

record net_env =
  ne_write_json :: "(string \<times> string) list \<Rightarrow> string"
  ne_local_time :: "int \<Rightarrow> string"
  ne_curl_init :: bool
  ne_perform :: "curl_request \<Rightarrow> int \<times> (string \<times> size_t \<times> size_t) list"

record event_http =
  eh_server_address :: string
  eh_uuid :: string
  eh_upload_client :: int

definition curl_easy_init :: "net_env \<Rightarrow> curl_request option" where
  "curl_easy_init env =
     (if ne_curl_init env then
        Some \<lparr>rq_method = '''', rq_url = '''', rq_headers = [], rq_follow = False, rq_protocol = '''',
              rq_agent = '''', rq_body = No_body, rq_callback = False\<rparr>
      else None)"

subsection \<open>Construction\<close>

definition getline :: "string \<Rightarrow> string" where
  "getline s = takeWhile (\<lambda>c. c \<noteq> CHR 0x0A) s"

text \<open>A file that cannot be opened leaves the uuid empty.\<close>

definition event_http_ctor ::
  "(path \<Rightarrow> bool) \<Rightarrow> path \<Rightarrow> fs \<Rightarrow> 'p http_config option \<Rightarrow> event_http res" where
  "event_http_ctor can_open cwd fs cfg =
     (case cfg of
        None \<Rightarrow> Inl NullDeref
      | Some c \<Rightarrow> Inr \<lparr>eh_server_address = http_remote_server c,
          eh_uuid = (case open_in can_open (resolve cwd ''system/uuid'') fs of
                       None \<Rightarrow> '''' | Some s \<Rightarrow> getline s),
          eh_upload_client = http_upload_user c\<rparr>)"

subsection \<open>Sending\<close>

text \<open>
  The write callback copies 1024 bytes whatever the chunk's size, and the buffer it fills is a
  local array that nothing initialises; after the transfer the array is read as a C string.
\<close>

definition event_send_callback :: "string \<times> size_t \<times> size_t \<Rightarrow> (size_t \<times> string) res" where
  "event_send_callback chunk =
     (let (contents, size, nmemb) = chunk in
      if length contents < 1024 then Inl OutOfBounds
      else Inr (size * nmemb, take 1024 contents))"

definition read_c_string :: "string option \<Rightarrow> string res" where
  "read_c_string buf =
     (case buf of
        None \<Rightarrow> Inl Uninitialised
      | Some b \<Rightarrow> if CHR 0x00 \<in> set b then Inr (takeWhile (\<lambda>c. c \<noteq> CHR 0x00) b) else Inl OutOfBounds)"

definition receive :: "(string \<times> size_t \<times> size_t) list \<Rightarrow> string option res" where
  "receive chunks =
     rfold (\<lambda>chunk buf. rbind (event_send_callback chunk) (\<lambda>(_, b). Inr (Some b))) chunks None"

definition send_request ::
  "net_env \<Rightarrow> curl_request option \<Rightarrow> string \<Rightarrow> string \<Rightarrow> curl_request list \<Rightarrow>
     (int \<times> curl_request list) res" where
  "send_request env curl url payload net =
     (case curl of
        None \<Rightarrow> Inr (1, net)
      | Some h \<Rightarrow>
         (let rq = h\<lparr>rq_follow := True, rq_protocol := ''https'', rq_url := url, rq_callback := True,
                     rq_agent := ''libcurl-agent/1.0'', rq_body := Post_fields payload\<rparr>;
              (code, chunks) = ne_perform env rq in
          rbind (receive chunks) (\<lambda>response.
          rbind (read_c_string response) (\<lambda>resp.
          Inr (if code \<noteq> 0 then 2 else 0, net @ [rq])))))"

definition event_send ::
  "net_env \<Rightarrow> event_http \<Rightarrow> int \<Rightarrow> curl_request list \<Rightarrow> (int \<times> curl_request list) res" where
  "event_send env eh time net =
     (let request_url = eh_server_address eh @ ''/event'';
          request = ne_write_json env [(''description'', eh_uuid eh), (''unixtime'', to_string time),
                                       (''localtime'', ne_local_time env time)] in
      case curl_easy_init env of
        Some h \<Rightarrow> send_request env
          (Some (h\<lparr>rq_method := ''POST'', rq_follow := True, rq_protocol := ''https'',
                   rq_headers := [''Content-Type: application/json'']\<rparr>)) request_url request net
      | None \<Rightarrow> Inr (1, net))"

definition video_send ::
  "net_env \<Rightarrow> event_http \<Rightarrow> string \<Rightarrow> string \<Rightarrow> curl_request list \<Rightarrow> int \<times> curl_request list" where
  "video_send env eh path event_id net =
     (let request_url = eh_server_address eh @ ''/file'' in
      case curl_easy_init env of
        None \<Rightarrow> (0, net)
      | Some h \<Rightarrow>
         (let rq = h\<lparr>rq_method := ''POST'', rq_follow := True, rq_protocol := ''https'', rq_headers := [],
                     rq_body := Mime_post [Mime_data ''transactionid'' event_id,
                       Mime_data ''description'' (eh_uuid eh), Mime_file ''testfile'' path],
                     rq_url := request_url\<rparr>;
              (code, chunks) = ne_perform env rq in
          (if code \<noteq> 0 then 1 else 0, net @ [rq])))"

definition camerainfo_send ::
  "net_env \<Rightarrow> event_http \<Rightarrow> string \<Rightarrow> curl_request list \<Rightarrow> (int \<times> curl_request list) res" where
  "camerainfo_send env eh uuid net =
     (let request_url = eh_server_address eh @ ''/setup'';
          request = ne_write_json env [(''description'', uuid)] in
      case curl_easy_init env of
        Some h \<Rightarrow> send_request env
          (Some (h\<lparr>rq_method := ''POST'', rq_headers := [''Content-Type: application/json'']\<rparr>))
          request_url request net
      | None \<Rightarrow> Inr (1, net))"

subsection \<open>What a request depends on\<close>

text \<open>
  A server whose answers the client can take: at least one chunk per transfer, 1024 readable bytes
  behind each, a NUL among those of the last.
\<close>

definition answers :: "(string \<times> size_t \<times> size_t) list \<Rightarrow> bool" where
  "answers chunks \<longleftrightarrow> chunks \<noteq> [] \<and> (\<forall>(contents, _) \<in> set chunks. 1024 \<le> length contents) \<and>
     CHR 0x00 \<in> set (take 1024 (fst (last chunks)))"

definition server_ok :: "net_env \<Rightarrow> bool" where
  "server_ok env \<longleftrightarrow> (\<forall>rq. answers (snd (ne_perform env rq)))"

lemma receive_eq:
  assumes "\<forall>(contents, _) \<in> set chunks. 1024 \<le> length contents"
  shows "receive chunks = Inr (if chunks = [] then None else Some (take 1024 (fst (last chunks))))"
proof -
  have "rfold (\<lambda>chunk buf. rbind (event_send_callback chunk) (\<lambda>(_, b). Inr (Some b))) chunks buf =
      Inr (if chunks = [] then buf else Some (take 1024 (fst (last chunks))))" for buf
    using assms by (induction chunks arbitrary: buf) (auto simp: event_send_callback_def)
  then show ?thesis by (simp add: receive_def)
qed

lemma receive_short:
  assumes "\<exists>(contents, _) \<in> set chunks. length contents < 1024"
  shows "receive chunks = Inl OutOfBounds"
proof -
  from assms have "\<exists>c \<in> set chunks. length (fst c) < 1024" by (auto intro: bexI [rotated])
  then have "rfold (\<lambda>chunk buf. rbind (event_send_callback chunk) (\<lambda>(_, b). Inr (Some b))) chunks buf =
      Inl OutOfBounds" for buf
  proof (induction chunks arbitrary: buf)
    case Nil
    then show ?case by simp
  next
    case (Cons c cs)
    show ?case
    proof (cases "length (fst c) < 1024")
      case True
      then show ?thesis by (cases c) (simp add: event_send_callback_def)
    next
      case False
      with Cons.prems have "\<exists>c \<in> set cs. length (fst c) < 1024" by simp
      from Cons.IH [OF this] False show ?thesis
        by (cases c) (simp add: event_send_callback_def)
    qed
  qed
  then show ?thesis by (simp add: receive_def)
qed

lemma send_request_faults:
  assumes "ne_perform env (h\<lparr>rq_follow := True, rq_protocol := ''https'', rq_url := url, rq_callback := True,
      rq_agent := ''libcurl-agent/1.0'', rq_body := Post_fields payload\<rparr>) = (code, chunks)"
  shows "(\<exists>f. send_request env (Some h) url payload net = Inl f) \<longleftrightarrow> \<not> answers chunks"
proof (cases "\<forall>(contents, _) \<in> set chunks. 1024 \<le> length contents")
  case True
  then show ?thesis
    using assms by (auto simp: send_request_def receive_eq answers_def read_c_string_def)
next
  case False
  then have "\<exists>(contents, _) \<in> set chunks. length contents < 1024" by fastforce
  with False show ?thesis
    using assms by (auto simp: send_request_def receive_short answers_def)
qed

lemma send_request_ok:
  assumes "server_ok env"
  shows "\<exists>rq. send_request env (Some h) url payload net =
      Inr (if fst (ne_perform env rq) \<noteq> 0 then 2 else 0, net @ [rq]) \<and>
    rq = h\<lparr>rq_follow := True, rq_protocol := ''https'', rq_url := url, rq_callback := True,
      rq_agent := ''libcurl-agent/1.0'', rq_body := Post_fields payload\<rparr>"
proof -
  let ?rq = "h\<lparr>rq_follow := True, rq_protocol := ''https'', rq_url := url, rq_callback := True,
      rq_agent := ''libcurl-agent/1.0'', rq_body := Post_fields payload\<rparr>"
  obtain code chunks where p: "ne_perform env ?rq = (code, chunks)" by fastforce
  have "answers chunks" using assms p unfolding server_ok_def by (metis snd_conv)
  then show ?thesis
    using p by (auto simp: send_request_def receive_eq answers_def read_c_string_def)
qed

text \<open>The request \<open>event_send\<close> makes, and its effect with a server that answers.\<close>

definition event_request :: "net_env \<Rightarrow> event_http \<Rightarrow> int \<Rightarrow> curl_request" where
  "event_request env eh time =
     \<lparr>rq_method = ''POST'', rq_url = eh_server_address eh @ ''/event'',
      rq_headers = [''Content-Type: application/json''], rq_follow = True, rq_protocol = ''https'',
      rq_agent = ''libcurl-agent/1.0'',
      rq_body = Post_fields (ne_write_json env [(''description'', eh_uuid eh),
        (''unixtime'', to_string time), (''localtime'', ne_local_time env time)]),
      rq_callback = True\<rparr>"

lemma event_send_ok:
  assumes "server_ok env"
  shows "event_send env eh time net =
    (if ne_curl_init env then
       Inr (if fst (ne_perform env (event_request env eh time)) \<noteq> 0 then 2 else 0,
            net @ [event_request env eh time])
     else Inr (1, net))"
proof (cases "ne_curl_init env")
  case False
  then show ?thesis by (simp add: event_send_def curl_easy_init_def)
next
  case True
  then obtain h where h: "curl_easy_init env = Some h" by (simp add: curl_easy_init_def)
  from send_request_ok [OF assms, of "h\<lparr>rq_method := ''POST'', rq_follow := True,
      rq_protocol := ''https'', rq_headers := [''Content-Type: application/json'']\<rparr>"]
  show ?thesis
    using True h by (auto simp: event_send_def event_request_def curl_easy_init_def)
qed

end
