(* ===== verification/Event.thy ===== *)
theory Event
  imports Http_Client Camera
begin

text \<open>
  The event programs (\<open>src/event/\<close>): \<open>EventProcessor\<close> loads one program and runs it on the frames of
  its queue, \<open>EventHandler\<close> starts and stops them, \<open>EventInitializer\<close> starts every program found
  under \<open>event/\<close>.

  The dynamic loader is a parameter (\<open>dl_env\<close>), as is the value an uninitialised member has
  (\<open>junk\<close>).  An event program is a function of its five arguments.  A processor object lives in the
  handler's store, because \<open>stop_event\<close> frees it while its thread may still run.
\<close>

subsection \<open>EventProcessor\<close>

type_synonym event_function = "8 word list option \<Rightarrow> nat \<Rightarrow> int \<Rightarrow> int \<Rightarrow> int \<Rightarrow> int"

record 'h dl_env =
  dl_open :: "string \<Rightarrow> 'h option"
  dl_sym :: "'h \<Rightarrow> string \<Rightarrow> event_function option"

record junk =
  junk_fps :: int
  junk_enable :: bool

record 'h event_processor =
  ep_event_name :: string
  ep_fps :: int
  ep_enable :: bool
  ep_event_program :: "event_function option"
  ep_handle :: "'h option"

text \<open>\<open>is_positive\<close> accepts any name that \<open>stoi\<close> reads as a number that is not negative.\<close>

definition is_positive :: "string \<Rightarrow> bool" where
  "is_positive str = (case stoi str of Inl _ \<Rightarrow> False | Inr number \<Rightarrow> \<not> number < 0)"

text \<open>One entry of the event's directory.  \<open>enable_file >> enable\<close> fails out of the range of \<open>int\<close>.\<close>

definition read_entry ::
  "(path \<Rightarrow> bool) \<Rightarrow> path \<Rightarrow> string \<times> node \<Rightarrow> 'h event_processor \<Rightarrow> 'h event_processor" where
  "read_entry can_open dir entry p =
     (let (filename, n) = entry in
      if filename = ''enable'' then
        (case (if can_open (dir @ [filename]) then n else Dir) of
           Dir \<Rightarrow> p
         | File content \<Rightarrow>
            (case parse_int content of
               None \<Rightarrow> p
             | Some v \<Rightarrow> if in_int32 v then p\<lparr>ep_enable := (v \<noteq> 0)\<rparr> else p))
      else if is_positive filename then
        (case stoi filename of Inr v \<Rightarrow> p\<lparr>ep_fps := v\<rparr> | Inl _ \<Rightarrow> p)
      else p)"

definition event_init :: "'h dl_env \<Rightarrow> 'h event_processor \<Rightarrow> int \<times> 'h event_processor" where
  "event_init dl p =
     (let n = ep_event_name p;
          h = dl_open dl (''./event/'' @ n @ ''/'' @ n @ ''.so'') in
      case h of
        None \<Rightarrow> (1, p\<lparr>ep_handle := None\<rparr>)
      | Some handle \<Rightarrow>
         (let f = dl_sym dl handle ''event_main'' in
          (if f = None then 2 else 0, p\<lparr>ep_handle := h, ep_event_program := f\<rparr>)))"

text \<open>What the constructor reads from the program's directory, and the library it opens.\<close>

definition load_processor ::
  "'h dl_env \<Rightarrow> junk \<Rightarrow> (path \<Rightarrow> bool) \<Rightarrow> path \<Rightarrow> fs \<Rightarrow> string \<Rightarrow> 'h event_processor" where
  "load_processor dl junk can_open cwd fs event_name =
     (let dir = resolve cwd (''event/'' @ event_name);
          p = \<lparr>ep_event_name = event_name, ep_fps = junk_fps junk, ep_enable = junk_enable junk,
               ep_event_program = None, ep_handle = None\<rparr>;
          p1 = (case directory_iterator fs dir of
                  Inl _ \<Rightarrow> p
                | Inr entries \<Rightarrow> fold (read_entry can_open dir) entries p) in
      snd (event_init dl p1))"

text \<open>
  The constructor first takes the instance of \<open>EventHandlerHTTP\<close>, whose first use builds it and the
  \<open>VideoHandler\<close> and may throw: \<open>get_handlers\<close>, on the state that holds the singletons.  \<open>load\<close> is
  \<open>load_processor\<close> with its loader.
\<close>

definition event_processor_ctor ::
  "('b \<Rightarrow> ('e \<times> 'b) res) \<Rightarrow> ('b \<Rightarrow> fs) \<Rightarrow> (fs \<Rightarrow> string \<Rightarrow> 'h event_processor) \<Rightarrow> string \<Rightarrow> 'b \<Rightarrow>
     ('h event_processor \<times> 'b) res" where
  "event_processor_ctor get_handlers files load event_name b =
     rbind (get_handlers b) (\<lambda>(_, b1). Inr (load (files b1) event_name, b1))"

text \<open>One frame: run the program, report a positive result to the server.  The call's status is dropped.\<close>

definition event_exec ::
  "net_env \<Rightarrow> event_http \<Rightarrow> 'h event_processor \<Rightarrow> vbuf \<Rightarrow> curl_request list \<Rightarrow>
     (int \<times> curl_request list) res" where
  "event_exec env eh p buffer net =
     (case ep_event_program p of
        None \<Rightarrow> Inl NullDeref
      | Some event_program \<Rightarrow>
         (let ret = event_program (vb_data buffer) (vb_size buffer) (vb_time buffer)
                      (get_width (vb_meta buffer)) (get_height (vb_meta buffer)) in
          if ret < 0 then Inr (1, net)
          else if ret \<noteq> 0 then
            rbind (event_send env eh (vb_time buffer) net) (\<lambda>(_, net1). Inr (0, net1))
          else Inr (0, net)))"

text \<open>
  \<open>event_loop\<close> subscribes, then takes frames until \<open>pop\<close> returns null.  \<open>event_popped\<close> is a round from the
  return of \<open>pop\<close> on; one that finds nothing blocks inside \<open>pop\<close>.
\<close>

datatype thread_status = Blocked | Ended | Running

definition event_enter :: "'h event_processor \<Rightarrow> vqueue \<Rightarrow> vqueue res" where
  "event_enter p q =
     (let (info, q1) = new_info \<lparr>ti_is_run = ep_enable p, ti_fps = ep_fps p\<rparr> q in
      rbind (insert_event (ep_event_name p) (Some info) q1) (\<lambda>(_, q2). Inr q2))"

definition event_popped ::
  "net_env \<Rightarrow> event_http \<Rightarrow> 'h event_processor \<Rightarrow> vqueue \<times> curl_request list \<Rightarrow> (addr option \<times> vqueue) option \<Rightarrow>
     (thread_status \<times> vqueue \<times> curl_request list) res" where
  "event_popped env eh p qn r =
     (let (q, net) = qn in
      case r of
        None \<Rightarrow> Inr (Blocked, q, net)
      | Some (None, q1) \<Rightarrow> Inr (Ended, q1, net)
      | Some (Some a, q1) \<Rightarrow>
          rbind (read_buf a q1) (\<lambda>buffer.
          rbind (event_exec env eh p buffer net) (\<lambda>(_, net1).
          rbind (delete_buf a q1) (\<lambda>q2. Inr (Running, q2, net1)))))"

definition event_round ::
  "net_env \<Rightarrow> event_http \<Rightarrow> 'h event_processor \<Rightarrow> vqueue \<times> curl_request list \<Rightarrow>
     (thread_status \<times> vqueue \<times> curl_request list) res" where
  "event_round env eh p qn = rbind (pop (ep_event_name p) (fst qn)) (event_popped env eh p qn)"

fun event_rounds ::
  "nat \<Rightarrow> net_env \<Rightarrow> event_http \<Rightarrow> 'h event_processor \<Rightarrow> vqueue \<times> curl_request list \<Rightarrow>
     (thread_status \<times> vqueue \<times> curl_request list) res" where
  "event_rounds 0 env eh p qn = Inr (Running, qn)"
| "event_rounds (Suc n) env eh p qn =
     rbind (event_round env eh p qn) (\<lambda>(st, qn1).
       if st = Running then event_rounds n env eh p qn1 else Inr (st, qn1))"

subsection \<open>EventHandler\<close>

record 'h event_handler =
  h_event_thread :: "(string, addr) umap"
  h_processors :: "addr \<Rightarrow> 'h event_processor option"
  h_next :: addr
  h_running :: "addr list"

definition event_handler_ctor :: "'h event_handler" where
  "event_handler_ctor = \<lparr>h_event_thread = [], h_processors = (\<lambda>_. None), h_next = 0, h_running = []\<rparr>"

text \<open>
  \<open>start_event\<close>: a new processor, entered under the name unless the name is taken (\<open>emplace\<close>), and a
  detached thread on it.  \<open>make_processor\<close> is what the constructor yields; in a request it is
  \<open>load_processor\<close>, because the instance of \<open>EventHandlerHTTP\<close> that serves the request exists.
\<close>

definition start_event ::
  "(string \<Rightarrow> 'h event_processor) \<Rightarrow> string \<Rightarrow> 'h event_handler \<Rightarrow> int \<times> 'h event_handler" where
  "start_event make_processor name h =
     (let a = h_next h in
      (0, h\<lparr>h_processors := (h_processors h)(a \<mapsto> make_processor name), h_next := Suc a,
            h_event_thread := um_emplace name a (h_event_thread h), h_running := h_running h @ [a]\<rparr>))"

definition stop_event ::
  "string \<Rightarrow> 'h event_handler \<times> vqueue \<Rightarrow> (int \<times> 'h event_handler \<times> vqueue) res" where
  "stop_event name hq =
     (let (h, q) = hq in
      rbind (remove_event name q) (\<lambda>(_, q1).
      case um_find (h_event_thread h) name of
        None \<Rightarrow> Inl EndIterator
      | Some a \<Rightarrow>
         (case h_processors h a of
            None \<Rightarrow> Inl DoubleFree
          | Some _ \<Rightarrow> Inr (0, h\<lparr>h_processors := (h_processors h)(a := None)\<rparr>, q1))))"

text \<open>
  A step of the thread running on the processor at an address: a round from its start, or the rest of one
  that waits in \<open>pop\<close>, which works on its own copy of the name.  What follows the wait uses the processor again.
\<close>

definition thread_round ::
  "net_env \<Rightarrow> event_http \<Rightarrow> addr \<Rightarrow> 'h event_handler \<Rightarrow> vqueue \<times> curl_request list \<Rightarrow>
     (thread_status \<times> vqueue \<times> curl_request list) res" where
  "thread_round env eh a h qn =
     (case h_processors h a of None \<Rightarrow> Inl UseAfterFree | Some p \<Rightarrow> event_round env eh p qn)"

definition thread_resume ::
  "net_env \<Rightarrow> event_http \<Rightarrow> addr \<Rightarrow> string \<Rightarrow> 'h event_handler \<Rightarrow> vqueue \<times> curl_request list \<Rightarrow>
     (thread_status \<times> vqueue \<times> curl_request list) res" where
  "thread_resume env eh a name h qn =
     rbind (pop_resume name (fst qn)) (\<lambda>r.
     if r = None then Inr (Blocked, qn)
     else case h_processors h a of None \<Rightarrow> Inl UseAfterFree | Some p \<Rightarrow> event_popped env eh p qn r)"

subsection \<open>EventInitializer\<close>

record event_initializer =
  ei_event_names :: "string list"

text \<open>\<open>ctor\<close> is the constructor of the processors, on the state that holds the singletons.\<close>

definition event_initializer_init ::
  "(string \<Rightarrow> 'b \<Rightarrow> ('h event_processor \<times> 'b) res) \<Rightarrow> path \<Rightarrow> fs \<Rightarrow> event_initializer \<times> 'h event_handler \<times> 'b \<Rightarrow>
     (int \<times> event_initializer \<times> 'h event_handler \<times> 'b) res" where
  "event_initializer_init ctor cwd fs eihb =
     rbind (throw_uncaught (directory_iterator fs (resolve cwd ''event''))) (\<lambda>entries.
     rbind (rfold (\<lambda>(name, _) (ei, h, b).
              rbind (ctor name b) (\<lambda>(p, b1).
              Inr (ei\<lparr>ei_event_names := ei_event_names ei @ [name]\<rparr>, snd (start_event (\<lambda>_. p) name h), b1)))
              entries eihb) (\<lambda>r. Inr (0, r)))"

definition event_initializer_start :: "event_initializer \<Rightarrow> int \<times> event_initializer" where
  "event_initializer_start ei = (0, ei)"

definition event_initializer_stop ::
  "event_initializer \<Rightarrow> 'h event_handler \<times> vqueue \<Rightarrow> (int \<times> 'h event_handler \<times> vqueue) res" where
  "event_initializer_stop ei hq =
     rbind (rfold (\<lambda>name hq. rbind (stop_event name hq) (\<lambda>(_, hq1). Inr hq1)) (ei_event_names ei) hq)
       (\<lambda>hq1. Inr (0, hq1))"

end
