(* ===== verification/Video.thy ===== *)
theory Video
  imports Config Cxx_Fs
begin

text \<open>
  \<open>video::VideoHandler\<close> (\<open>src/video/VideoHandler.cpp\<close>): the recordings under the save path, named by
  the time they begin, the clip built for an event out of those that overlap it, and the removal
  of old ones; and the name \<open>format_location_callback\<close> gives a recording
  (\<open>src/video/GstreamerCallbacks.cpp\<close>).

  GStreamer is a parameter (\<open>gst_env\<close>): whether a pipeline description parses, whether it starts, the
  results of polling its bus (\<open>None\<close> for a poll that times out), and what the finished pipeline has
  written.  The file lock is part of the state; a call that has to wait for it, or for the bus,
  forever has no result (\<open>None\<close>).
\<close>

subsection \<open>State and parameters\<close>

datatype gst_message = Msg_error | Msg_eos

record gst_env =
  ge_parse_launch :: "string \<Rightarrow> bool"
  ge_set_playing :: "string \<Rightarrow> bool"
  ge_bus :: "string \<Rightarrow> gst_message option list"
  ge_written :: "string \<Rightarrow> fs \<Rightarrow> fs"

record 'p video_handler =
  vh_video_config :: "'p video_config option"
  vh_file_lock :: bool

definition deref :: "'a option \<Rightarrow> 'a res" where
  "deref p = (case p of None \<Rightarrow> Inl NullDeref | Some x \<Rightarrow> Inr x)"

lemma deref_simps [simp, res_simps]: "deref None = Inl NullDeref" "deref (Some x) = Inr x"
  by (simp_all add: deref_def)

definition video_handler_ctor ::
  "path \<Rightarrow> 'p video_config option \<Rightarrow> fs \<Rightarrow> ('p video_handler \<times> fs) res" where
  "video_handler_ctor cwd cfg fs =
     rbind (deref cfg) (\<lambda>c.
     rbind (throw_uncaught (create_directory (resolve cwd (save_path c)) fs)) (\<lambda>fs1.
     rbind (throw_uncaught (create_directory (resolve cwd (save_path c @ ''/event'')) fs1)) (\<lambda>fs2.
     Inr (\<lparr>vh_video_config = cfg, vh_file_lock = False\<rparr>, fs2))))"

subsection \<open>Clips\<close>

definition clip_path :: "string \<Rightarrow> string \<Rightarrow> string" where
  "clip_path save event_id = save @ ''/event/'' @ event_id @ ''.mp4''"

definition has_filename :: "string \<Rightarrow> bool" where
  "has_filename p \<longleftrightarrow> last (split_slash p) \<noteq> []"

text \<open>The result is the status and the string assigned to \<open>path\<close>, if any.\<close>

definition get_video :: "'p video_handler \<Rightarrow> string \<Rightarrow> int \<Rightarrow> (int \<times> string option) res" where
  "get_video h event_id timestamp =
     rbind (deref (vh_video_config h)) (\<lambda>c.
       let p = clip_path (save_path c) event_id in
       Inr (if \<not> has_filename p then (-1, None) else (0, Some p)))"

subsection \<open>Listing the recordings\<close>

definition extension :: "string \<Rightarrow> string" where
  "extension name =
     (let tail = takeWhile (\<lambda>c. c \<noteq> CHR ''.'') (rev name) in
      if CHR ''.'' \<notin> set name \<or> Suc (length tail) = length name \<or> name = ''..'' then []
      else CHR ''.'' # rev tail)"

text \<open>
  \<open>std::sort\<close> compares every element of a list of two or more, so its comparator throws if any name
  does not begin with a number in the range of \<open>int\<close>.  It leaves the order of names with the same number open;
  the model keeps the directory's.
\<close>

definition sort_names :: "string list \<Rightarrow> string list exn" where
  "sort_names files =
     (if length files \<le> 1 then Inr files
      else case List.find (\<lambda>f. \<not> (case stoi f of Inr _ \<Rightarrow> True | Inl _ \<Rightarrow> False)) files of
             Some f \<Rightarrow> (case stoi f of Inl e \<Rightarrow> Inl e | Inr _ \<Rightarrow> Inr files)
           | None \<Rightarrow> Inr (sort_key (\<lambda>f. case stoi f of Inr v \<Rightarrow> v | Inl _ \<Rightarrow> 0) files))"

definition set_filename :: "fs \<Rightarrow> path \<Rightarrow> string list \<Rightarrow> string list exn" where
  "set_filename fs p files =
     (case directory_iterator fs p of
        Inl e \<Rightarrow> Inl e
      | Inr entries \<Rightarrow>
          sort_names (fold (\<lambda>(filename, n) files.
              if is_file n \<and> extension filename = ''.mp4'' \<and> filename \<notin> set files
              then files @ [filename] else files) entries files))"

definition file_timestamp :: "string \<Rightarrow> int res" where
  "file_timestamp file =
     throw_uncaught (case str_substr file 0 (str_find file ''.'' 0) of Inl e \<Rightarrow> Inl e | Inr s \<Rightarrow> stoi s)"

subsection \<open>process\_video\<close>

definition concat_pipeline :: "string \<Rightarrow> string \<Rightarrow> string list \<Rightarrow> string" where
  "concat_pipeline save event_id files =
     ''concat name=c ! queue ! m.video_0 qtmux name=m ! filesink location='' @ clip_path save event_id @
     concat (map (\<lambda>f. '' filesrc location='' @ save @ ''/'' @ f @ '' ! qtdemux ! h264parse ! c.'') files)"

definition select_file :: "int \<Rightarrow> int \<Rightarrow> int \<Rightarrow> string \<Rightarrow> string list \<Rightarrow> string list res" where
  "select_file split start_time end_time file concat_file =
     rbind (file_timestamp file) (\<lambda>t.
     rbind (int_add t split) (\<lambda>e.
     rbind (int_sub e 1) (\<lambda>end_file.
     Inr (if t \<le> end_time \<and> end_file \<ge> start_time then concat_file @ [file] else concat_file))))"

fun bus_loop :: "gst_message option list \<Rightarrow> gst_message option" where
  "bus_loop [] = None"
| "bus_loop (Some msg # polls) = Some msg"
| "bus_loop (None # polls) = bus_loop polls"

definition process_video ::
  "gst_env \<Rightarrow> path \<Rightarrow> int \<Rightarrow> string \<Rightarrow> 'p video_handler \<times> fs \<Rightarrow>
     (int \<times> 'p video_handler \<times> fs) option res" where
  "process_video gst cwd timestamp event_id hf =
     (let (h, fs) = hf in
      rbind (deref (vh_video_config h)) (\<lambda>c.
      rbind (split_time c) (\<lambda>ns.
      rbind (int_div ns 1000000000) (\<lambda>split.
      if vh_file_lock h then Inr None
      else
        rbind (chk64 (timestamp - duration c)) (\<lambda>s.
        rbind (chk64 (timestamp + duration c)) (\<lambda>e.
        rbind (throw_uncaught (set_filename fs (resolve cwd (save_path c)) [])) (\<lambda>path_files.
        rbind (rfold (select_file split (to_int32 s) (to_int32 e)) path_files []) (\<lambda>concat_file.
        let unlocked = h\<lparr>vh_file_lock := False\<rparr> in
        if concat_file = [] then Inr (Some (-1, unlocked, fs))
        else
          let pipeline = concat_pipeline (save_path c) event_id concat_file in
          if \<not> ge_parse_launch gst pipeline then Inr (Some (-1, unlocked, fs))
          else if \<not> ge_set_playing gst pipeline then Inr (Some (-1, unlocked, fs))
          else case bus_loop (ge_bus gst pipeline) of
              None \<Rightarrow> Inr None
            | Some msg \<Rightarrow> Inr (Some (0, unlocked, ge_written gst pipeline fs))))))))))"

subsection \<open>remove\_video\<close>

definition remove_old :: "path \<Rightarrow> string \<Rightarrow> int \<Rightarrow> int \<Rightarrow> string \<Rightarrow> fs \<Rightarrow> fs res" where
  "remove_old cwd p now maintain_time file fs =
     rbind (file_timestamp file) (\<lambda>t.
     rbind (int_sub now maintain_time) (\<lambda>limit.
     if t < limit then throw_uncaught (remove_file (resolve cwd (p @ ''/'' @ file)) fs)
     else Inr fs))"

definition remove_video ::
  "path \<Rightarrow> int \<Rightarrow> int \<Rightarrow> string \<Rightarrow> 'p video_handler \<times> fs \<Rightarrow> (int \<times> 'p video_handler \<times> fs) option res" where
  "remove_video cwd time maintain_time p hf =
     (let (h, fs) = hf in
      if vh_file_lock h then Inr None
      else
        rbind (deref (vh_video_config h)) (\<lambda>c.
        rbind (throw_uncaught (set_filename fs (resolve cwd (save_path c)) [])) (\<lambda>path_files.
        rbind (rfold (remove_old cwd p (to_int32 time) maintain_time) path_files fs) (\<lambda>fs1.
        Inr (Some (0, h\<lparr>vh_file_lock := False\<rparr>, fs1))))))"

subsection \<open>Recording\<close>

definition format_location_callback :: "int \<Rightarrow> string" where
  "format_location_callback t = ''video/'' @ to_string t @ ''.mp4''"

end
