(* ===== verification/Http_Server.thy ===== *)
theory Http_Server
  imports Event Video
begin

text \<open>
  The HTTP server: the request handlers of \<open>http::EventHandlerHTTP\<close>
  (\<open>src/http/EventHandlerHTTP.cpp\<close>), the routing (\<open>src/http/libmicrohttpd_handler.cpp\<close>), the code run when
  a request completes (\<open>src/http/post_request_complete.cpp\<close>) and \<open>HttpInitializer\<close>
  (\<open>src/http/HttpInitializer.cpp\<close>).

  libmicrohttpd is a parameter (\<open>mhd_env\<close>): whether a response object is created and queued, whether
  a post processor is created, and the calls a post processor makes to its iterator for a piece of
  the body.  The result of a handler is its return value, the value of \<open>*con_cls\<close> and of \<open>*size\<close>
  after it, and the world; \<open>None\<close> when it waits forever.  Queued responses are logged.
\<close>

subsection \<open>Connections\<close>

record 'pp connection_info =
  cn_connection_type :: int
  cn_postprocessor :: "'pp option"
  cn_file_name :: string
  cn_fps :: string
  cn_file_content :: string
  cn_upload_done :: bool

record event_info =
  ev_time_stamp :: int
  ev_id :: string

datatype http_method = GET | POST

fun method_code :: "http_method \<Rightarrow> int" where
  "method_code GET = 0"
| "method_code POST = 1"

text \<open>\<open>new connection_info()\<close> zeroes the object.\<close>

definition new_connection_info :: "'pp connection_info" where
  "new_connection_info = \<lparr>cn_connection_type = 0, cn_postprocessor = None, cn_file_name = '''',
     cn_fps = '''', cn_file_content = '''', cn_upload_done = False\<rparr>"

text \<open>
  A call of the iterator: the key, a piece of its value, the memory behind that piece, and the offset of
  the piece.
\<close>

type_synonym piece = "string \<times> string \<times> string \<times> nat"

record 'pp mhd_env =
  mhd_create_response :: "string \<Rightarrow> bool"
  mhd_queue :: "int \<Rightarrow> string \<Rightarrow> bool"
  mhd_create_post_processor :: "'pp option"
  mhd_iterations :: "'pp \<Rightarrow> string \<Rightarrow> piece list \<times> 'pp"

record ('p, 'h) http_world =
  w_fs :: fs
  w_http :: event_http
  w_video :: "'p video_handler"
  w_events :: "'h event_handler"
  w_queue :: vqueue
  w_responses :: "(int \<times> string) list"
  w_video_threads :: "(string \<times> string) list"

definition MHD_NO :: int where "MHD_NO = 0"
definition MHD_YES :: int where "MHD_YES = 1"

lemmas mhd_result = MHD_NO_def MHD_YES_def

definition queue_response :: "'pp mhd_env \<Rightarrow> int \<Rightarrow> string \<Rightarrow> ('p, 'h) http_world \<Rightarrow> int \<times> ('p, 'h) http_world" where
  "queue_response mhd status payload w =
     (if mhd_queue mhd status payload
      then (MHD_YES, w\<lparr>w_responses := w_responses w @ [(status, payload)]\<rparr>) else (MHD_NO, w))"

definition send_response :: "'pp mhd_env \<Rightarrow> string \<Rightarrow> int \<Rightarrow> ('p, 'h) http_world \<Rightarrow> int \<times> ('p, 'h) http_world" where
  "send_response mhd payload status w =
     (if \<not> mhd_create_response mhd payload then (MHD_NO, w) else queue_response mhd status payload w)"

subsection \<open>Events\<close>

definition strtoll :: "string \<Rightarrow> int" where
  "strtoll s = (case parse_int s of None \<Rightarrow> 0 | Some v \<Rightarrow> max (- (2 ^ 63)) (min v (2 ^ 63 - 1)))"

definition event_header_iter :: "string \<times> string \<Rightarrow> event_info \<Rightarrow> int \<times> event_info" where
  "event_header_iter header info =
     (let (key, value) = header;
          info1 = (if key = ''transactionid'' then info\<lparr>ev_id := value\<rparr>
                   else if key = ''eventtime'' then info\<lparr>ev_time_stamp := strtoll value\<rparr>
                   else info) in
      (if ev_id info1 \<noteq> [] \<and> ev_time_stamp info1 \<noteq> 0 then MHD_NO else MHD_YES, info1))"

text \<open>\<open>MHD_get_connection_values\<close>: the headers in order until the iterator returns \<open>MHD_NO\<close>.\<close>

fun iterate_headers :: "(string \<times> string) list \<Rightarrow> event_info \<Rightarrow> event_info" where
  "iterate_headers [] info = info"
| "iterate_headers (h # hs) info =
     (case event_header_iter h info of (r, info1) \<Rightarrow> if r = MHD_NO then info1 else iterate_headers hs info1)"

definition event_accept ::
  "'pp mhd_env \<Rightarrow> gst_env \<Rightarrow> path \<Rightarrow> (string \<times> string) list \<Rightarrow> ('p, 'h) http_world \<Rightarrow>
     (int \<times> ('p, 'h) http_world) option res" where
  "event_accept mhd gst cwd headers w =
     (let event = iterate_headers headers \<lparr>ev_time_stamp = 0, ev_id = ''''\<rparr> in
      if ev_id event = [] then Inr (Some (send_response mhd ''id is emtpy'' 400 w))
      else if ev_time_stamp event = 0 then Inr (Some (send_response mhd ''time is empty'' 400 w))
      else
        rbind (process_video gst cwd (ev_time_stamp event) (ev_id event) (w_video w, w_fs w)) (\<lambda>r.
        case r of
          None \<Rightarrow> Inr None
        | Some (vid_ret, vh, fs1) \<Rightarrow>
           (let w1 = w\<lparr>w_video := vh, w_fs := fs1\<rparr> in
            if vid_ret \<noteq> 0 then Inr (Some (send_response mhd ''Internal Server Error'' 500 w1))
            else
              rbind (get_video vh (ev_id event) (ev_time_stamp event)) (\<lambda>(ret, vid_path).
              if ret = 0 then
                let w2 = w1\<lparr>w_video_threads := w_video_threads w1 @
                           [(case vid_path of None \<Rightarrow> '''' | Some p \<Rightarrow> p, ev_id event)]\<rparr> in
                Inr (Some (send_response mhd ''success'' 200 w2))
              else Inr (Some (send_response mhd ''event video is not exist'' 404 w1))))))"

definition video_accpet :: "int" where
  "video_accpet = 0"

subsection \<open>Uploading a program\<close>

definition iterate_program_post ::
  "piece \<Rightarrow> 'pp connection_info \<Rightarrow> (int \<times> 'pp connection_info) res" where
  "iterate_program_post call con_info =
     (let (key, data, after, off) = call;
          c1 = (if key = ''name'' then con_info\<lparr>cn_file_name := data\<rparr>
                else if key = ''fps'' then con_info\<lparr>cn_fps := data\<rparr>
                else if key = ''file'' then
                  con_info\<lparr>cn_file_content := (if off = 0 then [] else cn_file_content con_info) @ data\<rparr>
                else con_info) in
      Inr (if data = [] then MHD_NO else MHD_YES, c1))"

text \<open>\<open>file_name.assign(data)\<close> reads up to the first null character, wherever the piece ends.\<close>

definition c_string :: "string \<Rightarrow> string res" where
  "c_string s = (if CHR 0x00 \<in> set s then Inr (takeWhile (\<lambda>c. c \<noteq> CHR 0x00) s) else Inl OutOfBounds)"

definition iterate_get_filename ::
  "piece \<Rightarrow> 'pp connection_info \<Rightarrow> (int \<times> 'pp connection_info) res" where
  "iterate_get_filename call con_info =
     (let (key, data, after, off) = call in
      rbind (if key = ''name'' then rbind (c_string (data @ after)) (\<lambda>n. Inr (con_info\<lparr>cn_file_name := n\<rparr>))
             else Inr con_info) (\<lambda>c1.
      Inr (if data = [] then MHD_NO else MHD_YES, c1)))"

fun run_iterator ::
  "(piece \<Rightarrow> 'pp connection_info \<Rightarrow> (int \<times> 'pp connection_info) res) \<Rightarrow>
     piece list \<Rightarrow> 'pp connection_info \<Rightarrow> 'pp connection_info res" where
  "run_iterator it [] c = Inr c"
| "run_iterator it (call # calls) c =
     rbind (it call c) (\<lambda>(r, c1). if r = MHD_NO then Inr c1 else run_iterator it calls c1)"

text \<open>\<open>MHD_post_process\<close> on the post processor of the request.\<close>

definition post_process ::
  "'pp mhd_env \<Rightarrow> (piece \<Rightarrow> 'pp connection_info \<Rightarrow> (int \<times> 'pp connection_info) res) \<Rightarrow>
     string \<Rightarrow> 'pp connection_info \<Rightarrow> 'pp connection_info res" where
  "post_process mhd it data c =
     (case cn_postprocessor c of
        None \<Rightarrow> Inr c
      | Some pp \<Rightarrow>
         (let (calls, pp1) = mhd_iterations mhd pp data in
          rbind (run_iterator it calls c) (\<lambda>c1. Inr (c1\<lparr>cn_postprocessor := Some pp1\<rparr>))))"

type_synonym ('pp, 'p, 'h) handled = "(int \<times> 'pp connection_info option \<times> nat \<times> ('p, 'h) http_world) res"

text \<open>
  The branch for a post processor that could not be created deletes \<open>con_info\<close> and then reads it for
  a log message.
\<close>

definition program_accept ::
  "'pp mhd_env \<Rightarrow> 'pp connection_info option \<Rightarrow> string \<Rightarrow> ('p, 'h) http_world \<Rightarrow> ('pp, 'p, 'h) handled" where
  "program_accept mhd con_cls data w =
     (case con_cls of
        None \<Rightarrow>
          if eh_upload_client (w_http w) \<le> 0 then
            (let (r, w1) = send_response mhd ''program upload busy, try again later'' 503 w in
             Inr (r, None, length data, w1))
          else
            rbind (int_sub (eh_upload_client (w_http w)) 1) (\<lambda>n.
            let w1 = w\<lparr>w_http := (w_http w)\<lparr>eh_upload_client := n\<rparr>\<rparr> in
            case mhd_create_post_processor mhd of
              None \<Rightarrow> Inl UseAfterFree
            | Some pp \<Rightarrow>
                Inr (MHD_YES,
                  Some (new_connection_info\<lparr>cn_postprocessor := Some pp, cn_connection_type := method_code POST\<rparr>),
                  length data, w1))
      | Some con_info \<Rightarrow>
          if data \<noteq> [] then
            rbind (post_process mhd iterate_program_post data con_info) (\<lambda>c. Inr (MHD_YES, Some c, 0, w))
          else
            (let c = con_info\<lparr>cn_upload_done := True\<rparr>;
                 reply = (\<lambda>payload status. Inr (MHD_YES, Some c, 0, snd (send_response mhd payload status w))) in
             if str_contains (cn_file_name c) ''/'' then reply ''Invalid file name'' 400
             else case stoi (cn_fps c) of
                 Inl e \<Rightarrow> if e = Invalid_argument then reply ''Invalid fps value'' 400 else Inl (Uncaught e)
               | Inr fps \<Rightarrow>
                   if cn_file_name c = [] \<or> cn_file_content c = [] \<or> cn_fps c = [] then reply ''bad request'' 400
                   else if cn_upload_done c then reply ''program file saved'' 200
                   else Inr (MHD_YES, Some c, 0, w)))"

subsection \<open>Starting and stopping a program\<close>

definition post_open :: "'pp mhd_env \<Rightarrow> string \<Rightarrow> ('p, 'h) http_world \<Rightarrow> ('pp, 'p, 'h) handled" where
  "post_open mhd data w =
     (case mhd_create_post_processor mhd of
        None \<Rightarrow> (let (r, w1) = send_response mhd ''Internal Server Error'' 500 w in Inr (r, None, length data, w1))
      | Some pp \<Rightarrow> Inr (MHD_YES, Some (new_connection_info\<lparr>cn_postprocessor := Some pp\<rparr>), length data, w))"

definition program_start_accept ::
  "'pp mhd_env \<Rightarrow> (fs \<Rightarrow> string \<Rightarrow> 'h event_processor) \<Rightarrow> 'pp connection_info option \<Rightarrow> string \<Rightarrow>
     ('p, 'h) http_world \<Rightarrow> ('pp, 'p, 'h) handled" where
  "program_start_accept mhd make_processor con_cls data w =
     (case con_cls of
        None \<Rightarrow> post_open mhd data w
      | Some con_info \<Rightarrow>
          if data \<noteq> [] then
            rbind (post_process mhd iterate_get_filename data con_info) (\<lambda>c. Inr (MHD_YES, Some c, 0, w))
          else Inr (MHD_YES, con_cls, 0,
                 w\<lparr>w_events := snd (start_event (make_processor (w_fs w)) (cn_file_name con_info) (w_events w))\<rparr>))"

definition program_stop_accept ::
  "'pp mhd_env \<Rightarrow> 'pp connection_info option \<Rightarrow> string \<Rightarrow> ('p, 'h) http_world \<Rightarrow> ('pp, 'p, 'h) handled" where
  "program_stop_accept mhd con_cls data w =
     (case con_cls of
        None \<Rightarrow> post_open mhd data w
      | Some con_info \<Rightarrow>
          if data \<noteq> [] then
            rbind (post_process mhd iterate_get_filename data con_info) (\<lambda>c. Inr (MHD_YES, Some c, 0, w))
          else
            rbind (stop_event (cn_file_name con_info) (w_events w, w_queue w)) (\<lambda>(_, h, q).
            Inr (MHD_YES, con_cls, 0, w\<lparr>w_events := h, w_queue := q\<rparr>)))"

subsection \<open>Routing\<close>

definition libmicrohttpd_handler ::
  "'pp mhd_env \<Rightarrow> gst_env \<Rightarrow> (fs \<Rightarrow> string \<Rightarrow> 'h event_processor) \<Rightarrow> path \<Rightarrow> (string \<times> string) list \<Rightarrow>
     string \<Rightarrow> string \<Rightarrow> string \<Rightarrow> 'pp connection_info option \<Rightarrow> ('p, 'h) http_world \<Rightarrow>
     (int \<times> 'pp connection_info option \<times> nat \<times> ('p, 'h) http_world) option res" where
  "libmicrohttpd_handler mhd gst make_processor cwd headers url method upload_data con_cls w =
     (if url = ''/event'' \<and> method = ''POST'' then
        rbind (event_accept mhd gst cwd headers w) (\<lambda>r.
          Inr (map_option (\<lambda>(ret, w1). (ret, con_cls, length upload_data, w1)) r))
      else if url = ''/video'' then
        (let (ret, w1) = queue_response mhd 200 ''ok'' w in Inr (Some (ret, con_cls, length upload_data, w1)))
      else if url = ''/program'' \<and> method = ''POST'' then
        rbind (program_accept mhd con_cls upload_data w) (\<lambda>r. Inr (Some r))
      else if url = ''/program/start'' \<and> method = ''POST'' then
        rbind (program_start_accept mhd make_processor con_cls upload_data w) (\<lambda>r. Inr (Some r))
      else if url = ''/program/stop'' \<and> method = ''POST'' then
        rbind (program_stop_accept mhd con_cls upload_data w) (\<lambda>r. Inr (Some r))
      else
        (let (ret, w1) = queue_response mhd 404 ''Invalid Request'' w in
         Inr (Some (ret, con_cls, length upload_data, w1))))"

subsection \<open>Completion of a request\<close>

definition dir_exists :: "path \<Rightarrow> string \<Rightarrow> fs \<Rightarrow> bool" where
  "dir_exists cwd s fs = (case locate fs cwd s of None \<Rightarrow> False | Some p \<Rightarrow> is_directory fs p)"

text \<open>
  What the operating system answers beyond the state of the store, for one completion: which files can be
  opened, whether a directory can be made, and how the two removals of the event's directory end.  A
  removal succeeds (\<open>None\<close>) or throws \<open>filesystem_error\<close> after it has removed the paths listed.
\<close>

record os_env =
  os_open :: "path \<Rightarrow> bool"
  os_mkdir :: bool
  os_replace :: "path list option"
  os_cleanup :: "path list option"

text \<open>\<open>remove_all\<close>: whether it returned, and the store after it.\<close>

definition remove_tree :: "path list option \<Rightarrow> path \<Rightarrow> string \<Rightarrow> fs \<Rightarrow> bool \<times> fs" where
  "remove_tree failure cwd s fs =
     (case locate fs cwd s of
        None \<Rightarrow> (True, fs)
      | Some p \<Rightarrow>
         (case failure of
            None \<Rightarrow> (True, remove_all p fs)
          | Some gone \<Rightarrow> (False, filter (\<lambda>(q, _). \<not> (below p q \<and> q \<in> set gone)) fs)))"

definition make_directory :: "bool \<Rightarrow> path \<Rightarrow> string \<Rightarrow> fs \<Rightarrow> fs exn" where
  "make_directory possible cwd s fs =
     (case locate fs cwd s of
        None \<Rightarrow> Inl Filesystem_error
      | Some p \<Rightarrow>
          if possible \<or> is_directory fs p then create_directory p fs else Inl Filesystem_error)"

text \<open>An \<open>ofstream\<close> opened, written and closed: whether it was open, and the store after it.\<close>

definition write_file :: "(path \<Rightarrow> bool) \<Rightarrow> path \<Rightarrow> bool \<Rightarrow> string \<Rightarrow> string \<Rightarrow> fs \<Rightarrow> bool \<times> fs" where
  "write_file can_open cwd app s content fs =
     (case (case locate fs cwd s of None \<Rightarrow> None | Some p \<Rightarrow> map_option (Pair p) (open_out can_open app p fs)) of
        None \<Rightarrow> (False, fs)
      | Some (p, fs1) \<Rightarrow> (True, append_file p content fs1))"

definition event_directory :: "string \<Rightarrow> string" where
  "event_directory file_name = ''event/'' @ file_name @ ''/''"

definition save_program ::
  "(path \<Rightarrow> bool) \<Rightarrow> path \<Rightarrow> 'pp connection_info \<Rightarrow> fs \<Rightarrow> bool \<times> fs" where
  "save_program can_open cwd con_info fs =
     (let dir = event_directory (cn_file_name con_info);
          (ok1, fs1) = write_file can_open cwd False (dir @ cn_file_name con_info) (cn_file_content con_info) fs;
          (ok2, fs2) = write_file can_open cwd True (dir @ cn_fps con_info) '''' fs1;
          ok12 = (ok1 \<and> ok2);
          (ok3, fs3) = write_file can_open cwd True (dir @ ''enable'') (if ok12 then ''1'' else '''') fs2 in
      (ok12 \<and> ok3, fs3))"

definition release_slot :: "'pp connection_info \<Rightarrow> ('p, 'h) http_world \<Rightarrow> ('p, 'h) http_world res" where
  "release_slot con_info w =
     (if cn_postprocessor con_info \<noteq> None then
        rbind (int_add (eh_upload_client (w_http w)) 1) (\<lambda>n.
        Inr (w\<lparr>w_http := (w_http w)\<lparr>eh_upload_client := n\<rparr>\<rparr>))
      else Inr w)"

text \<open>
  What the callback leaves allocated for good: the object of the connection when it returns before
  \<open>delete\<close>, the post processor of a request that is not an upload.
\<close>

datatype 'pp leak = Lost_connection "'pp connection_info" | Lost_post_processor 'pp

definition lost_post_processor :: "'pp connection_info \<Rightarrow> 'pp leak list" where
  "lost_post_processor con_info =
     (case cn_postprocessor con_info of None \<Rightarrow> [] | Some pp \<Rightarrow> [Lost_post_processor pp])"

text \<open>
  Only the first removal and the making of the directory are inside the \<open>try\<close> block: a second removal
  that throws leaves the callback and ends the program.
\<close>

definition post_request_complete ::
  "'pp mhd_env \<Rightarrow> os_env \<Rightarrow> path \<Rightarrow> 'pp connection_info option \<Rightarrow> ('p, 'h) http_world \<Rightarrow>
     ('pp leak list \<times> ('p, 'h) http_world) res" where
  "post_request_complete mhd os cwd con_cls w =
     (case con_cls of
        None \<Rightarrow> Inr ([], w)
      | Some con_info \<Rightarrow>
          if cn_connection_type con_info \<noteq> method_code POST then Inr (lost_post_processor con_info, w)
          else
            rbind (release_slot con_info w) (\<lambda>w1.
            let con = con_info\<lparr>cn_postprocessor := None\<rparr>;
                reject = (\<lambda>payload w. Inr ([Lost_connection con], snd (queue_response mhd 400 payload w))) in
            if cn_file_name con_info = [] then reject ''filename is empty'' w1
            else if cn_file_content con_info = [] then reject ''file is empty'' w1
            else if cn_fps con_info = [] then reject ''fps is empty'' w1
            else
              let dir = event_directory (cn_file_name con_info);
                  (removed, fs1) = (if dir_exists cwd dir (w_fs w1) then remove_tree (os_replace os) cwd dir (w_fs w1)
                                    else (True, w_fs w1)) in
              case (if removed then make_directory (os_mkdir os) cwd dir fs1 else Inl Filesystem_error) of
                Inl e \<Rightarrow> reject ''Invalid file name'' (w1\<lparr>w_fs := fs1\<rparr>)
              | Inr fs2 \<Rightarrow>
                 (let (ok, fs3) = save_program (os_open os) cwd con_info fs2 in
                  if ok then
                    Inr ([], snd (queue_response mhd 200 ''Program saved successfully'' (w1\<lparr>w_fs := fs3\<rparr>)))
                  else
                    let (cleaned, fs4) = remove_tree (os_cleanup os) cwd dir fs3 in
                    if \<not> cleaned then Inl (Uncaught Filesystem_error)
                    else Inr ([], snd (queue_response mhd 200 ''Program save Error'' (w1\<lparr>w_fs := fs4\<rparr>))))))"

end
