(* ===== verification/Http_Init.thy ===== *)
theory Http_Init
  imports Http_Server
begin

text \<open>
  \<open>http::HttpInitializer\<close> (\<open>src/http/HttpInitializer.cpp\<close>): the camera's uuid and its registration with
  the remote server at the first boot, and the HTTP daemon; and the construction of
  \<open>EventHandlerHTTP\<close>, whose first use builds the \<open>VideoHandler\<close>.

  Starting the daemon is a parameter: whether it starts with the given arguments.  The random
  generator's result is the argument \<open>uuid\<close>.
\<close>

record daemon_args =
  da_port :: "16 word"
  da_pool :: int
  da_tls :: "(string \<times> string) option"

record 'p http_initializer =
  hi_uuid :: string
  hi_config :: "'p http_config option"
  hi_daemon :: "daemon_args option"

record 'p boot =
  bt_fs :: fs
  bt_handlers :: "('p video_handler \<times> event_http) option"
  bt_net :: "curl_request list"

definition http_initializer_ctor :: "'p http_config option \<Rightarrow> 'p http_initializer" where
  "http_initializer_ctor cfg = \<lparr>hi_uuid = '''', hi_config = cfg, hi_daemon = None\<rparr>"

text \<open>The members \<open>_video_handler\<close> and \<open>_event_handler\<close> are initialised before the constructor's body.\<close>

definition http_handlers ::
  "(path \<Rightarrow> bool) \<Rightarrow> path \<Rightarrow> 'p video_config option \<Rightarrow> 'p http_config option \<Rightarrow> 'p boot \<Rightarrow>
     (event_http \<times> 'p boot) res" where
  "http_handlers can_open cwd vcfg hcfg b =
     (case bt_handlers b of
        Some (vh, eh) \<Rightarrow> Inr (eh, b)
      | None \<Rightarrow>
          rbind (video_handler_ctor cwd vcfg (bt_fs b)) (\<lambda>(vh, fs1).
          rbind (event_http_ctor can_open cwd fs1 hcfg) (\<lambda>eh.
          Inr (eh, b\<lparr>bt_fs := fs1, bt_handlers := Some (vh, eh)\<rparr>))))"

definition has_uuid_file :: "(string \<times> node) list \<Rightarrow> bool" where
  "has_uuid_file entries = list_ex (\<lambda>(name, n). is_file n \<and> name = ''uuid'') entries"

text \<open>The first part of \<open>init\<close>: \<open>Inl r\<close> when it returns the status \<open>r\<close> there, \<open>Inr uuid\<close> otherwise.\<close>

definition init_uuid ::
  "net_env \<Rightarrow> (path \<Rightarrow> bool) \<Rightarrow> path \<Rightarrow> 'p video_config option \<Rightarrow> string \<Rightarrow> 'p http_initializer \<Rightarrow> 'p boot \<Rightarrow>
     ((int + string) \<times> 'p boot) res" where
  "init_uuid env can_open cwd vcfg uuid hi b =
     (let dir = resolve cwd ''system'' in
      rbind (if is_directory (bt_fs b) dir then Inr (bt_fs b)
             else throw_uncaught (create_directory dir (bt_fs b))) (\<lambda>fs1.
      rbind (throw_uncaught (directory_iterator fs1 dir)) (\<lambda>entries.
      if has_uuid_file entries then
        Inr (Inr (case open_in can_open (resolve cwd ''system/uuid'') fs1 of None \<Rightarrow> '''' | Some s \<Rightarrow> getline s),
             b\<lparr>bt_fs := fs1\<rparr>)
      else
        let (opened, fs2) = write_file can_open cwd False ''system/uuid'' uuid fs1 in
        rbind (http_handlers can_open cwd vcfg (hi_config hi) (b\<lparr>bt_fs := fs2\<rparr>)) (\<lambda>(eh, b1).
        rbind (camerainfo_send env eh uuid (bt_net b1)) (\<lambda>(ret, net1).
        Inr (if ret \<noteq> 0 then Inl 3 else Inr uuid, b1\<lparr>bt_net := net1\<rparr>))))))"

definition daemon_args_of :: "'p http_config \<Rightarrow> daemon_args" where
  "daemon_args_of c =
     (if http_tls_enable c \<noteq> 0 then
        \<lparr>da_port = word_of_int (http_port c), da_pool = http_thread_pool c, da_tls = Some (private_file c, crt_file c)\<rparr>
      else \<lparr>da_port = 8000, da_pool = http_thread_pool c, da_tls = None\<rparr>)"

definition http_init ::
  "(daemon_args \<Rightarrow> bool) \<Rightarrow> net_env \<Rightarrow> (path \<Rightarrow> bool) \<Rightarrow> path \<Rightarrow> 'p video_config option \<Rightarrow> string \<Rightarrow>
     'p http_initializer \<Rightarrow> 'p boot \<Rightarrow> (int \<times> 'p http_initializer \<times> 'p boot) res" where
  "http_init starts env can_open cwd vcfg uuid hi b =
     rbind (init_uuid env can_open cwd vcfg uuid hi b) (\<lambda>(r, b1).
     case r of
       Inl status \<Rightarrow> Inr (status, hi, b1)
     | Inr u \<Rightarrow>
         rbind (deref (hi_config hi)) (\<lambda>c.
         let args = daemon_args_of c;
             hi1 = hi\<lparr>hi_uuid := u, hi_daemon := (if starts args then Some args else None)\<rparr> in
         Inr (if hi_daemon hi1 = None then 1 else 0, hi1, b1)))"

definition http_start :: "'p http_initializer \<Rightarrow> int" where
  "http_start hi = (if hi_daemon hi = None then 1 else 0)"

definition http_stop :: "'p http_initializer \<Rightarrow> int" where
  "http_stop hi = 0"

end
