(* ===== verification/Video_Queue_Sharing.thy ===== *)
theory Video_Queue_Sharing
  imports Video_Queue_Run
begin

text \<open>
  What the threads that share the queue do to each other: no operation changes the device's rate, and
  \<open>queue_keeps\<close> says which subscriptions survive a step of another thread.
\<close>

subsection \<open>The queue's device rate\<close>

lemma rfold_delete_fps:
  assumes "rfold delete_buf q s = Inr s'"
  shows "q_device_fps s' = q_device_fps s"
proof (rule rfold_invariant [OF assms])
  fix a t t' assume "q_device_fps t = q_device_fps s" and "delete_buf a t = Inr t'"
  then show "q_device_fps t' = q_device_fps s" by (auto simp: delete_buf_def split: option.splits)
qed simp

lemma delete_buf_fps: "delete_buf a s = Inr s' \<Longrightarrow> q_device_fps s' = q_device_fps s"
  by (auto simp: delete_buf_def split: option.splits)

lemma pop_fps:
  assumes "pop e s = Inr (Some (x, s'))"
  shows "q_device_fps s' = q_device_fps s"
proof -
  from assms have "s' = s \<or> pop_finish e s = Inr (x, s')"
    by (auto simp: pop_def pop_resume_def rbind_eq_Inr split: if_splits)
  moreover have "q_device_fps s' = q_device_fps s" if f: "pop_finish e s = Inr (x, s')"
  proof -
    from f obtain running where r: "pop_is_run e s = Inr running" by (auto simp: pop_finish_def rbind_eq_Inr)
    show ?thesis
    proof (cases running)
      case False
      with f r show ?thesis by (auto simp: pop_finish_def)
    next
      case True
      with f r obtain q where "pop_output e s = Inr q" by (auto simp: pop_finish_def rbind_eq_Inr)
      with f r True show ?thesis by (cases q) (auto simp: pop_finish_def)
    qed
  qed
  ultimately show ?thesis by blast
qed

lemma insert_event_fps: "insert_event e ti s = Inr (r, s') \<Longrightarrow> q_device_fps s' = q_device_fps s"
  by (auto simp: insert_event_def Let_def write_info_def rbind_eq_Inr split: option.splits)

lemma remove_event_fps: "remove_event e s = Inr (r, s') \<Longrightarrow> q_device_fps s' = q_device_fps s"
  by (auto simp: remove_event_def Let_def write_info_def rbind_eq_Inr dest!: rfold_delete_fps
      split: option.splits)

lemmas queue_fps = delete_buf_fps pop_fps insert_event_fps remove_event_fps

lemma distribute_round_fps:
  assumes "distribute_round t s = Inr s'"
  shows "q_device_fps s' = q_device_fps s"
proof -
  have "q_device_fps u' = q_device_fps u" if "deliver t input x u = Inr u'" for input x u u'
    using that by (auto simp: deliver_def new_buf_def Let_def rbind_eq_Inr
        split: prod.splits if_splits option.splits)
  then have "q_device_fps u' = q_device_fps u"
    if "rfold (deliver t input) xs u = Inr u'" for input xs u u'
    using rfold_invariant [OF that, of "\<lambda>v. q_device_fps v = q_device_fps u"] by simp
  with assms delete_buf_fps show ?thesis
    by (fastforce simp: distribute_round_def rbind_eq_Inr split: if_splits list.splits)
qed

subsection \<open>Consumers\<close>

text \<open>What a consumer of an event does to the queue in one turn: nothing, the last \<open>pop\<close>, or a frame taken and freed.\<close>

definition consumed :: "string \<Rightarrow> vqueue \<Rightarrow> vqueue \<Rightarrow> bool" where
  "consumed name q q' \<longleftrightarrow> q' = q \<or> pop name q = Inr (Some (None, q')) \<or>
     (\<exists>a q1. pop name q = Inr (Some (Some a, q1)) \<and> delete_buf a q1 = Inr q')"

text \<open>
  What the threads of the program do to each other's subscriptions: a running subscription under a
  name outside \<open>X\<close> survives.
\<close>

definition queue_keeps :: "addr set \<Rightarrow> string set \<Rightarrow> vqueue \<Rightarrow> vqueue \<Rightarrow> bool" where
  "queue_keeps H X q q' \<longleftrightarrow> vq_inv H q' \<and> q_device_fps q' = q_device_fps q \<and>
     (\<forall>n i. n \<notin> X \<longrightarrow> abs_subs q n = Some i \<longrightarrow> ti_is_run i \<longrightarrow> abs_subs q' n = Some i)"

lemma queue_keeps_refl: "vq_inv H q \<Longrightarrow> queue_keeps H X q q"
  by (simp add: queue_keeps_def)

lemma queue_keeps_abs:
  "vq_inv H q' \<Longrightarrow> a_fps (abs_vq q') = a_fps (abs_vq q) \<Longrightarrow> a_subs (abs_vq q') = a_subs (abs_vq q) \<Longrightarrow>
   queue_keeps H X q q'"
  by (simp add: queue_keeps_def abs_vq_def)

lemma pop_subs:
  assumes inv: "vq_inv H q" and p: "pop name q = Inr (Some (x, q'))" and i: "abs_subs q n = Some i" "ti_is_run i"
  shows "abs_subs q' n = Some i"
proof (cases "um_find (q_thread_info q) name")
  case None
  with p i show ?thesis by (simp add: pop_unsubscribed)
next
  case (Some ti)
  then have "(name, ti) \<in> set (q_thread_info q)"
    using vq_invD(2) [OF inv] by (simp add: um_find_mem subs_ok_def)
  from subs_ok_entry [OF vq_invD(2) [OF inv] this] obtain j where j: "q_infos q ti = Some j" by metis
  from pop_cases [OF inv Some j] p obtain l where "q' = q\<lparr>q_output := l\<rparr> \<or>
      \<not> ti_is_run j \<and> q' = q\<lparr>q_thread_info := um_erase name (q_thread_info q)\<rparr>"
    by (fastforce split: if_splits list.splits)
  with i Some j show ?thesis by (auto simp: abs_subs_def um_find_erase split: option.splits if_splits)
qed

lemma consumed_keeps:
  assumes inv: "vq_inv H q" and c: "consumed name q q'"
  shows "queue_keeps H X q q'"
  using c unfolding consumed_def
proof (elim disjE exE conjE)
  assume "q' = q"
  then show ?thesis using queue_keeps_refl [OF inv] by simp
next
  assume p: "pop name q = Inr (Some (None, q'))"
  with pop_inv [OF inv, of name] pop_fps [OF p] pop_subs [OF inv p] show ?thesis by (auto simp: queue_keeps_def)
next
  fix a q1 assume p: "pop name q = Inr (Some (Some a, q1))" and d: "delete_buf a q1 = Inr q'"
  from pop_inv [OF inv, of name] p have a: "a \<notin> H" "vq_inv (insert a H) q1" by auto
  from delete_held [OF a(2), of a] d have "vq_inv (insert a H - {a}) q'" by auto
  moreover have "insert a H - {a} = H" using a(1) by simp
  moreover have "abs_subs q' = abs_subs q1"
    using d by (intro abs_subs_cong) (auto simp: delete_buf_def split: option.splits)
  ultimately show ?thesis
    using pop_fps [OF p] delete_buf_fps [OF d] pop_subs [OF inv p] by (simp add: queue_keeps_def)
qed

lemma captured_keeps:
  assumes inv: "vq_inv H q" and b: "frame_ok b" and nb: "new_buf b q = (a, q1)"
  shows "queue_keeps H X q (snd (push a q1))"
proof -
  note n = new_buf_inv [OF inv b nb]
  have "insert a H - {a} = H" using n(2) by simp
  with push_inv [OF n(1), of a] have "vq_inv H (snd (push a q1))" by simp
  then show ?thesis by (rule queue_keeps_abs) (simp_all add: push_abs n(3))
qed

lemma distributed_keeps:
  assumes inv: "vq_inv H q" and d: "distribute_round t q = Inr q'"
  shows "queue_keeps H X q q'"
proof (cases "q_enable q")
  case False
  with d inv show ?thesis by (simp add: distribute_round_def queue_keeps_refl)
next
  case True
  from distribute_round_sim [OF inv True distribute_round_served [OF d inv True], of t] d show ?thesis
    by (auto intro!: queue_keeps_abs simp: a_distribute_def Let_def split: list.splits)
qed

lemma subscribed_keeps:
  assumes inv: "vq_inv H q" and new: "new_info i q = (ti, q1)"
    and ins: "insert_event name (Some ti) q1 = Inr (r, q')"
  shows "queue_keeps H X q q'"
proof -
  note n = new_info_inv [OF inv new]
  from insert_event_inv(2) [OF inv new ins] have "vq_inv H q'" .
  moreover have "q_device_fps q' = q_device_fps q" using insert_event_fps [OF ins] n(6) by simp
  moreover have "abs_subs q' m = Some j" if j: "abs_subs q m = Some j" for m j
  proof (cases "um_find (q_thread_info q1) name")
    case None
    have "abs_subs q1 = abs_subs q" using n(4) by (simp add: abs_vq_def)
    moreover have "abs_subs q1 name = None" using None by (simp add: abs_subs_def)
    with \<open>abs_subs q1 = abs_subs q\<close> j have "m \<noteq> name" by auto
    moreover from ins None n(3) obtain p where p: "int_div (q_device_fps q1) (ti_fps i) = Inr p"
      by (auto simp: insert_event_def read_info_def rbind_eq_Inr)
    ultimately show ?thesis
      using insert_event_new [OF n(1) None n(3) p n(2)] ins j by auto
  next
    case (Some t)
    have "abs_subs q1 = abs_subs q" using n(4) by (simp add: abs_vq_def)
    with insert_event_dup [OF Some] ins j show ?thesis by simp
  qed
  ultimately show ?thesis by (simp add: queue_keeps_def)
qed

lemma rfold_delete_subs:
  assumes "rfold delete_buf q s = Inr s'"
  shows "q_thread_info s' = q_thread_info s \<and> q_infos s' = q_infos s"
  by (rule rfold_invariant [OF assms]) (auto simp: delete_buf_def split: option.splits)

lemma removed_keeps:
  assumes inv: "vq_inv H q" and rm: "remove_event name q = Inr (r, q')"
  shows "queue_keeps H {name} q q'"
proof -
  from remove_event_inv [OF inv, of name] rm have "vq_inv H q'" by simp
  moreover have "q_device_fps q' = q_device_fps q" by (rule remove_event_fps [OF rm])
  moreover have "abs_subs q' m = Some j" if m: "m \<noteq> name" "abs_subs q m = Some j" for m j
  proof (cases "um_find (q_thread_info q) name")
    case None
    with rm m show ?thesis
      by (auto simp: remove_event_def Let_def abs_subs_def rbind_eq_Inr dest!: rfold_delete_subs split: option.splits)
  next
    case (Some ti)
    then have "(name, ti) \<in> set (q_thread_info q)"
      using vq_invD(2) [OF inv] by (simp add: um_find_mem subs_ok_def)
    from subs_ok_entry [OF vq_invD(2) [OF inv] this] obtain l
      where "um_find (q_output q) name = Some l" by metis
    with remove_event_subscribed [OF inv Some] rm m show ?thesis by auto
  qed
  ultimately show ?thesis by (simp add: queue_keeps_def)
qed

subsection \<open>Rates that the device serves\<close>

text \<open>What no operation but a subscription at a bad rate takes away: every period is at least 1.\<close>

definition subs_within :: "vqueue \<Rightarrow> vqueue \<Rightarrow> bool" where
  "subs_within s s' \<longleftrightarrow> q_device_fps s' = q_device_fps s \<and> set (q_thread_info s') \<subseteq> set (q_thread_info s) \<and>
     (\<forall>ti. map_option ti_fps (q_infos s' ti) = map_option ti_fps (q_infos s ti))"

lemma served_within: "subs_within s s' \<Longrightarrow> served s \<Longrightarrow> served s'"
  by (auto simp: subs_within_def served_def periods_ok_def list_all_iff has_period_def)

lemma within_same:
  "q_device_fps s' = q_device_fps s \<Longrightarrow> q_thread_info s' = q_thread_info s \<Longrightarrow> q_infos s' = q_infos s \<Longrightarrow> subs_within s s'"
  by (simp add: subs_within_def)

lemma pop_within:
  assumes inv: "vq_inv H s" and p: "pop name s = Inr (Some (x, s'))"
  shows "subs_within s s'"
proof (cases "um_find (q_thread_info s) name")
  case None
  with p show ?thesis by (simp add: pop_unsubscribed subs_within_def)
next
  case (Some ti)
  then have "(name, ti) \<in> set (q_thread_info s)"
    using vq_invD(2) [OF inv] by (simp add: um_find_mem subs_ok_def)
  from subs_ok_entry [OF vq_invD(2) [OF inv] this] obtain i where "q_infos s ti = Some i" by metis
  from pop_cases [OF inv Some this] p show ?thesis
    by (auto simp: subs_within_def um_erase_def split: if_splits list.splits)
qed

lemma remove_within:
  assumes "remove_event name s = Inr (r, s')"
  shows "subs_within s s'"
proof (cases "um_find (q_thread_info s) name")
  case None
  with assms remove_event_fps [OF assms] show ?thesis
    by (auto simp: remove_event_def Let_def rbind_eq_Inr subs_within_def dest!: rfold_delete_subs split: option.splits)
next
  case (Some ti)
  have "\<exists>s2. q_thread_info s2 = q_thread_info s \<and> q_infos s2 = q_infos s \<and>
    s' = (write_info ti (\<lambda>i. i\<lparr>ti_is_run := False\<rparr>) s2)\<lparr>q_thread_info := um_erase name (q_thread_info s2)\<rparr>"
  proof (cases "um_find (q_output s) name")
    case None
    with Some assms show ?thesis by (auto simp: remove_event_def Let_def rbind_eq_Inr intro!: exI [of _ s])
  next
    case found: (Some l)
    with Some assms obtain s1 where "rfold delete_buf l s = Inr s1"
      "s' = (write_info ti (\<lambda>i. i\<lparr>ti_is_run := False\<rparr>) (s1\<lparr>q_output := um_erase name (q_output s1)\<rparr>))
        \<lparr>q_thread_info := um_erase name (q_thread_info s1)\<rparr>"
      by (auto simp: remove_event_def Let_def rbind_eq_Inr)
    with rfold_delete_subs [of l s s1] show ?thesis
      by (intro exI [of _ "s1\<lparr>q_output := um_erase name (q_output s1)\<rparr>"]) simp
  qed
  with remove_event_fps [OF assms] show ?thesis
    by (auto simp: subs_within_def um_erase_def write_info_def option.map_comp comp_def)
qed

lemma served_subscribe:
  assumes inv: "vq_inv H s" and rates: "served s" "0 < ti_fps i" "ti_fps i \<le> q_device_fps s"
    and new: "new_info i s = (ti, s1)" and ins: "insert_event name (Some ti) s1 = Inr (r, s')"
  shows "served s'"
proof -
  note n = new_info_inv [OF inv new]
  have s1: "served s1" using served_abs [OF vq_invD(2) [OF inv]] served_abs [OF vq_invD(2) [OF n(1)]] rates(1) n(4) by simp
  show ?thesis
  proof (cases "um_find (q_thread_info s1) name")
    case (Some t)
    from insert_event_dup [OF this] ins s1 show ?thesis by fastforce
  next
    case None
    have "in_int32 (q_device_fps s1)" using vq_invD(1) [OF n(1)] by (simp add: rates_ok_def)
    then have p: "int_div (q_device_fps s1) (ti_fps i) = Inr (q_device_fps s1 div ti_fps i)"
      using rates n(6) by (simp add: int_div_nonneg)
    from insert_event_new [OF n(1) None n(3) p n(2)] ins have s': "vq_inv H s'"
      "abs_subs s' = (abs_subs s1)(name \<mapsto> i\<lparr>ti_fps := q_device_fps s1 div ti_fps i\<rparr>)" "q_device_fps s' = q_device_fps s1"
      by auto
    have "0 < q_device_fps s1 div ti_fps i" using div_pos_int rates(2,3) n(6) by simp
    with s1 s' show ?thesis
      by (auto simp: served_def periods_ok_abs [OF vq_invD(2) [OF n(1)]] periods_ok_abs [OF vq_invD(2) [OF s'(1)]])
  qed
qed

lemma distribute_served:
  assumes inv: "vq_inv H s" and rates: "served s" and d: "distribute_round t s = Inr s'"
  shows "served s'"
proof (cases "q_enable s")
  case False
  with d rates show ?thesis by (simp add: distribute_round_def)
next
  case True
  from distribute_round_sim [OF inv True distribute_round_served [OF d inv True], of t] d
    served_distribute [OF inv rates] show ?thesis by auto
qed

lemma vq_step_served: "vq_step (H, s) (H', s') \<Longrightarrow> vq_inv H s \<Longrightarrow> served s \<Longrightarrow> served s'"
proof (induction "(H, s)" "(H', s')" arbitrary: H s H' s' rule: vq_step.induct)
  case (capture b s a s' H)
  then have "subs_within s s'" by (auto simp: new_buf_def intro: within_same)
  with capture served_within show ?case by blast
next
  case (pushes a H s r s')
  then have "subs_within s s'" by (auto simp: push_def intro: within_same)
  with pushes served_within show ?case by blast
next
  case (distributes t s s' H)
  then show ?case using distribute_served by blast
next
  case (subscribes i s ti s1 name r s' H)
  then show ?case using served_subscribe by blast
next
  case (pop_frame name s a s' H)
  then show ?case using served_within [OF pop_within] by blast
next
  case (pop_null name s s' H)
  then show ?case using served_within [OF pop_within] by blast
next
  case (removes name s r s' H)
  then show ?case using served_within [OF remove_within] by blast
next
  case (frees a H s s')
  then have "subs_within s s'" by (auto simp: delete_buf_def intro: within_same split: option.splits)
  with frees served_within show ?case by blast
next
  case (shuts_down H s)
  have "subs_within s (destroy_vqueue s)" by (simp add: destroy_vqueue_def within_same)
  with shuts_down served_within show ?case by blast
qed

lemma vq_reachable_served:
  assumes "0 < d" and "in_int32 (d + 1)" and "vq_reachable d c"
  shows "vq_inv (fst c) (snd c) \<and> served (snd c)"
  using assms(3)
proof (induction rule: vq_reachable.induct)
  case start
  have "in_int32 d" using assms(1,2) by (simp add: in_int32_def)
  with new_vqueue_inv [OF this] assms(2) show ?case by (simp add: served_def periods_ok_def new_vqueue_def)
next
  case (step c c')
  then show ?case by (metis prod.collapse vq_step_inv vq_step_served)
qed

end
