(* ===== verification/Video_Queue_Props.thy ===== *)
theory Video_Queue_Props
  imports Video_Queue_Sharing
begin

text \<open>
  The properties of \<open>VideoQueue\<close>: memory safety in every interleaving, what the distributor
  delivers and at which rate, subscription, unsubscription and \<open>pop\<close>, and the faults the code
  reaches outside the rates it is made for.
\<close>

subsection \<open>A concrete queue for the witnesses\<close>

definition demo_frame :: vbuf where
  "demo_frame = \<lparr>vb_meta = \<lparr>vm_type = 0, vm_width = 2, vm_height = 1\<rparr>, vb_time = 5,
    vb_data = Some [7, 8], vb_size = 2\<rparr>"

definition demo_info :: "int \<Rightarrow> thread_info" where
  "demo_info f = \<lparr>ti_is_run = True, ti_fps = f\<rparr>"

text \<open>Device at 2 frames per second, one event of rate 1 (period 2), two captured frames queued.\<close>

definition demo_queue :: vqueue where
  "demo_queue =
     \<lparr>q_device_fps = 2, q_input = [1, 2], q_frame_no = 0, q_output = [(''e'', [])],
      q_thread_info = [(''e'', 0)], q_enable = True,
      q_bufs = [1 \<mapsto> demo_frame, 2 \<mapsto> demo_frame],
      q_infos = [0 \<mapsto> demo_info 2], q_next = 3\<rparr>"

lemma demo_queue_inv: "vq_inv {} demo_queue"
  by (auto simp: vq_inv_def rates_ok_def subs_ok_def bufs_ok_def demo_queue_def in_int32_def
      um_wf_def um_find_def owned_def demo_frame_def demo_info_def frame_ok_def split: if_splits)

lemma demo_queue_served: "served demo_queue"
  by (simp add: served_def periods_ok_def has_period_def demo_queue_def demo_info_def in_int32_def)

text \<open>The same queue before the event subscribed, its \<open>ThreadInfo\<close> allocated with rate \<open>f\<close>.\<close>

definition demo_fresh :: "int \<Rightarrow> vqueue" where
  "demo_fresh f = demo_queue\<lparr>q_output := [], q_thread_info := [], q_infos := [0 \<mapsto> demo_info f]\<rparr>"

lemma demo_fresh_inv: "vq_inv {} (demo_fresh f)"
  by (auto simp: vq_inv_def rates_ok_def subs_ok_def bufs_ok_def demo_queue_def in_int32_def
      um_wf_def um_find_def owned_def demo_frame_def demo_info_def frame_ok_def demo_fresh_def
      split: if_splits)

lemma demo_fresh_served: "served (demo_fresh f)"
  by (simp add: served_def periods_ok_def demo_fresh_def demo_queue_def in_int32_def)

text \<open>The event with one frame waiting.\<close>

definition demo_waiting :: vqueue where
  "demo_waiting = demo_queue\<lparr>q_input := [2], q_frame_no := 1, q_output := [(''e'', [1])]\<rparr>"

lemma demo_waiting_inv: "vq_inv {} demo_waiting"
  by (auto simp: vq_inv_def rates_ok_def subs_ok_def bufs_ok_def demo_queue_def in_int32_def
      um_wf_def um_find_def owned_def demo_frame_def demo_info_def frame_ok_def demo_waiting_def
      split: if_splits)

subsection \<open>Safety\<close>

text \<open>
  C6: In every state the camera, the distributors, the event threads and the control thread can
  reach by any interleaving of their steps, with events whose rates lie between 1 and the device
  rate, no operation of the queue faults (no freed frame is read or freed again, no division by
  zero), and the live frames are exactly those in the queue, each there once, and those held by a
  caller: nothing leaks.
\<close>
theorem vq_reachable_safe:
  assumes "0 < d" and "in_int32 (d + 1)" and "vq_reachable d (H, s)"
  shows "(\<exists>s'. distribute_round t s = Inr s') \<and> (\<exists>r. pop name s = Inr r) \<and>
    (\<exists>r. remove_event name s = Inr r) \<and>
    dom (q_bufs s) = H \<union> set (owned s) \<and> distinct (owned s) \<and> H \<inter> set (owned s) = {}"
proof -
  have inv: "vq_inv H s" and "served s" using vq_reachable_served [OF assms] by simp_all
  then have "can_distribute s" using served_can_distribute vq_invD(1) by blast
  with distribute_round_returns [OF inv, of t] pop_inv [OF inv, of name]
    remove_event_inv [OF inv, of name] vq_invD(3) [OF inv]
  show ?thesis by (auto simp: bufs_ok_def)
qed

theorem vq_reachable_safe_witness:
  "vq_reachable 60 ({0}, snd (new_buf demo_frame (new_vqueue 60))) \<and>
   (\<exists>r. remove_event ''sdp'' (snd (new_buf demo_frame (new_vqueue 60))) = Inr r)"
proof -
  have "vq_step ({}, new_vqueue 60) ({0}, snd (new_buf demo_frame (new_vqueue 60)))"
    by (rule vq_step.capture [of demo_frame])
      (simp_all add: frame_ok_def demo_frame_def new_buf_def new_vqueue_def)
  then have r: "vq_reachable 60 ({0}, snd (new_buf demo_frame (new_vqueue 60)))"
    by (rule vq_reachable.step [OF vq_reachable.start])
  have "(0::int) < 60" and "in_int32 (60 + 1)" by (simp_all add: in_int32_def)
  from vq_reachable_safe [OF this r, of 0 "''sdp''"] r show ?thesis by blast
qed

subsection \<open>Distribution\<close>

text \<open>
  C7: One round of the distributor refines the abstract machine: it takes the oldest input frame,
  advances the frame number (wrapping after the device rate), appends a copy of the frame stamped
  with the current time to the queue of exactly those events whose period divides the frame
  number, changes no other queue, frees the input frame and keeps the invariant.  It needs a frame number
  that can be counted up and no subscription of period 0 (\<open>can_distribute\<close>).
\<close>
theorem distribute_round_refines:
  assumes "vq_inv H s" and "q_enable s" and "q_input s = [] \<or> can_distribute s"
  shows "\<exists>s'. distribute_round t s = Inr s' \<and> vq_inv H s' \<and>
    abs_vq s' = a_distribute t (abs_vq s)"
  using distribute_round_sim [OF assms(1,2), of t] assms(3) by metis

theorem distribute_round_refines_witness:
  "\<exists>s'. distribute_round 9 demo_queue = Inr s' \<and> abs_vq s' = a_distribute 9 (abs_vq demo_queue)"
  using distribute_round_refines [OF demo_queue_inv, of 9] served_can_distribute [OF vq_invD(1) [OF demo_queue_inv] demo_queue_served]
  by (auto simp: demo_queue_def)

text \<open>
  C8: What an event's queue holds after any number of rounds is what it held before followed by
  copies of exactly the frames whose number its period divides, in capture order, each with the
  time of its own round, as long as no subscription has period 0 and the device's rate can be counted past.
\<close>
theorem distributed_frames:
  assumes "vq_inv H s" and "q_enable s" and "served s" and "abs_subs s e = Some i" and "abs_queue s e = Some q"
    and "length ts \<le> length (q_input s)"
  shows "\<exists>s'. distribute_rounds ts s = Inr s' \<and>
    abs_queue s' e = Some (q @ deliveries (ti_fps i) ts (map (buf_at s) (q_input s))
      (frame_numbers (q_device_fps s) (q_frame_no s) (length ts)))"
  using distribute_rounds_queue [OF assms] by blast

theorem distributed_frames_witness:
  "\<exists>s'. distribute_rounds [10, 11] demo_queue = Inr s' \<and>
     abs_queue s' ''e'' = Some [frame_copy 11 demo_frame]"
proof -
  have "abs_subs demo_queue ''e'' = Some (demo_info 2)" and "abs_queue demo_queue ''e'' = Some []"
    and "q_enable demo_queue" and "length [10, 11::int] \<le> length (q_input demo_queue)"
    by (simp_all add: abs_subs_def abs_queue_def demo_queue_def um_find_def)
  from distributed_frames [OF demo_queue_inv this(3) demo_queue_served this(1,2,4)] show ?thesis
    by (simp add: demo_queue_def demo_info_def buf_at_def deliveries_def a_next_frame_def
        eval_nat_numeral)
qed

text \<open>
  C9: The rate guarantee.  An event that subscribes with rate \<open>f\<close>, between 1 and the device rate
  \<open>d\<close>, receives over any \<open>d\<close> consecutive rounds (one second of the device, from any frame number)
  the same number of frames, \<open>d div (d div f)\<close>: never fewer than \<open>f\<close> and always fewer than \<open>2 f\<close>.
\<close>
theorem subscription_rate:
  assumes inv: "vq_inv H s" and en: "q_enable s" and rates: "served s" and i: "q_infos s ti = Some i"
    and f: "0 < ti_fps i" "ti_fps i \<le> q_device_fps s"
    and new: "um_find (q_thread_info s) e = None" "ti \<notin> snd ` set (q_thread_info s)"
    and ts: "length ts = nat (q_device_fps s)" "length ts \<le> length (q_input s)"
  shows "\<exists>s1 s2 q n. insert_event e (Some ti) s = Inr (0, s1) \<and>
    distribute_rounds ts s1 = Inr s2 \<and>
    abs_queue s1 e = Some q \<and> map_option length (abs_queue s2 e) = Some (length q + n) \<and>
    n = nat (q_device_fps s div (q_device_fps s div ti_fps i)) \<and>
    ti_fps i \<le> int n \<and> int n < 2 * ti_fps i"
proof -
  let ?d = "q_device_fps s" and ?p = "q_device_fps s div ti_fps i"
  have "int_div ?d (ti_fps i) = Inr ?p"
    using vq_invD(1) [OF inv] f by (simp add: int_div_nonneg rates_ok_def)
  from insert_event_new [OF inv new(1) i this new(2)] obtain s1 where
    s1: "insert_event e (Some ti) s = Inr (0, s1)" "vq_inv H s1"
      "abs_subs s1 e = Some (i\<lparr>ti_fps := ?p\<rparr>)" "q_input s1 = q_input s"
      "q_frame_no s1 = q_frame_no s" "q_device_fps s1 = ?d" "q_enable s1" and
    subs: "abs_subs s1 = (abs_subs s)(e \<mapsto> i\<lparr>ti_fps := ?p\<rparr>)" and
    q0: "abs_queue s1 = (abs_queue s)(e \<mapsto> (case abs_queue s e of None \<Rightarrow> [] | Some q \<Rightarrow> q))"
    using en by auto
  obtain q where q: "abs_queue s1 e = Some q" by (simp add: q0)
  have "served s1"
    using rates div_pos_int [OF f] subs s1(6)
    by (auto simp: served_def periods_ok_abs [OF vq_invD(2) [OF inv]] periods_ok_abs [OF vq_invD(2) [OF s1(2)]])
  from distribute_rounds_queue [OF s1(2,7) this s1(3) q, of ts] ts obtain s2 where
    s2: "distribute_rounds ts s1 = Inr s2" and
    q2: "abs_queue s2 e = Some (q @ deliveries ?p ts (map (buf_at s1) (q_input s))
      (frame_numbers ?d (q_frame_no s) (nat ?d)))"
    by (auto simp: s1(4,5,6))
  have r: "0 < ?d" "0 \<le> q_frame_no s" "q_frame_no s \<le> ?d"
    using vq_invD(1) [OF inv] f by (simp_all add: rates_ok_def max_def split: if_splits)
  have "length (deliveries ?p ts (map (buf_at s1) (q_input s)) (frame_numbers ?d (q_frame_no s) (nat ?d)))
      = nat (?d div ?p)"
    using ts due_count [OF div_pos_int [OF f] r] by (subst length_deliveries) simp_all
  with q2 have "map_option length (abs_queue s2 e) = Some (length q + nat (?d div ?p))" by simp
  moreover have "ti_fps i \<le> int (nat (?d div ?p))" "int (nat (?d div ?p)) < 2 * ti_fps i"
    using period_rate [OF f] f(1) by simp_all
  ultimately show ?thesis using s1(1) s2 q by blast
qed

theorem subscription_rate_witness:
  "\<exists>s1 s2 q n. insert_event ''e'' (Some 0) (demo_fresh 2) = Inr (0, s1) \<and>
     distribute_rounds [10, 11] s1 = Inr s2 \<and> abs_queue s1 ''e'' = Some q \<and>
     map_option length (abs_queue s2 ''e'') = Some (length q + n) \<and> (2::int) \<le> int n"
proof -
  have "q_enable (demo_fresh 2)" and "served (demo_fresh 2)" and "q_infos (demo_fresh 2) 0 = Some (demo_info 2)"
    and "0 < ti_fps (demo_info 2)" and "ti_fps (demo_info 2) \<le> q_device_fps (demo_fresh 2)"
    and "um_find (q_thread_info (demo_fresh 2)) ''e'' = None"
    and "0 \<notin> snd ` set (q_thread_info (demo_fresh 2))"
    and "length [10, 11::int] = nat (q_device_fps (demo_fresh 2))"
    and "length [10, 11::int] \<le> length (q_input (demo_fresh 2))"
    using demo_fresh_served [of 2] by (simp_all add: demo_fresh_def demo_queue_def demo_info_def)
  from subscription_rate [OF demo_fresh_inv this] show ?thesis
    by (simp add: demo_info_def) blast
qed

subsection \<open>Subscribing and unsubscribing\<close>

text \<open>
  C12: Rates the code does not handle.  Subscribing with rate 0 divides by zero inside
  \<open>insert_event\<close>.  Subscribing with a rate above the device's succeeds with period 0, whatever else is
  subscribed and at whatever rates, and the next round that finds a frame takes the frame number modulo 0.
\<close>
theorem bad_rates_fault:
  assumes inv: "vq_inv H s" and en: "q_enable s" and inp: "q_input s \<noteq> []"
    and i: "q_infos s ti = Some i" and new: "um_find (q_thread_info s) e = None"
    and tinew: "ti \<notin> snd ` set (q_thread_info s)"
    and d: "0 \<le> q_device_fps s" "in_int32 (q_device_fps s + 1)"
  shows "(ti_fps i = 0 \<longrightarrow> insert_event e (Some ti) s = Inl DivByZero) \<and>
    (q_device_fps s < ti_fps i \<longrightarrow>
      (\<exists>s1. insert_event e (Some ti) s = Inr (0, s1) \<and> distribute_round t s1 = Inl DivByZero))"
  using fast_subscription [OF inv en inp new i tinew d]
  by (simp add: insert_event_def new i read_info_def)

theorem bad_rates_fault_witness:
  "insert_event ''e'' (Some 0) (demo_fresh 0) = Inl DivByZero \<and>
   (\<exists>s1. insert_event ''e'' (Some 0) (demo_fresh 30) = Inr (0, s1) \<and>
      distribute_round 9 s1 = Inl DivByZero)"
proof -
  have h: "q_enable (demo_fresh f)" "q_input (demo_fresh f) \<noteq> []" "um_find (q_thread_info (demo_fresh f)) e = None"
    "0 \<notin> snd ` set (q_thread_info (demo_fresh f))" "q_infos (demo_fresh f) 0 = Some (demo_info f)" "0 \<le> q_device_fps (demo_fresh f)"
    "in_int32 (q_device_fps (demo_fresh f) + 1)" "q_device_fps (demo_fresh f) = 2" for f e
    by (simp_all add: demo_fresh_def demo_queue_def in_int32_def)
  from bad_rates_fault [OF demo_fresh_inv h(1,2,5,3,4,6,7), of 0 "''e''" 9]
    bad_rates_fault [OF demo_fresh_inv h(1,2,5,3,4,6,7), of 30 "''e''" 9]
  show ?thesis by (simp add: h(8) demo_info_def)
qed

text \<open>
  C10: Unsubscribing.  \<open>remove_event\<close> of a subscribed event returns 0, frees every frame waiting in
  its queue and no other, clears its run flag, removes its entries from both tables and leaves
  every other event as it was; of an unknown event it returns 1 and changes nothing.
\<close>
theorem remove_event_contract:
  assumes inv: "vq_inv H s"
  shows "(case um_find (q_thread_info s) name of
      Some ti \<Rightarrow> \<exists>s' q. remove_event name s = Inr (0, s') \<and> um_find (q_output s) name = Some q \<and>
        q_bufs s' = (\<lambda>a. if a \<in> set q then None else q_bufs s a) \<and>
        map_option ti_is_run (q_infos s' ti) = Some False \<and>
        abs_subs s' = (abs_subs s)(name := None) \<and> abs_queue s' = (abs_queue s)(name := None)
    | None \<Rightarrow> um_find (q_output s) name = None \<longrightarrow> remove_event name s = Inr (1, s))"
proof (cases "um_find (q_thread_info s) name")
  case None
  then show ?thesis by (simp add: remove_event_unknown)
next
  case (Some ti)
  then have "(name, ti) \<in> set (q_thread_info s)"
    using vq_invD(2) [OF inv] by (simp add: um_find_mem subs_ok_def)
  from subs_ok_entry [OF vq_invD(2) [OF inv] this] obtain q
    where "um_find (q_output s) name = Some q" by metis
  with remove_event_subscribed [OF inv Some this] Some show ?thesis by auto
qed

theorem remove_event_contract_witness:
  "\<exists>s'. remove_event ''e'' demo_waiting = Inr (0, s') \<and> q_bufs s' 1 = None \<and>
     abs_queue s' ''e'' = None"
  using remove_event_contract [OF demo_waiting_inv, of "''e''"]
  by (auto simp: demo_waiting_def demo_queue_def um_find_def)

text \<open>
  C13: A thread that entered \<open>pop\<close> and is waiting reads through \<open>end()\<close> when it next evaluates its
  wait predicate after \<open>remove_event\<close> removed its event: the entry is erased before the waiter is
  gone, and the run flag it was meant to see can no longer be reached.
\<close>
theorem remove_while_waiting_faults:
  assumes inv: "vq_inv H s" and waiting: "pop_check name s"
  shows "\<exists>s'. remove_event name s = Inr (0, s') \<and> pop_wait_pred name s' = Inl EndIterator"
proof -
  from waiting obtain ti q where "um_find (q_thread_info s) name = Some ti"
    and "um_find (q_output s) name = Some q" by (auto simp: pop_check_def)
  from remove_event_subscribed [OF inv this] obtain s' where "remove_event name s = Inr (0, s')"
    and "q_thread_info s' = um_erase name (q_thread_info s)" by blast
  then show ?thesis by (auto simp: pop_wait_pred_def pop_is_run_def um_find_erase)
qed

theorem remove_while_waiting_faults_witness:
  "\<exists>s'. remove_event ''e'' demo_queue = Inr (0, s') \<and> pop_wait_pred ''e'' s' = Inl EndIterator"
  by (rule remove_while_waiting_faults [OF demo_queue_inv])
    (simp add: pop_check_def demo_queue_def um_find_def)

text \<open>
  C11: \<open>pop\<close> is first in, first out: for a running event with a frame waiting it returns the oldest
  one, still live, removes only that one, and hands its ownership to the caller; with no frame
  waiting the caller blocks; for an event whose run flag is off it returns null.
\<close>
theorem pop_fifo:
  assumes inv: "vq_inv H s" and sub: "abs_subs s name = Some i"
  shows "if \<not> ti_is_run i then \<exists>s'. pop name s = Inr (Some (None, s')) \<and> abs_subs s' name = None
    else case abs_queue s name of
        Some (b # bs) \<Rightarrow> \<exists>a s'. pop name s = Inr (Some (Some a, s')) \<and> q_bufs s' a = Some b \<and>
          abs_queue s' = (abs_queue s)(name \<mapsto> bs) \<and> vq_inv (insert a H) s' \<and> a \<notin> H
      | _ \<Rightarrow> pop name s = Inr None"
proof -
  from sub obtain ti where ti: "um_find (q_thread_info s) name = Some ti" and i: "q_infos s ti = Some i"
    by (auto simp: abs_subs_def split: option.splits)
  from pop_cases [OF inv ti i] obtain q where q: "um_find (q_output s) name = Some q"
    and p: "pop name s =
      (if \<not> ti_is_run i then Inr (Some (None, s\<lparr>q_thread_info := um_erase name (q_thread_info s)\<rparr>))
       else case q of [] \<Rightarrow> Inr None
         | a # rest \<Rightarrow> Inr (Some (Some a, s\<lparr>q_output := um_modify name (\<lambda>_. rest) (q_output s)\<rparr>)))"
    by blast
  show ?thesis
  proof (cases "ti_is_run i")
    case False
    with p show ?thesis by (simp add: abs_subs_def um_find_erase)
  next
    case True
    show ?thesis
    proof (cases q)
      case Nil
      with True p q show ?thesis by (simp add: abs_queue_def)
    next
      case (Cons a rest)
      note t = pop_take_inv [OF inv q [unfolded Cons]]
      have "a \<in> set (owned s)" using owned_output [OF q] Cons by auto
      then obtain b where "q_bufs s a = Some b" using bufs_ok_live [OF vq_invD(3) [OF inv]] by blast
      with True p Cons t show ?thesis by (simp add: buf_at_def)
    qed
  qed
qed

theorem pop_fifo_witness:
  "\<exists>a s'. pop ''e'' demo_waiting = Inr (Some (Some a, s')) \<and> q_bufs s' a = Some demo_frame \<and>
     abs_queue s' ''e'' = Some []"
proof -
  have "abs_subs demo_waiting ''e'' = Some (demo_info 2)"
    and q: "abs_queue demo_waiting ''e'' = Some [demo_frame]"
    by (simp_all add: abs_subs_def abs_queue_def demo_waiting_def demo_queue_def um_find_def buf_at_def)
  from pop_fifo [OF demo_waiting_inv this(1)] show ?thesis
    by (auto simp: q demo_info_def)
qed

text \<open>
  An event that starts disabled leaves its queue behind.  Its first \<open>pop\<close> returns null and
  drops only the \<open>ThreadInfo\<close> entry; the frames distributed meanwhile stay allocated, and when an
  event subscribes again under the name it is handed those old frames first.
\<close>
theorem disabled_event_leaves_frames:
  assumes inv: "vq_inv H s" and sub: "abs_subs s name = Some i" and off: "\<not> ti_is_run i"
    and q: "abs_queue s name = Some q" and j: "0 < ti_fps j" "ti_fps j \<le> q_device_fps s"
  shows "\<exists>s1 ti s2 s3. pop name s = Inr (Some (None, s1)) \<and> abs_queue s1 name = Some q \<and>
    new_info j s1 = (ti, s2) \<and> insert_event name (Some ti) s2 = Inr (0, s3) \<and>
    abs_queue s3 name = Some q"
proof -
  from sub obtain ti where ti: "um_find (q_thread_info s) name = Some ti" and i: "q_infos s ti = Some i"
    by (auto simp: abs_subs_def split: option.splits)
  define s1 where "s1 = s\<lparr>q_thread_info := um_erase name (q_thread_info s)\<rparr>"
  from pop_cases [OF inv ti i] off have p: "pop name s = Inr (Some (None, s1))" by (auto simp: s1_def)
  have inv1: "vq_inv H s1" unfolding s1_def by (rule pop_disabled_inv [OF inv])
  have q1: "abs_queue s1 = abs_queue s" by (rule abs_queue_bufs_cong) (simp_all add: s1_def)
  obtain t s2 where n: "new_info j s1 = (t, s2)" by (cases "new_info j s1")
  note ni = new_info_inv [OF inv1 n]
  have "abs_queue s2 = abs_queue s1" using ni(4) by (simp add: abs_vq_def)
  moreover have "um_find (q_thread_info s2) name = None" by (simp add: ni(5) s1_def um_find_erase)
  moreover have "int_div (q_device_fps s2) (ti_fps j) = Inr (q_device_fps s2 div ti_fps j)"
    using j vq_invD(1) [OF ni(1)] by (simp add: ni(6) s1_def int_div_nonneg rates_ok_def)
  ultimately show ?thesis
    using insert_event_new [OF ni(1) _ ni(3) _ ni(2), of name] p n q q1 by auto
qed

theorem disabled_event_leaves_frames_witness:
  "\<exists>s1 ti s2 s3. pop ''e'' (demo_waiting\<lparr>q_infos := [0 \<mapsto> (demo_info 2)\<lparr>ti_is_run := False\<rparr>]\<rparr>) =
       Inr (Some (None, s1)) \<and>
     new_info (demo_info 1) s1 = (ti, s2) \<and> insert_event ''e'' (Some ti) s2 = Inr (0, s3) \<and>
     abs_queue s3 ''e'' = Some [demo_frame]"
proof -
  let ?s = "demo_waiting\<lparr>q_infos := [0 \<mapsto> (demo_info 2)\<lparr>ti_is_run := False\<rparr>]\<rparr>"
  have inv: "vq_inv {} ?s"
    by (auto simp: vq_inv_def rates_ok_def subs_ok_def bufs_ok_def demo_queue_def in_int32_def
        um_wf_def um_find_def owned_def demo_frame_def demo_info_def frame_ok_def demo_waiting_def
        split: if_splits)
  have "abs_subs ?s ''e'' = Some ((demo_info 2)\<lparr>ti_is_run := False\<rparr>)"
    and "\<not> ti_is_run ((demo_info 2)\<lparr>ti_is_run := False\<rparr>)"
    and "abs_queue ?s ''e'' = Some [demo_frame]"
    and "0 < ti_fps (demo_info 1)" and "ti_fps (demo_info 1) \<le> q_device_fps ?s"
    by (simp_all add: abs_subs_def abs_queue_def demo_waiting_def demo_queue_def um_find_def
        buf_at_def demo_info_def)
  from disabled_event_leaves_frames [OF inv this] show ?thesis by blast
qed

end
