(* ===== verification/Event_Props.thy ===== *)
theory Event_Props
  imports Event Video_Queue_Props
begin

text \<open>
  What the event programs guarantee, over the models of \<open>Event\<close> and the queue of \<open>Video_Queue\<close>: the
  rate a processor gets, a missing library, the order in which frames are processed and reported,
  and the life of a processor between start and stop.
\<close>

subsection \<open>Loading\<close>

definition is_rate_file :: "string \<times> node \<Rightarrow> bool" where
  "is_rate_file entry \<longleftrightarrow> fst entry \<noteq> ''enable'' \<and> is_positive (fst entry)"

lemma read_entry_frame:
  "ep_event_name (read_entry can_open dir e p) = ep_event_name p"
  "ep_event_program (read_entry can_open dir e p) = ep_event_program p"
  by (cases e; simp add: read_entry_def split: node.split option.split sum.split)+

lemma read_entry_fps:
  "ep_fps (read_entry can_open dir e p) =
     (if is_rate_file e then (case stoi (fst e) of Inr v \<Rightarrow> v | Inl _ \<Rightarrow> ep_fps p) else ep_fps p)"
  by (cases e) (simp add: read_entry_def is_rate_file_def split: node.split option.split sum.split)

lemma read_entries_frame:
  "ep_event_name (fold (read_entry can_open dir) es p) = ep_event_name p \<and>
   ep_event_program (fold (read_entry can_open dir) es p) = ep_event_program p"
  by (induction es arbitrary: p) (simp_all add: read_entry_frame)

lemma read_entries_fps:
  "if filter is_rate_file es = [] then ep_fps (fold (read_entry can_open dir) es p) = ep_fps p
   else stoi (fst (last (filter is_rate_file es))) = Inr (ep_fps (fold (read_entry can_open dir) es p))"
proof (induction es arbitrary: p)
  case Nil
  then show ?case by simp
next
  case (Cons e es)
  show ?case
  proof (cases "is_rate_file e")
    case False
    then have "ep_fps (read_entry can_open dir e p) = ep_fps p" by (simp add: read_entry_fps)
    with Cons.IH [of "read_entry can_open dir e p"] False show ?thesis by simp
  next
    case True
    then obtain v where "stoi (fst e) = Inr v"
      by (auto simp: is_rate_file_def is_positive_def split: sum.splits)
    with True have "ep_fps (read_entry can_open dir e p) = v" by (simp add: read_entry_fps)
    with Cons.IH [of "read_entry can_open dir e p"] True \<open>stoi (fst e) = Inr v\<close> show ?thesis
      by (auto split: if_splits)
  qed
qed

lemma event_init_frame:
  "ep_event_name (snd (event_init dl p)) = ep_event_name p"
  "ep_fps (snd (event_init dl p)) = ep_fps p"
  "ep_enable (snd (event_init dl p)) = ep_enable p"
  by (simp_all add: event_init_def Let_def split: option.split)

text \<open>
  The rate of a processor is the number that \<open>stoi\<close> reads at the front of the name of the last
  listed file of its directory for which that gives a number that is not negative, the program's own
  library included; with no such file the member is left uninitialised.
\<close>
theorem processor_rate:
  assumes "directory_iterator fs (resolve cwd (''event/'' @ name)) = Inr entries"
  shows "let p = load_processor dl junk can_open cwd fs name; rates = filter is_rate_file entries in
    ep_event_name p = name \<and>
    (if rates = [] then ep_fps p = junk_fps junk else stoi (fst (last rates)) = Inr (ep_fps p))"
proof -
  define p0 :: "'a event_processor" where "p0 = \<lparr>ep_event_name = name, ep_fps = junk_fps junk,
    ep_enable = junk_enable junk, ep_event_program = None, ep_handle = None\<rparr>"
  define p1 where "p1 = fold (read_entry can_open (resolve cwd (''event/'' @ name))) entries p0"
  have "load_processor dl junk can_open cwd fs name = snd (event_init dl p1)"
    unfolding load_processor_def Let_def assms p1_def p0_def by simp
  then show ?thesis
    using read_entries_fps [of entries can_open "resolve cwd (''event/'' @ name)" p0]
      read_entries_frame [of can_open "resolve cwd (''event/'' @ name)" entries p0]
    unfolding p1_def [symmetric] by (simp add: Let_def event_init_frame p0_def)
qed

definition demo_dl :: "unit dl_env" where
  "demo_dl = \<lparr>dl_open = \<lambda>_. None, dl_sym = \<lambda>_ _. None\<rparr>"

definition demo_junk :: junk where
  "demo_junk = \<lparr>junk_fps = 0, junk_enable = False\<rparr>"

text \<open>The event "7" uploaded with 30 frames per second, with its library beside the marker.\<close>

definition demo_event_dir :: fs where
  "demo_event_dir = [([''event''], Dir), ([''event'', ''7''], Dir), ([''event'', ''7'', ''30''], File ''''),
     ([''event'', ''7'', ''enable''], File ''1''), ([''event'', ''7'', ''7.so''], File ''elf'')]"

theorem processor_rate_witness:
  "ep_fps (load_processor demo_dl demo_junk (\<lambda>_. True) [] demo_event_dir ''7'') = 7"
proof -
  have r: "resolve [] (''event/'' @ ''7'') = [''event'', ''7'']" by (simp add: resolve_def)
  have "directory_iterator demo_event_dir (resolve [] (''event/'' @ ''7'')) =
      Inr [(''30'', File ''''), (''enable'', File ''1''), (''7.so'', File ''elf'')]"
    unfolding r by (simp add: directory_iterator_def demo_event_dir_def is_directory_def fs_lookup_def children_def)
  from processor_rate [OF this, of demo_dl demo_junk "\<lambda>_. True"] show ?thesis
    by (simp add: Let_def is_rate_file_def is_positive_def stoi_def parse_int_def parse_sign_def is_space_def
        is_digit_def digits_val_def digit_val_def in_int32_def)
qed

text \<open>
  An event whose library cannot be opened still starts: the constructor and \<open>start_event\<close>
  ignore the failure and report success, and the first frame delivered to the event is passed to
  a null function pointer.
\<close>
theorem missing_library:
  assumes "\<And>path. dl_open dl path = None"
    and inv: "vq_inv H q" and sub: "abs_subs q name = Some i" "ti_is_run i"
    and queue: "abs_queue q name = Some (b # bs)"
  shows "\<exists>h' a. start_event (load_processor dl junk can_open cwd fs) name h = (0, h') \<and>
    h_running h' = h_running h @ [a] \<and> thread_round env eh a h' (q, net) = Inl NullDeref"
proof -
  let ?p = "load_processor dl junk can_open cwd fs name"
  have p: "ep_event_program ?p = None" "ep_event_name ?p = name"
    by (simp_all add: load_processor_def event_init_def assms(1) Let_def read_entries_frame split: sum.split)
  from sub obtain ti where ti: "um_find (q_thread_info q) name = Some ti" "q_infos q ti = Some i"
    by (auto simp: abs_subs_def split: option.splits)
  from pop_cases [OF inv ti] obtain l where l: "um_find (q_output q) name = Some l"
    and pop: "pop name q = (case l of [] \<Rightarrow> Inr None
      | a # rest \<Rightarrow> Inr (Some (Some a, q\<lparr>q_output := um_modify name (\<lambda>_. rest) (q_output q)\<rparr>)))"
    using sub(2) by auto
  with queue obtain a rest where "l = a # rest" by (cases l) (auto simp: abs_queue_def)
  with l have "a \<in> set (owned q)" using owned_output by fastforce
  with vq_invD(3) [OF inv] obtain f where "q_bufs q a = Some f" by (auto simp: bufs_ok_def dom_def)
  with pop p \<open>l = a # rest\<close> have "event_round env eh ?p (q, net) = Inl NullDeref"
    by (simp add: event_round_def event_popped_def read_buf_def event_exec_def)
  then show ?thesis by (simp add: start_event_def thread_round_def Let_def)
qed

definition demo_env :: "string \<Rightarrow> net_env" where
  "demo_env answer = \<lparr>ne_write_json = (\<lambda>kvs. concat (map snd kvs)), ne_local_time = (\<lambda>t. ''now''),
     ne_curl_init = True, ne_perform = (\<lambda>rq. (0, [(answer, 1, 2)]))\<rparr>"

definition demo_http :: event_http where
  "demo_http = \<lparr>eh_server_address = ''srv'', eh_uuid = ''u'', eh_upload_client = 1\<rparr>"

definition demo_answer :: string where
  "demo_answer = ''ok'' @ replicate 1022 (CHR 0x00)"

theorem missing_library_witness:
  "\<exists>h' a. start_event (load_processor demo_dl demo_junk (\<lambda>_. True) [] demo_event_dir) ''e'' event_handler_ctor = (0, h') \<and>
     thread_round (demo_env demo_answer) demo_http a h' (demo_waiting, []) = Inl NullDeref"
proof -
  have "dl_open demo_dl path = None" for path by (simp add: demo_dl_def)
  moreover have "abs_subs demo_waiting ''e'' = Some (the (abs_subs demo_waiting ''e''))"
    "ti_is_run (the (abs_subs demo_waiting ''e''))"
    "\<exists>b bs. abs_queue demo_waiting ''e'' = Some (b # bs)"
    by (simp_all add: demo_waiting_def demo_queue_def demo_info_def abs_subs_def abs_queue_def um_find_def)
  ultimately show ?thesis using missing_library [OF _ demo_waiting_inv] by blast
qed

subsection \<open>Running\<close>

definition run_program :: "event_function \<Rightarrow> vbuf \<Rightarrow> int" where
  "run_program f b = f (vb_data b) (vb_size b) (vb_time b) (get_width (vb_meta b)) (get_height (vb_meta b))"

definition reports :: "net_env \<Rightarrow> event_http \<Rightarrow> event_function \<Rightarrow> vbuf list \<Rightarrow> curl_request list" where
  "reports env eh f bs = map (\<lambda>b. event_request env eh (vb_time b)) (filter (\<lambda>b. 0 < run_program f b) bs)"

lemma event_exec_ok:
  assumes "ep_event_program p = Some f" and "server_ok env" and "ne_curl_init env"
  shows "\<exists>r. event_exec env eh p b net = Inr (r, net @ reports env eh f [b])"
  using assms by (auto simp: event_exec_def run_program_def reports_def event_send_ok Let_def)

lemma event_round_frame:
  assumes inv: "vq_inv H q" and sub: "abs_subs q name = Some i" "ti_is_run i"
    and queue: "abs_queue q name = Some (b # bs)" and p: "ep_event_name p = name"
    and f: "ep_event_program p = Some f" and env: "server_ok env" "ne_curl_init env"
  shows "\<exists>q'. event_round env eh p (q, net) = Inr (Running, q', net @ reports env eh f [b]) \<and>
    vq_inv H q' \<and> abs_queue q' = (abs_queue q)(name \<mapsto> bs) \<and> abs_subs q' = abs_subs q"
proof -
  from take_read_free [OF inv sub queue] obtain a q1 q2 where pop: "pop name q = Inr (Some (Some a, q1))"
    and read: "read_buf a q1 = Inr b" and del: "delete_buf a q1 = Inr q2"
    and q2: "vq_inv H q2" "abs_queue q2 = (abs_queue q)(name \<mapsto> bs)" "abs_subs q2 = abs_subs q" by blast
  from event_exec_ok [OF f env] obtain r where ex: "event_exec env eh p b net = Inr (r, net @ reports env eh f [b])"
    by blast
  have "event_round env eh p (q, net) = Inr (Running, q2, net @ reports env eh f [b])"
    using pop read ex del by (simp add: event_round_def event_popped_def p)
  with q2 show ?thesis by blast
qed

text \<open>
  C16: A running event processes the frames waiting for it in order.  With a server that answers,
  after one round per waiting frame its thread is blocked again, every frame has been freed, its
  queue is empty, no other queue changed, and exactly the frames on which the program returned a
  positive number were reported, in order, each with its own timestamp.
\<close>
theorem event_drains_queue:
  assumes "vq_inv H q" and "abs_subs q name = Some i" and "ti_is_run i"
    and "abs_queue q name = Some bs" and "ep_event_name p = name"
    and "ep_event_program p = Some f" and "server_ok env" and "ne_curl_init env"
  shows "\<exists>q'. event_rounds (Suc (length bs)) env eh p (q, net) =
      Inr (Blocked, q', net @ reports env eh f bs) \<and>
    vq_inv H q' \<and> abs_queue q' = (abs_queue q)(name \<mapsto> []) \<and> abs_subs q' = abs_subs q"
  using assms
proof (induction bs arbitrary: q net)
  case Nil
  then obtain ti where ti: "um_find (q_thread_info q) name = Some ti" "q_infos q ti = Some i"
    by (auto simp: abs_subs_def split: option.splits)
  from pop_cases [OF Nil.prems(1) ti] Nil.prems(3,4) have "pop name q = Inr None"
    by (auto simp: abs_queue_def)
  with Nil.prems show ?case by (simp add: event_round_def event_popped_def reports_def fun_upd_idem)
next
  case (Cons b bs)
  from event_round_frame [OF Cons.prems(1-8)] obtain q1 where q1:
    "event_round env eh p (q, net) = Inr (Running, q1, net @ reports env eh f [b])" "vq_inv H q1"
    "abs_queue q1 = (abs_queue q)(name \<mapsto> bs)" "abs_subs q1 = abs_subs q" by blast
  from Cons.IH [OF q1(2) _ Cons.prems(3) _ Cons.prems(5-8), of "net @ reports env eh f [b]"] q1(3,4)
    Cons.prems(2) obtain q' where
    "event_rounds (Suc (length bs)) env eh p (q1, net @ reports env eh f [b]) =
      Inr (Blocked, q', (net @ reports env eh f [b]) @ reports env eh f bs)"
    "vq_inv H q'" "abs_queue q' = (abs_queue q1)(name \<mapsto> [])" "abs_subs q' = abs_subs q1"
    by (metis fun_upd_same)
  moreover have "reports env eh f [b] @ reports env eh f bs = reports env eh f (b # bs)"
    by (simp add: reports_def)
  ultimately show ?case
    using q1 by (auto simp del: event_rounds.simps(2) simp: event_rounds.simps(2) [of "Suc (length bs)"])
qed

definition demo_processor :: "unit event_processor" where
  "demo_processor = \<lparr>ep_event_name = ''e'', ep_fps = 1, ep_enable = True,
     ep_event_program = Some (\<lambda>data size t w h. if size = 2 then 1 else 0), ep_handle = Some ()\<rparr>"

lemma demo_env_ok: "server_ok (demo_env demo_answer)"
  by (simp add: server_ok_def answers_def demo_env_def demo_answer_def)

theorem event_drains_queue_witness:
  "\<exists>q'. event_rounds 2 (demo_env demo_answer) demo_http demo_processor (demo_waiting, []) =
     Inr (Blocked, q', [event_request (demo_env demo_answer) demo_http 5]) \<and> vq_inv {} q'"
proof -
  have h: "abs_subs demo_waiting ''e'' = Some (demo_info 2)" "ti_is_run (demo_info 2)"
    "abs_queue demo_waiting ''e'' = Some [demo_frame]" "ep_event_name demo_processor = ''e''"
    "ep_event_program demo_processor = Some (\<lambda>data size t w h. if size = 2 then 1 else 0)"
    "ne_curl_init (demo_env demo_answer)"
    by (simp_all add: demo_waiting_def demo_queue_def demo_info_def abs_subs_def abs_queue_def um_find_def
        buf_at_def demo_processor_def demo_env_def)
  have r: "reports (demo_env demo_answer) demo_http (\<lambda>data size t w h. if size = 2 then 1 else 0) [demo_frame] =
      [event_request (demo_env demo_answer) demo_http 5]"
    by (simp add: reports_def run_program_def demo_frame_def)
  from event_drains_queue [OF demo_waiting_inv h(1-5) demo_env_ok h(6), of demo_http "[]"] r
  show ?thesis by (simp add: numeral_2_eq_2 del: event_rounds.simps) blast
qed

text \<open>
  Reporting depends on what the server answers.  Unless every chunk of the answer has 1024
  readable bytes behind it and the last of them holds a NUL, the report reads memory it must not;
  in particular a transfer that fails before any byte arrives (\<open>chunks = []\<close>) reads the
  uninitialised response array instead of returning its error.
\<close>
theorem report_needs_answer:
  assumes init: "ne_curl_init env"
    and perform: "ne_perform env (event_request env eh (vb_time b)) = (code, chunks)"
    and f: "ep_event_program p = Some f" "0 < run_program f b"
  shows "((\<exists>e. event_exec env eh p b net = Inl e) \<longleftrightarrow> \<not> answers chunks) \<and>
    (chunks = [] \<longrightarrow> event_exec env eh p b net = Inl Uninitialised)"
proof -
  let ?t = "vb_time b"
  obtain h where h: "curl_easy_init env = Some h" using init by (simp add: curl_easy_init_def)
  let ?h = "h\<lparr>rq_method := ''POST'', rq_follow := True, rq_protocol := ''https'',
      rq_headers := [''Content-Type: application/json'']\<rparr>"
  let ?url = "eh_server_address eh @ ''/event''"
  let ?body = "ne_write_json env [(''description'', eh_uuid eh), (''unixtime'', to_string ?t),
      (''localtime'', ne_local_time env ?t)]"
  have rq: "?h\<lparr>rq_follow := True, rq_protocol := ''https'', rq_url := ?url, rq_callback := True,
      rq_agent := ''libcurl-agent/1.0'', rq_body := Post_fields ?body\<rparr> = event_request env eh ?t"
    using h init by (auto simp: curl_easy_init_def event_request_def)
  have send: "event_send env eh ?t net = send_request env (Some ?h) ?url ?body net"
    using h by (simp add: event_send_def)
  have "(\<exists>e. event_send env eh ?t net = Inl e) \<longleftrightarrow> \<not> answers chunks"
    unfolding send by (rule send_request_faults) (simp only: rq perform)
  moreover have "event_send env eh ?t net = Inl Uninitialised" if "chunks = []"
    unfolding send send_request_def option.case Let_def rq perform that
    by (simp add: receive_def read_c_string_def)
  moreover have "event_exec env eh p b net = rbind (event_send env eh ?t net) (\<lambda>(_, net1). Inr (0, net1))"
    using f by (simp add: event_exec_def run_program_def)
  ultimately show ?thesis by (auto simp: rbind_eq_Inl)
qed

theorem report_needs_answer_witness:
  "event_exec (demo_env demo_answer\<lparr>ne_perform := \<lambda>rq. (7, [])\<rparr>) demo_http demo_processor demo_frame [] =
     Inl Uninitialised"
proof -
  let ?env = "demo_env demo_answer\<lparr>ne_perform := \<lambda>rq. (7, [])\<rparr>"
  have "ne_curl_init ?env" by (simp add: demo_env_def)
  moreover have "ne_perform ?env rq = (7, [])" for rq by simp
  moreover have "ep_event_program demo_processor = Some (\<lambda>data size t w h. if size = 2 then 1 else 0)"
    by (simp add: demo_processor_def)
  moreover have "0 < run_program (\<lambda>data size t w h. if size = 2 then 1 else 0) demo_frame"
    by (simp add: run_program_def demo_frame_def)
  ultimately show ?thesis by (rule report_needs_answer [THEN conjunct2, THEN mp]) simp
qed

subsection \<open>Starting and stopping\<close>

text \<open>
  Stopping events.  For an event that was started, \<open>stop_event\<close> unsubscribes it, frees its
  processor and returns 0, but leaves the name in its table and the thread on the processor: the
  thread's next step reads freed memory, and stopping the event again frees the processor twice.
  For a name that was never started, \<open>stop_event\<close> reads through \<open>end()\<close>.
\<close>
theorem stop_event_contract:
  assumes inv: "vq_inv H q"
  shows "case um_find (h_event_thread h) name of
      None \<Rightarrow> stop_event name (h, q) = Inl EndIterator
    | Some a \<Rightarrow> h_processors h a \<noteq> None \<longrightarrow>
        (\<exists>h' q'. stop_event name (h, q) = Inr (0, h', q') \<and> vq_inv H q' \<and>
           h_running h' = h_running h \<and> thread_round env eh a h' (q', net) = Inl UseAfterFree \<and>
           stop_event name (h', q') = Inl DoubleFree)"
proof -
  from remove_event_inv [OF inv] obtain r q1 where r: "remove_event name q = Inr (r, q1)" "vq_inv H q1"
    by blast
  from remove_event_inv [OF r(2)] obtain r2 q2 where r2: "remove_event name q1 = Inr (r2, q2)" by blast
  show ?thesis
    using r r2 by (auto simp: stop_event_def thread_round_def split: option.split)
qed

theorem stop_event_contract_witness:
  "stop_event ''x'' (event_handler_ctor :: unit event_handler, demo_queue) = Inl EndIterator \<and>
   (\<exists>h' q'. stop_event ''e'' (snd (start_event (\<lambda>n. demo_processor) ''e'' event_handler_ctor), demo_queue) =
        Inr (0, h', q') \<and>
      stop_event ''e'' (h', q') = Inl DoubleFree)"
proof -
  let ?h = "snd (start_event (\<lambda>n. demo_processor) ''e'' event_handler_ctor)"
  have "um_find (h_event_thread (event_handler_ctor :: unit event_handler)) ''x'' = None" by (simp add: event_handler_ctor_def)
  with stop_event_contract [OF demo_queue_inv, of "''x''" "event_handler_ctor :: unit event_handler"]
  have 1: "stop_event ''x'' (event_handler_ctor :: unit event_handler, demo_queue) = Inl EndIterator" by simp
  have "um_find (h_event_thread ?h) ''e'' = Some 0" "h_processors ?h 0 \<noteq> None"
    by (simp_all add: event_handler_ctor_def start_event_def Let_def um_find_emplace)
  with stop_event_contract [OF demo_queue_inv, of "''e''" ?h undefined undefined undefined]
  have "\<exists>h' q'. stop_event ''e'' (?h, demo_queue) = Inr (0, h', q') \<and> stop_event ''e'' (h', q') = Inl DoubleFree"
    by auto
  with 1 show ?thesis by blast
qed

lemma um_find_zip_upt:
  assumes "distinct names" and "i < length names"
  shows "um_find (zip names [0..<length names]) (names ! i) = Some i"
proof -
  have "(names ! i, i) \<in> set (zip names [0..<length names])"
    using assms(2) by (auto simp: in_set_zip intro: exI [of _ i])
  then show ?thesis
    using assms(1) by (simp add: um_find_mem um_wf_def)
qed

text \<open>The first processor builds the instance of \<open>EventHandlerHTTP\<close>, the others find it.\<close>

lemma construct_all:
  assumes once: "get b1 = Inr (x, b1)" and first: "get b = Inr (y, b1)"
  shows "rfold (\<lambda>(name, _) (ei, h, b).
      rbind (event_processor_ctor get files load name b) (\<lambda>(p, b1).
      Inr (ei\<lparr>ei_event_names := ei_event_names ei @ [name]\<rparr>, snd (start_event (\<lambda>_. p) name h), b1)))
      entries (ei, h, b) =
    (let (ei1, h1) = fold (\<lambda>(name, _) (ei, h).
       (ei\<lparr>ei_event_names := ei_event_names ei @ [name]\<rparr>, snd (start_event (load (files b1)) name h))) entries (ei, h)
     in Inr (ei1, h1, if entries = [] then b else b1))"
  using first
proof (induction entries arbitrary: ei h b y)
  case (Cons e es)
  have "start_event (\<lambda>_. load (files b1) n) n h = start_event (load (files b1)) n h" for n
    by (simp add: start_event_def)
  with Cons.prems Cons.IH [OF once] show ?case
    by (cases e) (simp add: event_processor_ctor_def split: prod.split)
qed simp

lemma start_all:
  assumes "distinct (map fst entries)"
  shows "fold (\<lambda>(name, _) (ei, h).
      (ei\<lparr>ei_event_names := ei_event_names ei @ [name]\<rparr>, snd (start_event mk name h)))
      entries (ei, event_handler_ctor) =
    (ei\<lparr>ei_event_names := ei_event_names ei @ map fst entries\<rparr>,
     \<lparr>h_event_thread = zip (map fst entries) [0..<length entries],
      h_processors = (\<lambda>a. if a < length entries then Some (mk (fst (entries ! a))) else None),
      h_next = length entries, h_running = [0..<length entries]\<rparr>)"
  using assms
proof (induction entries rule: rev_induct)
  case Nil
  then show ?case by (simp add: event_handler_ctor_def)
next
  case (snoc e es)
  have "um_find (zip (map fst es) [0..<length es]) (fst e) = None"
    using snoc.prems by (auto simp: um_find_None_iff um_keys_def set_zip)
  with snoc show ?case
    by (cases e) (auto simp: start_event_def um_emplace_def fun_eq_iff nth_append less_Suc_eq Let_def)
qed

lemma stop_all:
  assumes "vq_inv H q" and "distinct ns" and "inj_on addr_of (set ns)"
    and "\<And>n. n \<in> set ns \<Longrightarrow> um_find (h_event_thread h) n = Some (addr_of n) \<and> h_processors h (addr_of n) \<noteq> None"
  shows "\<exists>q'. rfold (\<lambda>name hq. rbind (stop_event name hq) (\<lambda>(_, hq1). Inr hq1)) ns (h, q) =
      Inr (h\<lparr>h_processors := (\<lambda>a. if a \<in> addr_of ` set ns then None else h_processors h a)\<rparr>, q') \<and> vq_inv H q'"
  using assms
proof (induction ns arbitrary: h q)
  case Nil
  then show ?case by simp
next
  case (Cons n ns)
  from remove_event_inv [OF Cons.prems(1)] obtain r q1 where r: "remove_event n q = Inr (r, q1)" "vq_inv H q1"
    by blast
  let ?h1 = "h\<lparr>h_processors := (h_processors h)(addr_of n := None)\<rparr>"
  have s: "stop_event n (h, q) = Inr (0, ?h1, q1)"
    using Cons.prems(4) [of n] r by (auto simp: stop_event_def)
  have "um_find (h_event_thread ?h1) m = Some (addr_of m) \<and> h_processors ?h1 (addr_of m) \<noteq> None"
    if "m \<in> set ns" for m
    using Cons.prems(4) [of m] Cons.prems(2,3) that by (auto simp: inj_on_def)
  from Cons.IH [OF r(2) _ _ this] Cons.prems(2,3) obtain q' where
    "rfold (\<lambda>name hq. rbind (stop_event name hq) (\<lambda>(_, hq1). Inr hq1)) ns (?h1, q1) =
      Inr (?h1\<lparr>h_processors := (\<lambda>a. if a \<in> addr_of ` set ns then None else h_processors ?h1 a)\<rparr>, q')"
    "vq_inv H q'" by auto
  moreover have "(\<lambda>a. if a \<in> addr_of ` set ns then None else h_processors ?h1 a) =
      (\<lambda>a. if a \<in> addr_of ` set (n # ns) then None else h_processors h a)" by auto
  ultimately show ?case using s by simp
qed

text \<open>Processors that were started under distinct names are stopped once, and found freed by a second stop.\<close>

lemma started_and_stopped:
  assumes inv: "vq_inv H q" and d: "distinct (map fst entries)"
  shows "\<exists>h h' q'. fold (\<lambda>(name, _) (ei, h). (ei\<lparr>ei_event_names := ei_event_names ei @ [name]\<rparr>,
      snd (start_event mk name h))) entries (\<lparr>ei_event_names = []\<rparr>, event_handler_ctor) =
      (\<lparr>ei_event_names = map fst entries\<rparr>, h) \<and>
    h_running h = [0..<length entries] \<and> (\<forall>a<length entries. h_processors h a = Some (mk (fst (entries ! a)))) \<and>
    event_initializer_stop \<lparr>ei_event_names = map fst entries\<rparr> (h, q) = Inr (0, h', q') \<and>
    (\<forall>a. h_processors h' a = None) \<and> vq_inv H q' \<and>
    (entries \<noteq> [] \<longrightarrow> event_initializer_stop \<lparr>ei_event_names = map fst entries\<rparr> (h', q') = Inl DoubleFree)"
proof -
  let ?names = "map fst entries" and ?n = "length entries"
  define h where "h = \<lparr>h_event_thread = zip ?names [0..<?n],
      h_processors = (\<lambda>a. if a < ?n then Some (mk (fst (entries ! a))) else None),
      h_next = ?n, h_running = [0..<?n]\<rparr>"
  have init: "fold (\<lambda>(name, _) (ei, h). (ei\<lparr>ei_event_names := ei_event_names ei @ [name]\<rparr>,
      snd (start_event mk name h))) entries (\<lparr>ei_event_names = []\<rparr>, event_handler_ctor) = (\<lparr>ei_event_names = ?names\<rparr>, h)"
    using start_all [OF d, of mk "\<lparr>ei_event_names = []\<rparr>"] by (simp add: h_def)
  define addr_of where "addr_of n = the (um_find (h_event_thread h) n)" for n
  have addr: "addr_of (?names ! i) = i" "um_find (h_event_thread h) (?names ! i) = Some i" if "i < ?n" for i
    using um_find_zip_upt [OF d, of i] that by (simp_all add: addr_of_def h_def)
  have image: "addr_of ` set ?names = {..<?n}"
    using addr(1) by (force simp: set_conv_nth image_iff)
  have inj: "inj_on addr_of (set ?names)"
  proof (rule inj_onI)
    fix m n
    assume "m \<in> set ?names" "n \<in> set ?names" "addr_of m = addr_of n"
    then show "m = n" by (metis addr(1) in_set_conv_nth length_map)
  qed
  have found: "um_find (h_event_thread h) n = Some (addr_of n) \<and> h_processors h (addr_of n) \<noteq> None"
    if "n \<in> set ?names" for n
  proof -
    from that obtain i where "i < ?n" "n = ?names ! i" by (metis in_set_conv_nth length_map)
    with addr [OF \<open>i < ?n\<close>] show ?thesis by (simp add: h_def)
  qed
  let ?h' = "h\<lparr>h_processors := (\<lambda>a. if a \<in> addr_of ` set ?names then None else h_processors h a)\<rparr>"
  from stop_all [OF inv d inj found] obtain q' where
    stop: "event_initializer_stop \<lparr>ei_event_names = ?names\<rparr> (h, q) = Inr (0, ?h', q')" and q': "vq_inv H q'"
    by (auto simp: event_initializer_stop_def)
  have gone: "h_processors ?h' a = None" for a unfolding image by (simp add: h_def)
  have again: "event_initializer_stop \<lparr>ei_event_names = ?names\<rparr> (?h', q') = Inl DoubleFree" if "entries \<noteq> []"
  proof -
    from that obtain n ns where n: "?names = n # ns" by (cases entries) auto
    from remove_event_inv [OF q'] obtain r q2 where "remove_event n q' = Inr (r, q2)" by blast
    moreover have "um_find (h_event_thread h) n = Some (addr_of n)" using found [of n] n by simp
    ultimately have "stop_event n (?h', q') = Inl DoubleFree"
      using gone [of "addr_of n"] by (simp add: stop_event_def)
    then show ?thesis by (simp add: event_initializer_stop_def n)
  qed
  have "\<forall>a<?n. h_processors h a = Some (mk (fst (entries ! a)))" "h_running h = [0..<?n]"
    by (simp_all add: h_def)
  with init stop q' gone again show ?thesis by blast
qed

text \<open>
  C17: From boot to shutdown.  \<open>init\<close> starts one processor and one thread for each entry of the
  directory \<open>event\<close>, in its order, and without that directory ends in an uncaught exception.  Its first
  processor takes the instance of \<open>EventHandlerHTTP\<close>: when that cannot be built, \<open>init\<close> fails as well.
  \<open>stop\<close> frees every processor exactly once and returns 0, and a second \<open>stop\<close> frees the first one
  again.
\<close>
theorem event_lifecycle:
  fixes get :: "'b \<Rightarrow> ('e \<times> 'b) res"
  assumes inv: "vq_inv H q" and distinct: "\<forall>es. directory_iterator fs (resolve cwd ''event'') = Inr es \<longrightarrow> distinct (map fst es)"
    and once: "\<forall>x b1. get b = Inr (x, b1) \<longrightarrow> get b1 = Inr (x, b1)"
  shows "let run = event_initializer_init (event_processor_ctor get files load) cwd fs
        (\<lparr>ei_event_names = []\<rparr>, event_handler_ctor, b) in
    case directory_iterator fs (resolve cwd ''event'') of
      Inl e \<Rightarrow> run = Inl (Uncaught e)
    | Inr entries \<Rightarrow>
       (case get b of
          Inl f \<Rightarrow> entries \<noteq> [] \<longrightarrow> run = Inl f
        | Inr (x, b1) \<Rightarrow>
            (\<exists>ei h h' q'. run = Inr (0, ei, h, if entries = [] then b else b1) \<and>
               ei_event_names ei = map fst entries \<and> h_running h = [0..<length entries] \<and>
               (\<forall>a<length entries. h_processors h a = Some (load (files b1) (fst (entries ! a)))) \<and>
               event_initializer_stop ei (h, q) = Inr (0, h', q') \<and> (\<forall>a. h_processors h' a = None) \<and> vq_inv H q' \<and>
               (entries \<noteq> [] \<longrightarrow> event_initializer_stop ei (h', q') = Inl DoubleFree)))"
  (is "let run = ?run in _")
proof (cases "directory_iterator fs (resolve cwd ''event'')")
  case (Inl e)
  then show ?thesis by (simp add: Let_def event_initializer_init_def)
next
  case (Inr entries)
  show ?thesis
  proof (cases "get b")
    case (Inl f)
    with Inr show ?thesis
      by (cases entries) (auto simp: Let_def event_initializer_init_def event_processor_ctor_def)
  next
    case got: (Inr xb)
    then obtain x b1 where g: "get b = Inr (x, b1)" by (cases xb) auto
    with once have g1: "get b1 = Inr (x, b1)" by blast
    from distinct Inr have d: "distinct (map fst entries)" by blast
    from started_and_stopped [OF inv d, of "load (files b1)"] obtain h h' q' where
      h: "fold (\<lambda>(name, _) (ei, h). (ei\<lparr>ei_event_names := ei_event_names ei @ [name]\<rparr>,
          snd (start_event (load (files b1)) name h))) entries (\<lparr>ei_event_names = []\<rparr>, event_handler_ctor) =
        (\<lparr>ei_event_names = map fst entries\<rparr>, h)" "h_running h = [0..<length entries]"
      "\<forall>a<length entries. h_processors h a = Some (load (files b1) (fst (entries ! a)))"
      "event_initializer_stop \<lparr>ei_event_names = map fst entries\<rparr> (h, q) = Inr (0, h', q')" "\<forall>a. h_processors h' a = None"
      "vq_inv H q'" "entries \<noteq> [] \<longrightarrow> event_initializer_stop \<lparr>ei_event_names = map fst entries\<rparr> (h', q') = Inl DoubleFree"
      by blast
    have "?run = Inr (0, \<lparr>ei_event_names = map fst entries\<rparr>, h, if entries = [] then b else b1)"
      using Inr by (simp add: event_initializer_init_def construct_all [OF g1 g] h(1))
    with h Inr g show ?thesis by (auto simp: Let_def)
  qed
qed

theorem event_lifecycle_witness:
  "\<exists>ei h h' q'. event_initializer_init (event_processor_ctor (\<lambda>b. Inr ((), b)) (\<lambda>b. b) (\<lambda>_ _. demo_processor)) [] demo_event_dir
       (\<lparr>ei_event_names = []\<rparr>, event_handler_ctor, []) = Inr (0, ei, h, []) \<and> ei_event_names ei = [''7''] \<and>
     event_initializer_stop ei (h, demo_queue) = Inr (0, h', q') \<and>
     event_initializer_stop ei (h', q') = Inl DoubleFree"
proof -
  have d: "directory_iterator demo_event_dir (resolve [] ''event'') = Inr [(''7'', Dir)]"
    by (simp add: resolve_def directory_iterator_def demo_event_dir_def is_directory_def fs_lookup_def children_def)
  then have e: "\<forall>es. directory_iterator demo_event_dir (resolve [] ''event'') = Inr es \<longrightarrow> distinct (map fst es)"
    by auto
  have "\<forall>x b1. (\<lambda>b :: fs. Inr ((), b) :: (unit \<times> fs) res) [] = Inr (x, b1) \<longrightarrow> Inr ((), b1) = (Inr (x, b1) :: (unit \<times> fs) res)" by simp
  from event_lifecycle [OF demo_queue_inv e this, where files = "\<lambda>b. b" and load = "\<lambda>_ _. demo_processor"] d
  show ?thesis by auto
qed

end
