(* ===== verification/Video_Props.thy ===== *)
theory Video_Props
  imports Video
begin

text \<open>
  What \<open>VideoHandler\<close> guarantees on a well-formed store: the files it lists, the clip it builds, the
  files it removes, and where a stray file makes it throw.
\<close>

subsection \<open>Well-formed stores and recordings\<close>

definition fs_wf :: "fs \<Rightarrow> bool" where
  "fs_wf fs \<longleftrightarrow> distinct (map fst fs) \<and> (\<forall>(q, n) \<in> set fs. q \<noteq> [] \<and> (\<forall>w \<in> set q. plain_name w))"

definition recordings :: "fs \<Rightarrow> path \<Rightarrow> string list" where
  "recordings fs p =
     map fst (filter (\<lambda>(name, n). is_file n \<and> extension name = ''.mp4'') (children fs p))"

definition start_of :: "string \<Rightarrow> int" where
  "start_of f = (case stoi f of Inr v \<Rightarrow> v | Inl _ \<Rightarrow> 0)"

definition numbered :: "string \<Rightarrow> bool" where
  "numbered f \<longleftrightarrow> (\<exists>v. stoi f = Inr v)"

lemma children_distinct:
  assumes "distinct (map fst fs)"
  shows "distinct (map fst (children fs p))"
proof -
  let ?l = "filter (\<lambda>(q, n). q \<noteq> [] \<and> butlast q = p) fs"
  have "distinct (map fst ?l)" using assms by (simp add: distinct_map_filter)
  moreover have "inj_on last (set (map fst ?l))"
  proof (rule inj_onI)
    fix x y
    assume "x \<in> set (map fst ?l)" "y \<in> set (map fst ?l)" "last x = last y"
    then have "butlast x @ [last x] = butlast y @ [last y]" "x \<noteq> []" "y \<noteq> []" by auto
    then show "x = y" by simp
  qed
  ultimately have "distinct (map last (map fst ?l))" by (simp only: distinct_map)
  moreover have "map fst (children fs p) = map last (map fst ?l)"
    by (simp add: children_def case_prod_beta' comp_def)
  ultimately show ?thesis by simp
qed

lemma recordings_mem:
  assumes "fs_wf fs"
  shows "f \<in> set (recordings fs p) \<longleftrightarrow>
    f \<noteq> [] \<and> extension f = ''.mp4'' \<and> (\<exists>c. fs_lookup fs (p @ [f]) = Some (File c))"
proof -
  have mem: "(f, n) \<in> set (children fs p) \<longleftrightarrow> (p @ [f], n) \<in> set fs" for n
  proof
    assume "(f, n) \<in> set (children fs p)"
    then obtain q where "(q, n) \<in> set fs" "q \<noteq> []" "butlast q = p" "f = last q"
      by (auto simp: children_def)
    then show "(p @ [f], n) \<in> set fs" by (metis append_butlast_last_id)
  next
    assume "(p @ [f], n) \<in> set fs"
    then show "(f, n) \<in> set (children fs p)"
      unfolding children_def by (force intro: image_eqI [of _ _ "(p @ [f], n)"])
  qed
  have "fs_lookup fs (p @ [f]) = Some n \<longleftrightarrow> (p @ [f], n) \<in> set fs" for n
    using assms by (simp add: fs_lookup_def fs_wf_def)
  moreover have "f \<noteq> []" if "(p @ [f], n) \<in> set fs" for n
    using assms that by (auto simp: fs_wf_def plain_name_def)
  ultimately show ?thesis
    by (auto simp: recordings_def image_iff mem elim!: is_file.elims(2))
qed

lemma recordings_plain: "fs_wf fs \<Longrightarrow> f \<in> set (recordings fs p) \<Longrightarrow> plain_name f"
  by (auto simp: recordings_def children_def fs_wf_def split: prod.splits) (metis last_in_set)

lemma recordings_distinct: "fs_wf fs \<Longrightarrow> distinct (recordings fs p)"
  using children_distinct [of fs p] by (simp add: fs_wf_def recordings_def distinct_map_filter)

lemma collect_names:
  assumes "distinct (map fst es)" and "set (map fst es) \<inter> set files = {}"
  shows "fold (\<lambda>(filename, n) files.
      if is_file n \<and> extension filename = ''.mp4'' \<and> filename \<notin> set files
      then files @ [filename] else files) es files =
    files @ map fst (filter (\<lambda>(name, n). is_file n \<and> extension name = ''.mp4'') es)"
  using assms
proof (induction es arbitrary: files)
  case Nil
  then show ?case by simp
next
  case (Cons e es)
  obtain name n where e: "e = (name, n)" by fastforce
  show ?case
  proof (cases "is_file n \<and> extension name = ''.mp4''")
    case True
    with Cons.prems e have "set (map fst es) \<inter> set (files @ [name]) = {}" by auto
    from Cons.IH [OF _ this] True Cons.prems e show ?thesis by auto
  next
    case False
    from Cons.IH [of files] False Cons.prems e show ?thesis by auto
  qed
qed

lemma find_unnumbered:
  "List.find (\<lambda>f. \<not> (case stoi f of Inr _ \<Rightarrow> True | Inl _ \<Rightarrow> False)) fs = List.find (\<lambda>f. \<not> numbered f) fs"
proof -
  have "(\<not> (case stoi f of Inr _ \<Rightarrow> True | Inl _ \<Rightarrow> False)) = (\<not> numbered f)" for f
    by (auto simp: numbered_def split: sum.split)
  then show ?thesis by (simp only:)
qed

lemma sort_names_ok:
  assumes "\<forall>f \<in> set fs. numbered f"
  shows "sort_names fs = Inr (sort_key start_of fs)"
proof (cases "length fs \<le> 1")
  case True
  then have "sort_key start_of fs = fs" by (cases fs) auto
  with True show ?thesis by (simp add: sort_names_def)
next
  case False
  have "List.find (\<lambda>f. \<not> numbered f) fs = None" using assms by (simp add: find_None_iff)
  with False show ?thesis
    unfolding sort_names_def find_unnumbered start_of_def [symmetric] by simp
qed

lemma sort_names_throws:
  assumes "\<exists>f \<in> set fs. \<not> numbered f"
  shows "(\<exists>f. fs = [f] \<and> sort_names fs = Inr fs) \<or> (\<exists>e. sort_names fs = Inl e)"
proof (cases "length fs \<le> 1")
  case True
  with assms show ?thesis by (cases fs) (auto simp: sort_names_def)
next
  case False
  from assms have "List.find (\<lambda>f. \<not> numbered f) fs \<noteq> None" by (auto simp: find_None_iff)
  then obtain f where f: "List.find (\<lambda>f. \<not> numbered f) fs = Some f" by blast
  then have "\<not> numbered f" by (auto simp: find_Some_iff)
  then obtain e where "stoi f = Inl e" by (cases "stoi f") (auto simp: numbered_def)
  with False f show ?thesis unfolding sort_names_def find_unnumbered by simp
qed

lemma set_filename_eq:
  assumes "fs_wf fs" and "is_directory fs p"
  shows "set_filename fs p [] = sort_names (recordings fs p)"
  using assms collect_names [OF children_distinct [of fs p], of "[]"]
  by (simp add: set_filename_def directory_iterator_def recordings_def fs_wf_def)

lemma file_timestamp_eq:
  assumes "length f < 2 ^ 64"
  shows "file_timestamp f = throw_uncaught (stoi f)"
proof -
  have "stoi (takeWhile (\<lambda>d. d \<noteq> CHR ''.'') f) = stoi f"
    by (rule stoi_prefix) (simp_all add: is_digit_def is_space_def)
  with str_substr_upto_char [OF assms, of "CHR ''.''"] show ?thesis
    by (simp add: file_timestamp_def)
qed

subsection \<open>Clips\<close>

lemma select_loop:
  assumes "\<forall>f \<in> set files. length f < 2 ^ 64 \<and> numbered f \<and> in_int32 (start_of f) \<and> in_int32 (start_of f + split)"
    and "0 < split"
  shows "rfold (select_file split s e) files acc =
    Inr (acc @ filter (\<lambda>f. start_of f \<le> e \<and> s \<le> start_of f + split - 1) files)"
  using assms(1)
proof (induction files arbitrary: acc)
  case Nil
  then show ?case by simp
next
  case (Cons f files)
  then have "file_timestamp f = Inr (start_of f)"
    by (auto simp: file_timestamp_eq start_of_def numbered_def)
  moreover have "in_int32 (start_of f + split - 1)"
    using Cons.prems assms(2) by (simp add: in_int32_def)
  ultimately show ?case
    using Cons by (simp add: select_file_def int_add_def int_sub_def chk32_def)
qed

lemma interval_overlap:
  fixes a :: int
  assumes "0 < n" and "0 \<le> d"
  shows "a \<le> t + d \<and> t - d \<le> a + n - 1 \<longleftrightarrow> {a ..< a + n} \<inter> {t - d .. t + d} \<noteq> {}"
proof
  assume "a \<le> t + d \<and> t - d \<le> a + n - 1"
  then have "max a (t - d) \<in> {a ..< a + n} \<inter> {t - d .. t + d}"
    using assms by auto
  then show "{a ..< a + n} \<inter> {t - d .. t + d} \<noteq> {}" by blast
qed auto

definition good_names :: "fs \<Rightarrow> path \<Rightarrow> int \<Rightarrow> bool" where
  "good_names fs p split \<longleftrightarrow> (\<forall>f \<in> set (recordings fs p).
     length f < 2 ^ 64 \<and> numbered f \<and> in_int32 (start_of f + split))"

lemma start_of_int32: "numbered f \<Longrightarrow> in_int32 (start_of f)"
  by (auto simp: numbered_def start_of_def stoi_def split: option.splits if_splits)

text \<open>
  C19: The clip of an event, for the two split times the code can take.  When every recording is named by a number
  and the configured split time is 1 or 2 seconds, \<open>process_video\<close> runs one pipeline that concatenates exactly the recordings whose interval of \<open>split_time\<close> seconds meets
  the window of \<open>duration\<close> seconds around the event, in order of time, into the event's clip.  It
  returns -1, with nothing written, only when there is none or the pipeline does not start;
  whatever message ends the pipeline, an error included, the status is 0.  The lock is free again
  after every return.  With any longer split time, the 40 seconds of the README included, no clip is made: the
  conversion of the split time to nanoseconds overflows \<open>int\<close> before anything is read.
\<close>
theorem clip_selects_overlap:
  assumes cfg: "vh_video_config h = Some c" and lock: "\<not> vh_file_lock h"
    and split: "0 < vc_split_time c" and dur: "0 \<le> duration c"
    and range: "in_int32 (t - duration c)" "in_int32 (t + duration c)"
    and wf: "fs_wf fs" and dir: "is_directory fs (resolve cwd (save_path c))"
    and names: "good_names fs (resolve cwd (save_path c)) (vc_split_time c)"
  shows "let files = sort_key start_of (filter (\<lambda>f.
        {start_of f ..< start_of f + vc_split_time c} \<inter> {t - duration c .. t + duration c} \<noteq> {})
        (recordings fs (resolve cwd (save_path c))));
      pipeline = concat_pipeline (save_path c) event_id files in
    process_video gst cwd t event_id (h, fs) =
      (if vc_split_time c > 2 then Inl SignedOverflow
       else if files = [] \<or> \<not> ge_parse_launch gst pipeline \<or> \<not> ge_set_playing gst pipeline then Inr (Some (-1, h, fs))
       else case bus_loop (ge_bus gst pipeline) of
           None \<Rightarrow> Inr None
         | Some msg \<Rightarrow> Inr (Some (0, h, ge_written gst pipeline fs)))"
proof (cases "vc_split_time c > 2")
  case True
  then show ?thesis using cfg by (simp add: process_video_def split_time_cases)
next
  case short: False
  let ?p = "resolve cwd (save_path c)" and ?k = "vc_split_time c"
  have n: "\<forall>f \<in> set (recordings fs ?p). length f < 2 ^ 64 \<and> numbered f \<and> in_int32 (start_of f) \<and>
      in_int32 (start_of f + ?k)"
    using names start_of_int32 by (auto simp: good_names_def)
  then have "set_filename fs ?p [] = Inr (sort_key start_of (recordings fs ?p))"
    by (simp add: set_filename_eq [OF wf dir] sort_names_ok)
  moreover have "rfold (select_file ?k (t - duration c) (t + duration c)) (sort_key start_of (recordings fs ?p)) [] =
      Inr (sort_key start_of (filter (\<lambda>f. {start_of f ..< start_of f + ?k} \<inter> {t - duration c .. t + duration c} \<noteq> {})
        (recordings fs ?p)))"
    using n split
    by (subst select_loop) (simp_all only: set_sort append_Nil filter_sort interval_overlap [OF split dur])
  moreover have "split_time c = Inr (?k * 1000000000)" using split short by (simp add: split_time_cases)
  moreover have "int_div (?k * 1000000000) 1000000000 = Inr ?k"
    using split short by (subst int_div_nonneg) (auto simp: in_int32_def)
  moreover have "chk64 (t - duration c) = Inr (t - duration c)" "chk64 (t + duration c) = Inr (t + duration c)"
    using range by (auto simp: chk64_def in_int64_def in_int32_def)
  moreover have "h\<lparr>vh_file_lock := False\<rparr> = h" using lock by simp
  ultimately show ?thesis
    using cfg lock short by (simp add: process_video_def to_int32_in [OF range(1)] to_int32_in [OF range(2)] Let_def
        split: option.split)
qed

definition demo_video_config :: "unit video_config" where
  "demo_video_config = \<lparr>vc_props = (), vc_width = 4, vc_height = 2, vc_frame_rate = ''2/1'', vc_format = ''RGB'',
     vc_split_time = 2, vc_duration = 3, vc_vid_path = ''video'', vc_maintain_sec = 10\<rparr>"

definition demo_handler :: "unit video_handler" where
  "demo_handler = \<lparr>vh_video_config = Some demo_video_config, vh_file_lock = False\<rparr>"

definition demo_store :: "string list \<Rightarrow> fs" where
  "demo_store names = ([''video''], Dir) # map (\<lambda>n. ([''video'', n], File ''data'')) names"

definition demo_gst :: gst_env where
  "demo_gst = \<lparr>ge_parse_launch = \<lambda>_. True, ge_set_playing = \<lambda>_. True, ge_bus = \<lambda>_. [None, Some Msg_error],
     ge_written = \<lambda>p fs. fs_put [''clip''] (File p) fs\<rparr>"

lemma demo_resolve: "resolve [] (save_path demo_video_config) = [''video'']"
  by (simp add: resolve_def save_path_def demo_video_config_def)

lemma stoi_demo: "stoi ''10.mp4'' = Inr 10" "stoi ''20.mp4'' = Inr 20" "stoi ''12.mp4'' = Inr 12" "stoi ''x.mp4'' = Inl Invalid_argument"
  by (simp_all add: stoi_def parse_int_def parse_sign_def is_space_def is_digit_def digits_val_def digit_val_def
      in_int32_def)

lemma demo_store_wf: "fs_wf (demo_store [''20.mp4'', ''10.mp4''])" "fs_wf (demo_store [''10.mp4'', ''x.mp4''])"
  by (simp_all add: fs_wf_def demo_store_def plain_name_def)

lemma demo_store_dir: "is_directory (demo_store names) (resolve [] (save_path demo_video_config))"
  unfolding demo_resolve by (simp add: is_directory_def fs_lookup_def demo_store_def)

lemma demo_recordings:
  "recordings (demo_store [''20.mp4'', ''10.mp4'']) [''video''] = [''20.mp4'', ''10.mp4'']"
  "recordings (demo_store [''10.mp4'', ''x.mp4'']) [''video''] = [''10.mp4'', ''x.mp4'']"
  by (simp_all add: recordings_def demo_store_def children_def extension_def Let_def)

lemma demo_clip:
  "process_video demo_gst [] 12 ''ev'' (demo_handler, demo_store [''20.mp4'', ''10.mp4'']) =
     Inr (Some (0, demo_handler, fs_put [''clip''] (File (concat_pipeline ''video'' ''ev'' [''10.mp4'']))
       (demo_store [''20.mp4'', ''10.mp4''])))"
proof -
  have r: "resolve [] ''video'' = [''video'']" by (simp add: resolve_def)
  have f: "set_filename (demo_store [''20.mp4'', ''10.mp4'']) [''video''] [] = Inr [''10.mp4'', ''20.mp4'']"
    by (simp add: set_filename_eq [OF demo_store_wf(1) demo_store_dir [unfolded demo_resolve]] demo_recordings
        sort_names_def stoi_demo)
  have t: "file_timestamp ''10.mp4'' = Inr 10" "file_timestamp ''20.mp4'' = Inr 20"
    by (simp_all add: file_timestamp_eq stoi_demo)
  show ?thesis
    by (simp add: process_video_def demo_handler_def split_time_def int_mul_def int_div_nonneg chk32_def in_int32_def
        demo_video_config_def chk64_def in_int64_def duration_def save_path_def r f select_file_def t int_add_def
        int_sub_def to_int32_def demo_gst_def)
qed

text \<open>The configuration of the README.\<close>

definition readme_handler :: "unit video_handler" where
  "readme_handler = \<lparr>vh_video_config = Some (demo_video_config\<lparr>vc_split_time := 40\<rparr>), vh_file_lock = False\<rparr>"

theorem clip_selects_overlap_witness:
  "process_video demo_gst [] 12 ''ev'' (demo_handler, demo_store [''20.mp4'', ''10.mp4'']) =
     Inr (Some (0, demo_handler, fs_put [''clip''] (File (concat_pipeline ''video'' ''ev'' [''10.mp4'']))
       (demo_store [''20.mp4'', ''10.mp4'']))) \<and>
   process_video demo_gst [] 12 ''ev'' (readme_handler, demo_store [''20.mp4'', ''10.mp4'']) = Inl SignedOverflow"
proof
  let ?fs = "demo_store [''20.mp4'', ''10.mp4'']"
  have d: "duration (demo_video_config\<lparr>vc_split_time := n\<rparr>) = 3" "save_path (demo_video_config\<lparr>vc_split_time := n\<rparr>) = ''video''"
    "vc_split_time (demo_video_config\<lparr>vc_split_time := n\<rparr>) = n" "demo_video_config\<lparr>vc_split_time := 2\<rparr> = demo_video_config" for n
    by (simp_all add: demo_video_config_def duration_def save_path_def)
  have r: "resolve [] ''video'' = [''video'']" by (simp add: resolve_def)
  have h: "vh_video_config h = Some (demo_video_config\<lparr>vc_split_time := n\<rparr>)" "\<not> vh_file_lock h"
    "0 < vc_split_time (demo_video_config\<lparr>vc_split_time := n\<rparr>)" "0 \<le> duration (demo_video_config\<lparr>vc_split_time := n\<rparr>)"
    "in_int32 (12 - duration (demo_video_config\<lparr>vc_split_time := n\<rparr>))"
    "in_int32 (12 + duration (demo_video_config\<lparr>vc_split_time := n\<rparr>))" "fs_wf ?fs"
    "is_directory ?fs (resolve [] (save_path (demo_video_config\<lparr>vc_split_time := n\<rparr>)))"
    "good_names ?fs (resolve [] (save_path (demo_video_config\<lparr>vc_split_time := n\<rparr>)))
       (vc_split_time (demo_video_config\<lparr>vc_split_time := n\<rparr>))"
    if "(h, n) \<in> {(demo_handler, 2), (readme_handler, 40)}" for h n
    using that demo_store_dir [unfolded demo_resolve] demo_store_wf(1)
    by (auto simp: d r demo_handler_def readme_handler_def in_int32_def good_names_def demo_recordings numbered_def
        start_of_def stoi_demo)
  have s: "start_of ''20.mp4'' = 20" "start_of ''10.mp4'' = 10" by (simp_all add: start_of_def stoi_demo)
  have "(10::int) \<in> {10..<12} \<inter> {9..15}" by simp
  then have "{10..<12} \<inter> {9..15} \<noteq> ({} :: int set)" by (metis empty_iff)
  moreover have "{20..<22} \<inter> {9..15} = ({} :: int set)" by auto
  ultimately have "filter (\<lambda>f. {start_of f..<start_of f + 2} \<inter> {9..15} \<noteq> {}) [''20.mp4'', ''10.mp4''] = [''10.mp4'']"
    by (simp add: s)
  with clip_selects_overlap [OF h [of demo_handler 2], of "''ev''" demo_gst]
  show "process_video demo_gst [] 12 ''ev'' (demo_handler, ?fs) =
     Inr (Some (0, demo_handler, fs_put [''clip''] (File (concat_pipeline ''video'' ''ev'' [''10.mp4''])) ?fs))"
    unfolding d(1-3) r demo_recordings Let_def by (simp add: demo_gst_def)
  show "process_video demo_gst [] 12 ''ev'' (readme_handler, ?fs) = Inl SignedOverflow"
    using clip_selects_overlap [OF h [of readme_handler 40], of "''ev''" demo_gst] by (simp add: d Let_def)
qed

lemma get_video_path: "has_filename (clip_path save event_id)"
proof -
  have "split_slash (clip_path (save) event_id) =
      split_slash (save @ CHR ''/'' # ''event'') @ split_slash (event_id @ ''.mp4'')"
    using split_slash_join [of "save @ CHR ''/'' # ''event''" "event_id @ ''.mp4''"]
    by (simp add: clip_path_def)
  moreover have "last (split_slash (event_id @ ''.mp4'')) \<noteq> []"
  proof (induction event_id)
    case Nil
    show ?case by simp
  next
    case (Cons c s)
    then show ?case
      using split_slash_nonempty [of "s @ ''.mp4''"]
      by (cases "split_slash (s @ ''.mp4'')") (auto split: if_splits)
  qed
  ultimately show ?thesis by (simp add: has_filename_def)
qed

text \<open>
  \<open>get_video\<close> reports success for every event.  The path it returns is the clip's, it always has
  a file name, and nothing is looked up in the file system; the header documents a check whether
  the clip exists.
\<close>
theorem get_video_always_succeeds:
  assumes "vh_video_config h = Some c"
  shows "get_video h event_id t = Inr (0, Some (clip_path (save_path c) event_id))"
  using assms get_video_path [of "save_path c" event_id] by (simp add: get_video_def Let_def)

theorem get_video_always_succeeds_witness:
  "get_video demo_handler ''nosuch'' 0 = Inr (0, Some ''video/event/nosuch.mp4'')"
  using get_video_always_succeeds [of demo_handler demo_video_config "''nosuch''" 0]
  by (simp add: demo_handler_def clip_path_def save_path_def demo_video_config_def)

subsection \<open>Removing old recordings\<close>

lemma remove_loop:
  assumes "\<forall>f \<in> set files. length f < 2 ^ 64 \<and> numbered f \<and> plain_name f \<and>
      fs_lookup fs (resolve cwd p @ [f]) \<noteq> Some Dir"
    and "p \<noteq> []" and "in_int32 (now - m)"
  shows "\<exists>fs'. rfold (remove_old cwd p now m) files fs = Inr fs' \<and>
    (\<forall>q. fs_lookup fs' q = (if \<exists>f \<in> set files. q = resolve cwd p @ [f] \<and> start_of f < now - m
       then None else fs_lookup fs q))"
  using assms(1)
proof (induction files arbitrary: fs)
  case Nil
  then show ?case by simp
next
  case (Cons f files)
  let ?q = "resolve cwd p @ [f]"
  have t: "file_timestamp f = Inr (start_of f)"
    using Cons.prems by (auto simp: file_timestamp_eq start_of_def numbered_def)
  have r: "resolve cwd (p @ ''/'' @ f) = ?q"
    using resolve_child [OF assms(2), of f cwd] Cons.prems by simp
  obtain fs1 where fs1: "remove_old cwd p now m f fs = Inr fs1" and
    look: "\<And>q. fs_lookup fs1 q = (if q = ?q \<and> start_of f < now - m then None else fs_lookup fs q)"
  proof (cases "start_of f < now - m")
    case True
    then obtain fs1 where "remove_file ?q fs = Inr fs1"
      using Cons.prems by (auto simp: remove_file_def)
    with True t r fs_lookup_remove_file [OF this] show ?thesis
      by (intro that [of fs1]) (auto simp: remove_old_def int_sub_def chk32_in [OF assms(3)])
  next
    case False
    with t show ?thesis
      by (intro that [of fs]) (auto simp: remove_old_def int_sub_def chk32_in [OF assms(3)])
  qed
  have "\<forall>g \<in> set files. length g < 2 ^ 64 \<and> numbered g \<and> plain_name g \<and> fs_lookup fs1 (resolve cwd p @ [g]) \<noteq> Some Dir"
    using Cons.prems by (auto simp: look)
  from Cons.IH [OF this] fs1 look show ?case by (auto split: if_splits)
qed

text \<open>
  C20: Cleaning.  \<open>remove_video\<close> on the save path deletes exactly the recordings that began before
  now minus the time to keep, leaves every other file and directory as it was, returns 0 and the
  lock free.
\<close>
theorem remove_video_exact:
  assumes cfg: "vh_video_config h = Some c" and lock: "\<not> vh_file_lock h"
    and range: "in_int32 now" "in_int32 (now - m)" and path: "save_path c \<noteq> []"
    and wf: "fs_wf fs" and dir: "is_directory fs (resolve cwd (save_path c))"
    and names: "\<forall>f \<in> set (recordings fs (resolve cwd (save_path c))). length f < 2 ^ 64 \<and> numbered f"
  shows "\<exists>fs'. remove_video cwd now m (save_path c) (h, fs) = Inr (Some (0, h, fs')) \<and>
    (\<forall>q. fs_lookup fs' q =
      (if \<exists>f \<in> set (recordings fs (resolve cwd (save_path c))).
            q = resolve cwd (save_path c) @ [f] \<and> start_of f < now - m
       then None else fs_lookup fs q))"
proof -
  let ?p = "resolve cwd (save_path c)"
  have "set_filename fs ?p [] = Inr (sort_key start_of (recordings fs ?p))"
    using names by (simp add: set_filename_eq [OF wf dir] sort_names_ok)
  moreover have "\<forall>f \<in> set (sort_key start_of (recordings fs ?p)). length f < 2 ^ 64 \<and> numbered f \<and>
      plain_name f \<and> fs_lookup fs (?p @ [f]) \<noteq> Some Dir"
  proof
    fix f
    assume "f \<in> set (sort_key start_of (recordings fs ?p))"
    then have f: "f \<in> set (recordings fs ?p)" by simp
    from f recordings_mem [OF wf, of f ?p] have "fs_lookup fs (?p @ [f]) \<noteq> Some Dir" by auto
    with f names recordings_plain [OF wf f] show "length f < 2 ^ 64 \<and> numbered f \<and> plain_name f \<and>
      fs_lookup fs (?p @ [f]) \<noteq> Some Dir" by blast
  qed
  from remove_loop [OF this path range(2)] obtain fs' where
    "rfold (remove_old cwd (save_path c) now m) (sort_key start_of (recordings fs ?p)) fs = Inr fs'"
    "\<And>q. fs_lookup fs' q = (if \<exists>f \<in> set (recordings fs ?p). q = ?p @ [f] \<and> start_of f < now - m
       then None else fs_lookup fs q)"
    by auto
  moreover have "h\<lparr>vh_file_lock := False\<rparr> = h" using lock by simp
  ultimately show ?thesis
    using cfg lock by (simp add: remove_video_def to_int32_in [OF range(1)])
qed

theorem remove_video_exact_witness:
  "\<exists>fs'. remove_video [] 25 10 ''video'' (demo_handler, demo_store [''20.mp4'', ''10.mp4'']) =
      Inr (Some (0, demo_handler, fs')) \<and>
    fs_lookup fs' [''video'', ''10.mp4''] = None \<and> fs_lookup fs' [''video'', ''20.mp4''] = Some (File ''data'')"
proof -
  let ?fs = "demo_store [''20.mp4'', ''10.mp4'']"
  have s: "save_path demo_video_config = ''video''" by (simp add: save_path_def demo_video_config_def)
  have h: "vh_video_config demo_handler = Some demo_video_config" "\<not> vh_file_lock demo_handler"
    "in_int32 25" "in_int32 (25 - 10)" "save_path demo_video_config \<noteq> []"
    by (simp_all add: demo_handler_def in_int32_def s)
  have n: "\<forall>f \<in> set (recordings ?fs (resolve [] (save_path demo_video_config))). length f < 2 ^ 64 \<and> numbered f"
    unfolding demo_resolve demo_recordings by (simp add: numbered_def stoi_demo)
  have st: "start_of ''20.mp4'' = 20" "start_of ''10.mp4'' = 10" by (simp_all add: start_of_def stoi_demo)
  have "fs_lookup ?fs [''video'', ''20.mp4''] = Some (File ''data'')" by (simp add: fs_lookup_def demo_store_def)
  with remove_video_exact [OF h demo_store_wf(1) demo_store_dir n] show ?thesis
    unfolding demo_resolve demo_recordings by (auto simp: s st)
qed

text \<open>
  One file whose name is no number stops both.  If any recording's name does not begin with an
  \<open>int\<close>, building any clip and cleaning end in an exception that nobody catches.
\<close>
theorem stray_recording_throws:
  assumes cfg: "vh_video_config h = Some c" and lock: "\<not> vh_file_lock h"
    and split: "0 < vc_split_time c" "vc_split_time c \<le> 2" and range: "in_int32 (t - duration c)" "in_int32 (t + duration c)"
    and wf: "fs_wf fs" and dir: "is_directory fs (resolve cwd (save_path c))"
    and stray: "f \<in> set (recordings fs (resolve cwd (save_path c)))" "\<not> numbered f" "length f < 2 ^ 64"
  shows "(\<exists>e. process_video gst cwd t event_id (h, fs) = Inl (Uncaught e)) \<and>
    (\<exists>e. remove_video cwd now m (save_path c) (h, fs) = Inl (Uncaught e))"
proof -
  let ?p = "resolve cwd (save_path c)"
  from stray(2) obtain e where e: "stoi f = Inl e" by (cases "stoi f") (auto simp: numbered_def)
  have "\<exists>f' \<in> set (recordings fs ?p). \<not> numbered f'" using stray by blast
  from sort_names_throws [OF this] consider
    "recordings fs ?p = [f]" "set_filename fs ?p [] = Inr [f]" |
    e' where "set_filename fs ?p [] = Inl e'"
    using stray(1) by (auto simp: set_filename_eq [OF wf dir])
  then have loop: "(\<exists>e'. set_filename fs ?p [] = Inl e') \<or>
      (set_filename fs ?p [] = Inr [f] \<and> file_timestamp f = Inl (Uncaught e))"
    using e by cases (auto simp: file_timestamp_eq [OF stray(3)])
  have "split_time c = Inr (vc_split_time c * 1000000000)" using split by (simp add: split_time_cases)
  moreover have "int_div (vc_split_time c * 1000000000) 1000000000 = Inr (vc_split_time c)"
    using split by (subst int_div_nonneg) (auto simp: in_int32_def)
  moreover have "chk64 (t - duration c) = Inr (t - duration c)" "chk64 (t + duration c) = Inr (t + duration c)"
    using range by (auto simp: chk64_def in_int64_def in_int32_def)
  ultimately show ?thesis
    using cfg lock loop by (auto simp: process_video_def remove_video_def select_file_def remove_old_def)
qed

theorem stray_recording_throws_witness:
  "\<exists>e. process_video demo_gst [] 12 ''ev'' (demo_handler, demo_store [''10.mp4'', ''x.mp4'']) = Inl (Uncaught e)"
proof -
  have h: "vh_video_config demo_handler = Some demo_video_config" "\<not> vh_file_lock demo_handler"
    "0 < vc_split_time demo_video_config" "vc_split_time demo_video_config \<le> 2"
    "in_int32 (12 - duration demo_video_config)" "in_int32 (12 + duration demo_video_config)"
    by (simp_all add: demo_handler_def demo_video_config_def duration_def in_int32_def)
  have "''x.mp4'' \<in> set (recordings (demo_store [''10.mp4'', ''x.mp4'']) (resolve [] (save_path demo_video_config)))"
    unfolding demo_resolve demo_recordings by simp
  from stray_recording_throws [OF h demo_store_wf(2) demo_store_dir this] show ?thesis
    by (simp add: numbered_def stoi_demo)
qed

subsection \<open>Names of recordings\<close>

text \<open>
  C40: The name a recording gets is the name the handler reads back.  \<open>format_location_callback\<close>
  places it in the directory \<open>video\<close> with the extension the listing looks for, and its timestamp is
  the time of the callback as long as that fits an \<open>int\<close>; from the year 2038 on, reading it throws.
\<close>
theorem recording_name_roundtrip:
  assumes "0 \<le> t" and "in_int64 t"
  shows "\<exists>name. resolve cwd (format_location_callback t) = cwd @ [''video'', name] \<and>
    extension name = ''.mp4'' \<and>
    file_timestamp name = (if t < 2 ^ 31 then Inr t else Inl (Uncaught Out_of_range))"
proof -
  let ?n = "nat_to_string (nat t)"
  let ?name = "?n @ ''.mp4''"
  have digits: "\<forall>c \<in> set ?n. is_digit c" by (rule nat_to_string_digits)
  then have nodot: "CHR ''.'' \<notin> set ?n" "CHR ''/'' \<notin> set ?n" by (auto simp: is_digit_def)
  have plain: "plain_name ?name" using nodot by (auto simp: plain_name_def)
  have "nat t < 10 ^ Suc 18" using assms by (simp add: in_int64_def nat_less_iff)
  from length_nat_to_string [OF this] have "length ?n \<le> 19" by simp
  have "stoi ?name = (if in_int32 t then Inr t else Inl Out_of_range)"
    using stoi_to_string [of t "''.mp4''"] assms(1) by (simp add: to_string_def is_digit_def)
  moreover have "length ?name < 2 ^ 64" using \<open>length ?n \<le> 19\<close> by simp
  moreover have "resolve cwd (format_location_callback t) = cwd @ [''video'', ?name]"
    using resolve_child [of "''video''" ?name cwd] resolve_plain [of "''video''" cwd] plain assms(1)
    by (simp add: format_location_callback_def to_string_def plain_name_def)
  moreover have "extension ?name = ''.mp4''"
    by (simp add: extension_def)
  ultimately show ?thesis
    using assms(1) by (intro exI [of _ ?name]) (auto simp: file_timestamp_eq in_int32_def)
qed

theorem recording_name_roundtrip_witness:
  "(\<exists>name. resolve [] (format_location_callback 1733000000) = [''video'', name] \<and> file_timestamp name = Inr 1733000000) \<and>
   (\<exists>name. resolve [] (format_location_callback 4000000000) = [''video'', name] \<and>
      file_timestamp name = Inl (Uncaught Out_of_range))"
  using recording_name_roundtrip [of 1733000000 "[]"] recording_name_roundtrip [of 4000000000 "[]"]
  by (auto simp: in_int64_def)

end
