(* ===== verification/Http_Props.thy ===== *)
theory Http_Props
  imports Http_Init Event_Props Video_Props
begin

text \<open>
  What the HTTP server guarantees: the accounting of upload slots, what an upload leaves in the file
  system, the replies of the event and program requests, routing, and the first boot.
\<close>

subsection \<open>Upload slots\<close>

text \<open>
  The requests a client can make, in any order and interleaved: the pair is the list of uploads in
  progress and the world.
\<close>

inductive http_step ::
  "'pp mhd_env \<Rightarrow> os_env \<Rightarrow> path \<Rightarrow> 'pp connection_info list \<times> ('p, 'h) http_world \<Rightarrow>
     'pp connection_info list \<times> ('p, 'h) http_world \<Rightarrow> bool"
  for mhd os cwd where
  upload_opens: "program_accept mhd None data w = Inr (r, Some c, n, w') \<Longrightarrow>
    http_step mhd os cwd (cs, w) (c # cs, w')"
| upload_busy: "program_accept mhd None data w = Inr (r, None, n, w') \<Longrightarrow>
    http_step mhd os cwd (cs, w) (cs, w')"
| upload_continues: "program_accept mhd (Some c) data w = Inr (r, Some c', n, w') \<Longrightarrow>
    http_step mhd os cwd (xs @ c # ys, w) (xs @ c' # ys, w')"
| upload_completes: "post_request_complete mhd os cwd (Some c) w = Inr (ls, w') \<Longrightarrow>
    http_step mhd os cwd (xs @ c # ys, w) (xs @ ys, w')"
| starts: "program_start_accept mhd mk con data w = Inr (r, con', n, w') \<Longrightarrow>
    http_step mhd os cwd (cs, w) (cs, w')"
| stops: "program_stop_accept mhd con data w = Inr (r, con', n, w') \<Longrightarrow>
    http_step mhd os cwd (cs, w) (cs, w')"
| other_completes: "cn_connection_type c = method_code GET \<Longrightarrow>
    post_request_complete mhd os cwd (Some c) w = Inr (ls, w') \<Longrightarrow>
    http_step mhd os cwd (cs, w) (cs, w')"
| event: "event_accept mhd gst cwd headers w = Inr (Some (r, w')) \<Longrightarrow>
    http_step mhd os cwd (cs, w) (cs, w')"

inductive http_reachable ::
  "'pp mhd_env \<Rightarrow> os_env \<Rightarrow> path \<Rightarrow> ('p, 'h) http_world \<Rightarrow>
     'pp connection_info list \<times> ('p, 'h) http_world \<Rightarrow> bool"
  for mhd os cwd w0 where
  start: "http_reachable mhd os cwd w0 ([], w0)"
| step: "http_reachable mhd os cwd w0 s \<Longrightarrow> http_step mhd os cwd s s' \<Longrightarrow>
    http_reachable mhd os cwd w0 s'"

definition slots_inv :: "int \<Rightarrow> 'pp connection_info list \<times> ('p, 'h) http_world \<Rightarrow> bool" where
  "slots_inv N s \<longleftrightarrow> (case s of (cs, w) \<Rightarrow>
     0 \<le> eh_upload_client (w_http w) \<and> eh_upload_client (w_http w) + int (length cs) = N \<and>
     (\<forall>c \<in> set cs. cn_connection_type c = method_code POST \<and> cn_postprocessor c \<noteq> None))"

lemma queue_response_frame [simp]:
  "w_http (snd (queue_response mhd status payload w)) = w_http w"
  "w_fs (snd (queue_response mhd status payload w)) = w_fs w"
  by (simp_all add: queue_response_def)

lemma send_response_frame [simp]:
  "w_http (snd (send_response mhd payload status w)) = w_http w"
  "w_fs (snd (send_response mhd payload status w)) = w_fs w"
  by (simp_all add: send_response_def)

lemma send_response_http: "send_response mhd p st w = (r, w') \<Longrightarrow> w_http w' = w_http w"
  using send_response_frame(1) [of mhd p st w] by simp

lemma run_iterator_frame:
  assumes "\<And>call c r c'. it call c = Inr (r, c') \<Longrightarrow> cn_connection_type c' = cn_connection_type c"
    and "run_iterator it calls c = Inr c'"
  shows "cn_connection_type c' = cn_connection_type c"
  using assms(2)
proof (induction calls arbitrary: c)
  case Nil
  then show ?case by simp
next
  case (Cons call calls)
  then obtain r c1 where it: "it call c = Inr (r, c1)"
    and rest: "c' = c1 \<or> run_iterator it calls c1 = Inr c'"
    by (auto simp: rbind_eq_Inr split: if_splits)
  from rest Cons.IH [of c1] assms(1) [OF it] show ?case by auto
qed

lemma iterate_program_post_type:
  "iterate_program_post call c = Inr (r, c') \<Longrightarrow> cn_connection_type c' = cn_connection_type c"
  by (auto simp: iterate_program_post_def Let_def split: prod.splits if_splits)

lemma iterate_get_filename_type:
  "iterate_get_filename call c = Inr (r, c') \<Longrightarrow> cn_connection_type c' = cn_connection_type c"
  by (auto simp: iterate_get_filename_def Let_def rbind_eq_Inr split: prod.splits if_splits)

lemma post_process_frame:
  assumes "\<And>call c r c'. it call c = Inr (r, c') \<Longrightarrow> cn_connection_type c' = cn_connection_type c"
    and "post_process mhd it data c = Inr c'"
  shows "cn_connection_type c' = cn_connection_type c \<and>
    (cn_postprocessor c \<noteq> None \<longrightarrow> cn_postprocessor c' \<noteq> None)"
proof (cases "cn_postprocessor c")
  case None
  with assms(2) show ?thesis by (simp add: post_process_def)
next
  case (Some pp)
  with assms(2) obtain calls pp1 c1 where "run_iterator it calls c = Inr c1" "c' = c1\<lparr>cn_postprocessor := Some pp1\<rparr>"
    by (auto simp: post_process_def rbind_eq_Inr split: prod.splits)
  with run_iterator_frame [of it calls c c1, OF assms(1)] show ?thesis by simp
qed

lemma post_request_complete_slots:
  assumes "post_request_complete mhd os cwd (Some c) w = Inr (ls, w')"
  shows "eh_upload_client (w_http w') = eh_upload_client (w_http w) +
    (if cn_connection_type c = method_code POST \<and> cn_postprocessor c \<noteq> None then 1 else 0)"
proof (cases "cn_connection_type c = method_code POST")
  case False
  with assms show ?thesis by (simp add: post_request_complete_def)
next
  case True
  with assms obtain w1 where w1: "release_slot c w = Inr w1" and h: "w_http w' = w_http w1"
    by (auto simp: post_request_complete_def rbind_eq_Inr Let_def
        split: if_splits sum.splits prod.splits)
  then show ?thesis
    using True by (auto simp: release_slot_def rbind_eq_Inr int_add_def chk32_eq_Inr split: if_splits)
qed

lemma program_accept_slots:
  assumes "program_accept mhd None data w = Inr (r, con, n, w')"
  shows "case con of
      None \<Rightarrow> eh_upload_client (w_http w') = eh_upload_client (w_http w)
    | Some c \<Rightarrow> 0 < eh_upload_client (w_http w) \<and>
        eh_upload_client (w_http w') = eh_upload_client (w_http w) - 1 \<and>
        cn_connection_type c = method_code POST \<and> cn_postprocessor c \<noteq> None"
proof (cases "eh_upload_client (w_http w) \<le> 0")
  case True
  obtain r' w1 where s: "send_response mhd ''program upload busy, try again later'' 503 w = (r', w1)"
    by fastforce
  then have "w_http w1 = w_http w" by (metis send_response_frame(1) snd_conv)
  with assms True s show ?thesis by (auto simp: program_accept_def)
next
  case False
  with assms show ?thesis
    by (auto simp: program_accept_def rbind_eq_Inr int_sub_def chk32_eq_Inr split: option.splits)
qed

lemma program_accept_continues:
  assumes "program_accept mhd (Some c) data w = Inr (r, Some c', n, w')"
  shows "w_http w' = w_http w \<and> cn_connection_type c' = cn_connection_type c \<and>
    (cn_postprocessor c \<noteq> None \<longrightarrow> cn_postprocessor c' \<noteq> None)"
proof (cases "data = []")
  case True
  with assms show ?thesis
    by (auto simp: program_accept_def Let_def split: if_splits sum.splits)
next
  case False
  with assms have "post_process mhd iterate_program_post data c = Inr c'" "w' = w"
    by (auto simp: program_accept_def rbind_eq_Inr)
  then show ?thesis using post_process_frame [of iterate_program_post mhd data c c', OF iterate_program_post_type]
    by auto
qed

lemma post_open_slots: "post_open mhd data w = Inr (r, con, n, w') \<Longrightarrow> w_http w' = w_http w"
  by (auto simp: post_open_def dest!: send_response_http split: option.splits prod.splits)

lemma event_accept_slots:
  assumes "event_accept mhd gst cwd headers w = Inr (Some (r, w'))"
  shows "w_http w' = w_http w"
proof -
  define e where "e = iterate_headers headers \<lparr>ev_time_stamp = 0, ev_id = ''''\<rparr>"
  show ?thesis
  proof (cases "ev_id e = [] \<or> ev_time_stamp e = 0")
    case True
    with assms show ?thesis
      by (auto simp: event_accept_def Let_def e_def [symmetric] dest!: send_response_http split: if_splits)
  next
    case False
    with assms obtain vid_ret vh fs1 where "process_video gst cwd (ev_time_stamp e) (ev_id e) (w_video w, w_fs w) =
        Inr (Some (vid_ret, vh, fs1))"
      by (auto simp: event_accept_def Let_def e_def [symmetric] rbind_eq_Inr split: option.splits)
    with False assms show ?thesis
      by (auto simp: event_accept_def Let_def e_def [symmetric] rbind_eq_Inr dest!: send_response_http
          split: if_splits)
  qed
qed

lemma http_step_slots:
  assumes "http_step mhd os cwd s s'" and "slots_inv N s"
  shows "slots_inv N s'"
  using assms
proof (induction rule: http_step.induct)
  case (upload_opens data w r c n w' cs)
  with program_accept_slots [OF upload_opens(1)] show ?case by (auto simp: slots_inv_def)
next
  case (upload_busy data w r n w' cs)
  with program_accept_slots [OF upload_busy(1)] show ?case by (auto simp: slots_inv_def)
next
  case (upload_continues c data w r c' n w' xs ys)
  with program_accept_continues [OF upload_continues(1)] show ?case by (auto simp: slots_inv_def)
next
  case (upload_completes c w ls w' xs ys)
  with post_request_complete_slots [OF upload_completes(1)] show ?case by (auto simp: slots_inv_def)
next
  case (starts mk con data w r con' n w' cs)
  then show ?case
    by (auto simp: slots_inv_def program_start_accept_def rbind_eq_Inr dest!: post_open_slots split: option.splits if_splits)
next
  case (stops con data w r con' n w' cs)
  then show ?case
    by (auto simp: slots_inv_def program_stop_accept_def rbind_eq_Inr dest!: post_open_slots
        split: option.splits if_splits)
next
  case (other_completes c w ls w' cs)
  then have "w_http w' = w_http w" by (auto simp: post_request_complete_def)
  with other_completes show ?case by (auto simp: slots_inv_def)
next
  case (event gst headers w r w' cs)
  from event_accept_slots [OF event(1)] event(2) show ?case by (auto simp: slots_inv_def)
qed

text \<open>
  C21: Upload slots are neither lost nor invented.  From a server configured for \<open>N\<close> concurrent
  uploads, whatever requests run and however they interleave, the free slots and the uploads in
  progress always add up to \<open>N\<close>, the free slots are never negative, and so no more than \<open>N\<close> uploads
  are ever in progress.
\<close>
theorem upload_slots_conserved:
  assumes "0 \<le> eh_upload_client (w_http w0)" and "http_reachable mhd os cwd w0 (cs, w)"
  shows "eh_upload_client (w_http w) + int (length cs) = eh_upload_client (w_http w0) \<and>
    0 \<le> eh_upload_client (w_http w) \<and> int (length cs) \<le> eh_upload_client (w_http w0)"
proof -
  have "slots_inv (eh_upload_client (w_http w0)) s" if "http_reachable mhd os cwd w0 s" for s
    using that
  proof (induction rule: http_reachable.induct)
    case start
    show ?case using assms(1) by (simp add: slots_inv_def)
  next
    case (step s s')
    then show ?case using http_step_slots by blast
  qed
  from this [OF assms(2)] show ?thesis by (simp add: slots_inv_def)
qed

definition demo_mhd :: "unit mhd_env" where
  "demo_mhd = \<lparr>mhd_create_response = \<lambda>_. True, mhd_queue = \<lambda>_ _. True, mhd_create_post_processor = Some (),
     mhd_iterations = \<lambda>pp data. ([(''name'', data, [CHR 0x00], 0)], ())\<rparr>"

text \<open>An operating system that refuses nothing.\<close>

definition os_fine :: os_env where
  "os_fine = \<lparr>os_open = \<lambda>_. True, os_mkdir = True, os_replace = None, os_cleanup = None\<rparr>"

lemma os_fine_simps [simp]:
  "os_open os_fine = (\<lambda>_. True)" "os_mkdir os_fine" "os_replace os_fine = None" "os_cleanup os_fine = None"
  by (simp_all add: os_fine_def)

definition demo_world :: "fs \<Rightarrow> (unit, unit) http_world" where
  "demo_world fs = \<lparr>w_fs = fs, w_http = demo_http, w_video = demo_handler, w_events = event_handler_ctor,
     w_queue = demo_queue, w_responses = [], w_video_threads = []\<rparr>"

theorem upload_slots_conserved_witness:
  "\<exists>c w. http_reachable demo_mhd os_fine [] (demo_world []) ([c], w) \<and> eh_upload_client (w_http w) = 0"
proof -
  obtain c w where p: "program_accept demo_mhd None ''x'' (demo_world []) = Inr (MHD_YES, Some c, 1, w)"
    by (simp add: program_accept_def demo_world_def demo_http_def demo_mhd_def int_sub_def chk32_def in_int32_def)
  from http_step.upload_opens [OF this] http_reachable.start
  have r: "http_reachable demo_mhd os_fine [] (demo_world []) ([c], w)"
    by (rule http_reachable.step [rotated])
  moreover have "0 \<le> eh_upload_client (w_http (demo_world []))" "eh_upload_client (w_http (demo_world [])) = 1"
    by (simp_all add: demo_world_def demo_http_def)
  ultimately show ?thesis
    using upload_slots_conserved [of "demo_world []" demo_mhd os_fine "[]" "[c]" w] by auto
qed

subsection \<open>What an upload leaves behind\<close>

lemma start_dir_event: "start_dir cwd (''event/'' @ s) = cwd"
  by (simp add: start_dir_def)

lemma resolve_event: "resolve cwd (''event/'' @ s) = walk (cwd @ [''event'']) (split_slash s)"
  using resolve_dir_name [of "''event''" cwd s] by (simp add: plain_name_def)

lemma split_event: "split_slash (''event/'' @ s) = ''event'' # split_slash s"
  using split_slash_append [of "''event''" s] by simp

lemma locate_event_dir:
  assumes "plain_name n"
  shows "locate fs cwd (event_directory n) =
    (if is_directory fs cwd \<and> is_directory fs (cwd @ [''event'']) then Some (cwd @ [''event'', n]) else None)"
proof -
  have "split_slash (n @ ''/'') = [n, []]"
    using split_slash_append [of n "''''"] assms by (simp add: plain_name_def)
  then show ?thesis
    using assms unfolding event_directory_def locate_def start_dir_event resolve_event split_event
    by (simp add: plain_name_def)
qed

lemma locate_event_file:
  assumes "plain_name n" and "plain_name x"
  shows "locate fs cwd (event_directory n @ x) =
    (if is_directory fs cwd \<and> is_directory fs (cwd @ [''event'']) \<and> is_directory fs (cwd @ [''event'', n])
     then Some (cwd @ [''event'', n, x]) else None)"
proof -
  have "split_slash (n @ ''/'' @ x) = [n, x]"
    using split_slash_append [of n x] split_slash_no_slash [of x] assms by (simp add: plain_name_def)
  moreover have "event_directory n @ x = ''event/'' @ (n @ ''/'' @ x)" by (simp add: event_directory_def)
  ultimately show ?thesis
    using assms by (simp only: locate_def start_dir_event resolve_event split_event) (simp add: plain_name_def)
qed

lemma write_file_lookup:
  assumes "locate fs cwd s = Some p" and "can_open p" and "p \<noteq> []" and "is_directory fs (butlast p)"
    and "\<not> is_directory fs p"
  shows "\<exists>fs'. write_file can_open cwd app s content fs = (True, fs') \<and>
    (\<forall>q. fs_lookup fs' q = (if q = p then
       Some (File ((case fs_lookup fs p of Some (File c) \<Rightarrow> if app then c else '''' | _ \<Rightarrow> '''') @ content))
       else fs_lookup fs q))"
proof -
  obtain fs1 where fs1: "open_out can_open app p fs = Some fs1" and
    look: "\<And>q. fs_lookup fs1 q = (if q = p then
       Some (File (case fs_lookup fs p of Some (File c) \<Rightarrow> if app then c else '''' | _ \<Rightarrow> '''')) else fs_lookup fs q)"
    using assms(2-5) by (auto simp: open_out_def fs_lookup_put is_directory_def
        split: option.split node.split)
  have "write_file can_open cwd app s content fs = (True, append_file p content fs1)"
    using assms(1) fs1 by (simp add: write_file_def)
  moreover have "fs_lookup (append_file p content fs1) q = (if q = p then
       Some (File ((case fs_lookup fs p of Some (File c) \<Rightarrow> if app then c else '''' | _ \<Rightarrow> '''') @ content))
       else fs_lookup fs q)" for q
    using look assms(3) by (simp add: append_file_def fs_lookup_put)
  ultimately show ?thesis by blast
qed

definition upload_ok :: "path \<Rightarrow> fs \<Rightarrow> 'pp connection_info \<Rightarrow> bool" where
  "upload_ok cwd fs c \<longleftrightarrow>
     cn_connection_type c = method_code POST \<and> cn_file_content c \<noteq> [] \<and>
     plain_name (cn_file_name c) \<and> plain_name (cn_fps c) \<and>
     distinct [cn_file_name c, cn_fps c, ''enable''] \<and>
     is_directory fs cwd \<and> is_directory fs (cwd @ [''event'']) \<and>
     (fs_lookup fs (cwd @ [''event'', cn_file_name c]) = Some Dir \<or>
      (\<forall>r. fs_lookup fs (cwd @ [''event'', cn_file_name c] @ r) = None))"

text \<open>The files of a program directory after an upload.\<close>

definition program_files :: "path \<Rightarrow> 'pp connection_info \<Rightarrow> (path \<Rightarrow> node option) \<Rightarrow> path \<Rightarrow> node option" where
  "program_files cwd c old q =
     (let p = cwd @ [''event'', cn_file_name c] in
      if q = p then Some Dir
      else if q = p @ [cn_file_name c] then Some (File (cn_file_content c))
      else if q = p @ [cn_fps c] then Some (File '''')
      else if q = p @ [''enable''] then Some (File ''1'')
      else if below p q then None
      else old q)"

lemma save_program_lookup:
  assumes "plain_name (cn_file_name c)" and "plain_name (cn_fps c)"
    and "distinct [cn_file_name c, cn_fps c, ''enable'']"
    and "is_directory fs cwd" and "is_directory fs (cwd @ [''event''])"
    and dir: "is_directory fs (cwd @ [''event'', cn_file_name c])"
    and fresh: "\<And>r. r \<noteq> [] \<Longrightarrow> fs_lookup fs (cwd @ [''event'', cn_file_name c] @ r) = None"
  shows "\<exists>fs'. save_program (\<lambda>_. True) cwd c fs = (True, fs') \<and>
    fs_lookup fs' = program_files cwd c (fs_lookup fs)"
proof -
  let ?n = "cn_file_name c" and ?f = "cn_fps c"
  let ?p = "cwd @ [''event'', ?n]"
  have dirs: "is_directory g cwd \<and> is_directory g (cwd @ [''event'']) \<and> is_directory g ?p"
    if "\<And>q. fs_lookup fs q = Some Dir \<Longrightarrow> fs_lookup g q = Some Dir" for g
    using assms(4-6) that by (simp add: is_directory_def)
  have plain_enable: "plain_name ''enable''" by (simp add: plain_name_def)
  have none: "fs_lookup fs (?p @ [x]) = None" for x using fresh [of "[x]"] by simp
  have loc: "locate g cwd (event_directory ?n @ x) = Some (?p @ [x])"
    if "\<And>q. fs_lookup fs q = Some Dir \<Longrightarrow> fs_lookup g q = Some Dir" "plain_name x" for g x
    using dirs [OF that(1)] locate_event_file [OF assms(1) that(2), of g cwd] by simp
  obtain fs1 where 1: "write_file (\<lambda>_. True) cwd False (event_directory ?n @ ?n) (cn_file_content c) fs = (True, fs1)"
    and l1: "\<And>q. fs_lookup fs1 q = (if q = ?p @ [?n] then Some (File (cn_file_content c)) else fs_lookup fs q)"
    using write_file_lookup [OF loc [of fs ?n], of "\<lambda>_. True" False "cn_file_content c"] dir none assms(1)
    by (auto simp: is_directory_def butlast_append)
  have k1: "fs_lookup fs q = Some Dir \<Longrightarrow> fs_lookup fs1 q = Some Dir" for q using none by (auto simp: l1)
  obtain fs2 where 2: "write_file (\<lambda>_. True) cwd True (event_directory ?n @ ?f) '''' fs1 = (True, fs2)"
    and l2: "\<And>q. fs_lookup fs2 q = (if q = ?p @ [?f] then Some (File '''') else fs_lookup fs1 q)"
    using write_file_lookup [OF loc [OF k1 assms(2)], of "\<lambda>_. True" True "''''"] dirs [OF k1] none assms(3)
    by (auto simp: is_directory_def butlast_append l1)
  have k2: "fs_lookup fs q = Some Dir \<Longrightarrow> fs_lookup fs2 q = Some Dir" for q using none k1 by (auto simp: l2)
  obtain fs3 where 3: "write_file (\<lambda>_. True) cwd True (event_directory ?n @ ''enable'') ''1'' fs2 = (True, fs3)"
    and l3: "\<And>q. fs_lookup fs3 q = (if q = ?p @ [''enable''] then Some (File ''1'') else fs_lookup fs2 q)"
    using write_file_lookup [OF loc [OF k2 plain_enable], of "\<lambda>_. True" True "''1''"] dirs [OF k2] none assms(3)
    by (auto simp: is_directory_def butlast_append l1 l2)
  have "save_program (\<lambda>_. True) cwd c fs = (True, fs3)"
    by (simp add: save_program_def 1 2 3)
  moreover have "fs_lookup fs3 q = program_files cwd c (fs_lookup fs) q" for q
  proof (cases "below ?p q \<and> q \<noteq> ?p")
    case True
    then obtain r where "q = ?p @ r" "r \<noteq> []" by (auto simp: below_iff)
    with fresh [of r] assms(3) show ?thesis
      by (auto simp: l1 l2 l3 program_files_def Let_def)
  next
    case False
    then have "q \<noteq> ?p @ [x]" for x using below_append [of ?p "[x]"] by auto
    with False dir show ?thesis
      by (auto simp: l1 l2 l3 program_files_def Let_def is_directory_def)
  qed
  ultimately show ?thesis by blast
qed

lemma upload_directory:
  assumes "upload_ok cwd fs c"
  defines "p \<equiv> cwd @ [''event'', cn_file_name c]"
  shows "\<exists>fs1 fs2. (if dir_exists cwd (event_directory (cn_file_name c)) fs
       then remove_tree None cwd (event_directory (cn_file_name c)) fs else (True, fs)) = (True, fs1) \<and>
    make_directory True cwd (event_directory (cn_file_name c)) fs1 = Inr fs2 \<and>
    (\<forall>q. fs_lookup fs2 q = (if q = p then Some Dir else if below p q then None else fs_lookup fs q))"
proof -
  let ?d = "event_directory (cn_file_name c)"
  have pl: "plain_name (cn_file_name c)" and d: "is_directory fs cwd" "is_directory fs (cwd @ [''event''])"
    and old: "fs_lookup fs p = Some Dir \<or> (\<forall>r. fs_lookup fs (p @ r) = None)"
    using assms by (simp_all add: upload_ok_def)
  have loc: "locate fs cwd ?d = Some p" using locate_event_dir [OF pl, of fs cwd] d by (simp add: p_def)
  have pne: "p \<noteq> []" "\<not> below p cwd" "\<not> below p (cwd @ [''event''])"
    by (auto simp: p_def below_def)
  define fs1 where "fs1 = (if dir_exists cwd ?d fs then remove_all p fs else fs)"
  have l1: "fs_lookup fs1 q = (if below p q then None else fs_lookup fs q)" for q
  proof (cases "fs_lookup fs p = Some Dir")
    case True
    then show ?thesis
      using pne by (simp add: fs1_def dir_exists_def loc is_directory_def fs_simps)
  next
    case False
    with old have "fs_lookup fs q = None" if "below p q" for q
      using that by (auto simp: below_iff)
    with False show ?thesis by (simp add: fs1_def dir_exists_def loc is_directory_def)
  qed
  have "is_directory fs1 cwd" "is_directory fs1 (cwd @ [''event''])"
    using d pne by (simp_all add: is_directory_def l1)
  moreover from this have "locate fs1 cwd ?d = Some p"
    using locate_event_dir [OF pl, of fs1 cwd] by (simp add: p_def)
  moreover have "fs_lookup fs1 p = None" by (simp add: l1)
  ultimately have "make_directory True cwd ?d fs1 = Inr (fs_put p Dir fs1)"
    by (simp add: make_directory_def create_directory_def p_def butlast_append)
  moreover have "fs_lookup (fs_put p Dir fs1) q = (if q = p then Some Dir else if below p q then None else fs_lookup fs q)" for q
    using pne(1) by (simp add: fs_lookup_put l1)
  moreover have "(if dir_exists cwd ?d fs then remove_tree None cwd ?d fs else (True, fs)) = (True, fs1)"
    by (simp add: fs1_def remove_tree_def loc)
  ultimately show ?thesis by blast
qed

lemma completed_upload:
  assumes ok: "upload_ok cwd (w_fs w) c"
    and slots: "in_int32 (eh_upload_client (w_http w) + 1)"
  shows "\<exists>w'. post_request_complete mhd os_fine cwd (Some c) w = Inr ([], w') \<and>
    fs_lookup (w_fs w') = program_files cwd c (fs_lookup (w_fs w)) \<and>
    eh_upload_client (w_http w') = eh_upload_client (w_http w) + (if cn_postprocessor c \<noteq> None then 1 else 0)"
proof -
  let ?n = "cn_file_name c" and ?fs = "w_fs w"
  let ?p = "cwd @ [''event'', ?n]"
  obtain w1 where w1: "release_slot c w = Inr w1" "w_fs w1 = ?fs"
    "eh_upload_client (w_http w1) = eh_upload_client (w_http w) + (if cn_postprocessor c \<noteq> None then 1 else 0)"
    using slots by (cases "cn_postprocessor c") (auto simp: release_slot_def int_add_def chk32_in)
  from upload_directory [OF ok] obtain fs1 fs2 where fs1:
    "(if dir_exists cwd (event_directory ?n) ?fs then remove_tree None cwd (event_directory ?n) ?fs else (True, ?fs)) =
      (True, fs1)"
    and fs2: "make_directory True cwd (event_directory ?n) fs1 = Inr fs2"
    and l2: "\<And>q. fs_lookup fs2 q = (if q = ?p then Some Dir else if below ?p q then None else fs_lookup ?fs q)"
    by blast
  have "\<not> below ?p cwd" "\<not> below ?p (cwd @ [''event''])" by (auto simp: below_def)
  then have "\<exists>fs'. save_program (\<lambda>_. True) cwd c fs2 = (True, fs') \<and>
      fs_lookup fs' = program_files cwd c (fs_lookup fs2)"
    using ok by (intro save_program_lookup) (auto simp: upload_ok_def is_directory_def l2 below_iff)
  then obtain fs3 where fs3: "save_program (\<lambda>_. True) cwd c fs2 = (True, fs3)"
    "fs_lookup fs3 = program_files cwd c (fs_lookup fs2)" by blast
  moreover have "program_files cwd c (fs_lookup fs2) = program_files cwd c (fs_lookup ?fs)"
    by (auto simp: fun_eq_iff program_files_def Let_def l2)
  moreover have "?n \<noteq> []" "cn_fps c \<noteq> []" "cn_file_content c \<noteq> []" "cn_connection_type c = method_code POST"
    using ok by (auto simp: upload_ok_def plain_name_def)
  ultimately have "post_request_complete mhd os_fine cwd (Some c) w =
      Inr ([], snd (queue_response mhd 200 ''Program saved successfully'' (w1\<lparr>w_fs := fs3\<rparr>)))"
    using w1(1) fs1 [folded w1(2)] fs2 fs3(1) by (simp add: post_request_complete_def Let_def cong: if_cong split del: if_split)
  then show ?thesis
    using w1(3) fs3(2) \<open>program_files cwd c (fs_lookup fs2) = _\<close> by simp
qed

text \<open>
  C22: A complete upload.  When the request with a plain name, a plain rate and some content
  completes, where the name, the rate and \<open>enable\<close> differ (\<open>upload_ok\<close>) and the operating system refuses
  nothing (\<open>os_fine\<close>: files open and take every byte, directories are made and removed), the program's directory holds exactly the uploaded bytes under the program's name, an
  empty file named by the rate and the file \<open>enable\<close> holding 1, whatever an earlier upload left there
  is gone, no other path changes, the slot is free again and nothing stays allocated.
\<close>
theorem upload_saved:
  assumes ok: "upload_ok cwd (w_fs w) c"
    and slots: "in_int32 (eh_upload_client (w_http w) + 1)"
  shows "\<exists>w'. post_request_complete mhd os_fine cwd (Some c) w = Inr ([], w') \<and>
    fs_lookup (w_fs w') = program_files cwd c (fs_lookup (w_fs w)) \<and>
    eh_upload_client (w_http w') = eh_upload_client (w_http w) + (if cn_postprocessor c \<noteq> None then 1 else 0)"
  by (rule completed_upload [OF ok slots])

definition demo_upload :: "string \<Rightarrow> unit connection_info" where
  "demo_upload name = \<lparr>cn_connection_type = 1, cn_postprocessor = Some (), cn_file_name = name, cn_fps = ''30'',
     cn_file_content = ''elf'', cn_upload_done = True\<rparr>"

theorem upload_saved_witness:
  "\<exists>w'. post_request_complete demo_mhd os_fine [] (Some (demo_upload ''7'')) (demo_world demo_event_dir) = Inr ([], w') \<and>
     fs_lookup (w_fs w') [''event'', ''7'', ''7''] = Some (File ''elf'') \<and>
     fs_lookup (w_fs w') [''event'', ''7'', ''7.so''] = None"
proof -
  have "upload_ok [] (w_fs (demo_world demo_event_dir)) (demo_upload ''7'')"
    by (simp add: upload_ok_def demo_upload_def plain_name_def demo_world_def demo_event_dir_def is_directory_def
        fs_lookup_def)
  moreover have "in_int32 (eh_upload_client (w_http (demo_world demo_event_dir)) + 1)"
    by (simp add: demo_world_def demo_http_def in_int32_def)
  ultimately obtain w' where "post_request_complete demo_mhd os_fine [] (Some (demo_upload ''7'')) (demo_world demo_event_dir) = Inr ([], w')"
    "fs_lookup (w_fs w') = program_files [] (demo_upload ''7'') (fs_lookup (w_fs (demo_world demo_event_dir)))"
    using upload_saved [of "[]" "demo_world demo_event_dir" "demo_upload ''7''" demo_mhd] by blast
  then show ?thesis by (simp add: program_files_def demo_upload_def below_def)
qed

definition file_at :: "fs \<Rightarrow> path \<Rightarrow> string \<Rightarrow> bool" where
  "file_at fs cwd s \<longleftrightarrow>
     (case locate fs cwd s of None \<Rightarrow> False | Some p \<Rightarrow> (case fs_lookup fs p of Some (File _) \<Rightarrow> True | _ \<Rightarrow> False))"

lemma library_path:
  assumes "plain_name n"
  shows "resolve cwd (''./event/'' @ n @ ''/'' @ n @ ''.so'') = cwd @ [''event'', n, n @ ''.so'']"
proof -
  have so: "split_slash (n @ ''.so'') = [n @ ''.so'']"
    using assms by (intro split_slash_no_slash) (simp add: plain_name_def)
  have "split_slash (n @ ''/'' @ n @ ''.so'') = [n, n @ ''.so'']"
    using split_slash_append [of n "n @ ''.so''"] so assms by (simp add: plain_name_def)
  then have "split_slash (''./event/'' @ n @ ''/'' @ n @ ''.so'') = [''.'', ''event'', n, n @ ''.so'']"
    by simp
  then show ?thesis
    using assms by (simp add: resolve_def plain_name_def del: split_slash.simps)
qed

text \<open>
  C26: An uploaded program cannot be loaded.  The upload saves the library of program \<open>N\<close> as
  \<open>event/N/N\<close>, the loader opens \<open>event/N/N.so\<close>, which the upload removed if it was there: with a loader
  that fails on files that do not exist, the processor of every uploaded program is left without a
  program, unless the rate of the program is itself named \<open>N.so\<close>.
\<close>
theorem uploaded_program_not_loadable:
  assumes ok: "upload_ok cwd (w_fs w) c" and slots: "in_int32 (eh_upload_client (w_http w) + 1)"
    and fps: "cn_fps c \<noteq> cn_file_name c @ ''.so''"
    and finish: "post_request_complete mhd os_fine cwd (Some c) w = Inr (ls, w')"
    and dlopen: "\<forall>s. \<not> file_at (w_fs w') cwd s \<longrightarrow> dl_open dl s = None"
  shows "ep_event_program (load_processor dl junk can_open cwd (w_fs w') (cn_file_name c)) = None"
proof -
  let ?n = "cn_file_name c"
  let ?p = "cwd @ [''event'', ?n]"
  have plain: "plain_name ?n" using ok by (simp add: upload_ok_def)
  have "last (?n @ ''.so'') \<noteq> last ''enable''" by simp
  then have "?n @ ''.so'' \<noteq> ''enable''" by metis
  moreover from completed_upload [OF ok slots, of mhd] finish have
    l: "fs_lookup (w_fs w') = program_files cwd c (fs_lookup (w_fs w))" by auto
  ultimately have "fs_lookup (w_fs w') (?p @ [?n @ ''.so'']) = None"
    using fps below_append [of ?p "[?n @ ''.so'']"] by (simp add: program_files_def Let_def)
  then have "\<not> file_at (w_fs w') cwd (''./event/'' @ ?n @ ''/'' @ ?n @ ''.so'')"
    unfolding file_at_def locate_def library_path [OF plain] by simp
  with dlopen have "dl_open dl (''./event/'' @ ?n @ ''/'' @ ?n @ ''.so'') = None" by blast
  then show ?thesis
    by (simp add: load_processor_def event_init_def Let_def read_entries_frame split: sum.split)
qed

theorem uploaded_program_not_loadable_witness:
  "\<exists>w'. post_request_complete demo_mhd os_fine [] (Some (demo_upload ''7'')) (demo_world demo_event_dir) = Inr ([], w') \<and>
     ep_event_program (load_processor
       \<lparr>dl_open = \<lambda>s. if file_at (w_fs w') [] s then Some () else None, dl_sym = \<lambda>h s. Some (\<lambda>a b c d e. 0)\<rparr>
       demo_junk (\<lambda>_. True) [] (w_fs w') ''7'') = None"
proof -
  have ok: "upload_ok [] (w_fs (demo_world demo_event_dir)) (demo_upload ''7'')"
    by (simp add: upload_ok_def demo_upload_def plain_name_def demo_world_def demo_event_dir_def is_directory_def
        fs_lookup_def)
  have slots: "in_int32 (eh_upload_client (w_http (demo_world demo_event_dir)) + 1)"
    by (simp add: demo_world_def demo_http_def in_int32_def)
  from completed_upload [OF ok slots, of demo_mhd] obtain w' where
    w': "post_request_complete demo_mhd os_fine [] (Some (demo_upload ''7'')) (demo_world demo_event_dir) = Inr ([], w')"
    by blast
  have "cn_fps (demo_upload ''7'') \<noteq> cn_file_name (demo_upload ''7'') @ ''.so''" by (simp add: demo_upload_def)
  from uploaded_program_not_loadable [OF ok slots this w', of "\<lparr>dl_open = \<lambda>s. if file_at (w_fs w') [] s then Some () else None,
      dl_sym = \<lambda>h s. Some (\<lambda>a b c d e. 0)\<rparr>" demo_junk "\<lambda>_. True"] w' show ?thesis
    by (simp add: demo_upload_def)
qed

subsection \<open>A rejected upload\<close>

lemma write_file_frame:
  assumes "write_file can_open cwd app s content fs = (ok, fs')" and "locate fs cwd s = Some p" and "p \<noteq> []"
  shows "(\<forall>q. q \<noteq> p \<longrightarrow> fs_lookup fs' q = fs_lookup fs q) \<and>
    (is_directory fs p \<longrightarrow> \<not> ok \<and> fs' = fs)"
proof (cases "open_out can_open app p fs")
  case None
  with assms show ?thesis by (simp add: write_file_def)
next
  case (Some fs1)
  then have dir: "\<not> is_directory fs p" by (auto simp: open_out_def split: if_splits)
  from Some assms(3) have "fs_lookup fs1 q = fs_lookup fs q" if "q \<noteq> p" for q
    using that by (auto simp: open_out_def fs_lookup_put split: if_splits option.splits node.splits)
  moreover have "fs_lookup (append_file p content fs1) q = fs_lookup fs1 q" if "q \<noteq> p" for q
    using that assms(3) by (auto simp: append_file_def fs_lookup_put split: option.splits node.splits)
  ultimately show ?thesis
    using assms(1,2) Some dir by (simp add: write_file_def)
qed

lemma write_file_dirs:
  assumes "write_file can_open cwd app s content fs = (ok, fs')" and "is_directory fs q"
  shows "is_directory fs' q"
proof (cases "locate fs cwd s")
  case None
  with assms show ?thesis by (simp add: write_file_def)
next
  case (Some p)
  show ?thesis
  proof (cases "p = []")
    case True
    then have "is_directory fs p" by (simp add: is_directory_def fs_lookup_def)
    with assms Some show ?thesis by (simp add: write_file_def open_out_def)
  next
    case False
    from write_file_frame [OF assms(1) Some False] assms(2) show ?thesis
      by (metis is_directory_def)
  qed
qed

lemma walk_ok_dirs:
  "(\<And>q. is_directory fs q \<Longrightarrow> is_directory fs' q) \<Longrightarrow> walk_ok fs p ns \<Longrightarrow> walk_ok fs' p ns"
  by (induction fs p ns rule: walk_ok.induct) (auto split: if_splits)

text \<open>The sibling directory reached by the program name \<open>../d\<close>.\<close>

lemma locate_sibling:
  assumes "plain_name d" and "is_directory fs cwd" and "is_directory fs (cwd @ [''event''])"
  shows "locate fs cwd (event_directory (''../'' @ d)) = Some (cwd @ [d])"
    and "plain_name x \<Longrightarrow> is_directory fs (cwd @ [d]) \<Longrightarrow>
      locate fs cwd (event_directory (''../'' @ d) @ x) = Some (cwd @ [d, x])"
    and "is_directory fs (cwd @ [d]) \<Longrightarrow>
      locate fs cwd (event_directory (''../'' @ d) @ ''../'' @ d) = Some (cwd @ [d])"
proof -
  have sd: "split_slash d = [d]" using assms(1) by (simp add: plain_name_def split_slash_no_slash)
  have slash: "split_slash (d @ CHR ''/'' # t) = d # split_slash t" for t
    using split_slash_append [of d t] assms(1) by (simp add: plain_name_def)
  have dots: "split_slash (''../'' @ t) = ''..'' # split_slash t" for t by simp
  have e: "event_directory (''../'' @ d) @ t = ''event/'' @ (''../'' @ d @ CHR ''/'' # t)" for t
    by (simp add: event_directory_def)
  show "locate fs cwd (event_directory (''../'' @ d)) = Some (cwd @ [d])"
    using e [of "''''"] assms
    by (simp only: append_Nil2 locate_def start_dir_event resolve_event split_event dots slash)
      (simp add: plain_name_def)
  show "locate fs cwd (event_directory (''../'' @ d) @ x) = Some (cwd @ [d, x])"
    if "plain_name x" "is_directory fs (cwd @ [d])"
  proof -
    have "split_slash x = [x]" using that(1) by (simp add: plain_name_def split_slash_no_slash)
    with assms that show ?thesis
      by (simp only: e locate_def start_dir_event resolve_event split_event dots slash) (simp add: plain_name_def)
  qed
  show "locate fs cwd (event_directory (''../'' @ d) @ ''../'' @ d) = Some (cwd @ [d])"
    if "is_directory fs (cwd @ [d])"
    using assms that sd
    by (simp only: e locate_def start_dir_event resolve_event split_event dots slash) (simp add: plain_name_def)
qed

text \<open>
  C23: A rejected upload still runs, and can delete.  The check for a slash only chooses the reply:
  for the program name \<open>../d\<close>, where \<open>d\<close> is any directory beside \<open>event\<close> (the recordings, say), the
  client is told "Invalid file name", and when the request completes the whole tree \<open>d\<close> is
  deleted; nothing else changes.  Whether the files can be opened does not matter; making a directory and
  the two removals succeed.
\<close>
theorem rejected_upload_deletes:
  assumes d: "plain_name d" "d \<noteq> ''event''" and name: "cn_file_name c = ''../'' @ d"
    and c: "cn_connection_type c = method_code POST" "cn_file_content c \<noteq> []" "plain_name (cn_fps c)"
    and dirs: "is_directory (w_fs w) cwd" "is_directory (w_fs w) (cwd @ [''event''])" "is_directory (w_fs w) (cwd @ [d])"
    and slots: "in_int32 (eh_upload_client (w_http w) + 1)"
    and mhd: "\<And>p. mhd_create_response mhd p" "\<And>st p. mhd_queue mhd st p"
    and os: "os_mkdir os" "os_replace os = None" "os_cleanup os = None"
  shows "\<exists>c' w1 w2. program_accept mhd (Some c) [] w = Inr (MHD_YES, Some c', 0, w1) \<and>
    w_responses w1 = w_responses w @ [(400, ''Invalid file name'')] \<and>
    post_request_complete mhd os cwd (Some c') w1 = Inr ([], w2) \<and>
    (\<forall>q. fs_lookup (w_fs w2) q = (if below (cwd @ [d]) q then None else fs_lookup (w_fs w) q))"
proof -
  let ?fs = "w_fs w" and ?dir = "event_directory (''../'' @ d)" and ?p = "cwd @ [d]"
  define c' where "c' = c\<lparr>cn_upload_done := True\<rparr>"
  define w1 where "w1 = snd (send_response mhd ''Invalid file name'' 400 w)"
  have w1: "w_fs w1 = ?fs" "w_http w1 = w_http w" by (simp_all add: w1_def)
  have "str_contains (''../'' @ d) ''/''" by (simp add: str_contains_def str_find_def npos_def)
  then have accept: "program_accept mhd (Some c) [] w = Inr (MHD_YES, Some c', 0, w1)"
    by (simp add: program_accept_def name c'_def w1_def)
  have resp: "w_responses w1 = w_responses w @ [(400, ''Invalid file name'')]"
    by (simp add: w1_def send_response_def queue_response_def mhd)
  obtain w2 where w2: "release_slot c' w1 = Inr w2" "w_fs w2 = ?fs"
    using slots w1 by (cases "cn_postprocessor c'") (auto simp: release_slot_def int_add_def chk32_in)
  have pne: "?p \<noteq> []" "\<not> below ?p cwd" "\<not> below ?p (cwd @ [''event''])"
    using d(2) by (auto simp: below_def)
  define fs1 where "fs1 = remove_all ?p ?fs"
  have l1: "fs_lookup fs1 q = (if below ?p q then None else fs_lookup ?fs q)" for q
    using pne by (simp add: fs1_def fs_simps)
  have d1: "is_directory fs1 cwd" "is_directory fs1 (cwd @ [''event''])"
    using dirs pne by (simp_all add: is_directory_def l1)
  define fs2 where "fs2 = fs_put ?p Dir fs1"
  have mk: "make_directory True cwd ?dir fs1 = Inr fs2"
    unfolding make_directory_def locate_sibling(1) [OF d(1) d1] using d1 l1
    by (simp add: create_directory_def fs2_def)
  have l2: "fs_lookup fs2 q = (if q = ?p then Some Dir else if below ?p q then None else fs_lookup ?fs q)" for q
    using pne by (simp add: fs2_def fs_lookup_put l1)
  have d2: "is_directory fs2 cwd" "is_directory fs2 (cwd @ [''event''])" "is_directory fs2 ?p"
    using dirs pne by (auto simp: is_directory_def l2)
  obtain ok1 fs3 where f3: "write_file (os_open os) cwd False (?dir @ ''../'' @ d) (cn_file_content c) fs2 = (ok1, fs3)"
    by fastforce
  with write_file_frame [OF this locate_sibling(3) [OF d(1) d2] pne(1)] d2(3) have fs3: "\<not> ok1" "fs3 = fs2" by auto
  obtain ok2 fs4 where f4: "write_file (os_open os) cwd True (?dir @ cn_fps c) '''' fs2 = (ok2, fs4)" by fastforce
  note fr4 = write_file_frame [OF this locate_sibling(2) [OF d(1) d2(1,2) c(3) d2(3)]]
  note d4 = d2 [THEN write_file_dirs [OF f4]]
  obtain ok3 fs5 where f5: "write_file (os_open os) cwd True (?dir @ ''enable'') '''' fs4 = (ok3, fs5)" by fastforce
  have "plain_name ''enable''" by (simp add: plain_name_def)
  note fr5 = write_file_frame [OF f5 locate_sibling(2) [OF d(1) d4(1,2) this d4(3)]]
  note d5 = d4 [THEN write_file_dirs [OF f5]]
  have save: "save_program (os_open os) cwd c' fs2 = (False, fs5)"
    using f3 f4 f5 fs3 by (simp add: save_program_def c'_def name)
  have rm: "remove_tree None cwd ?dir fs5 = (True, remove_all ?p fs5)"
    unfolding remove_tree_def locate_sibling(1) [OF d(1) d5(1,2)] by simp
  have gone: "dir_exists cwd ?dir ?fs" "remove_tree None cwd ?dir ?fs = (True, fs1)"
    unfolding dir_exists_def remove_tree_def locate_sibling(1) [OF d(1) dirs(1,2)] fs1_def using dirs by simp_all
  have "cn_fps c \<noteq> []" using c(3) by (simp add: plain_name_def)
  then have "post_request_complete mhd os cwd (Some c') w1 =
      Inr ([], snd (queue_response mhd 200 ''Program save Error'' (w2\<lparr>w_fs := remove_all ?p fs5\<rparr>)))"
    using w2 c mk save rm gone os by (simp add: post_request_complete_def c'_def name Let_def)
  moreover have "fs_lookup (remove_all ?p fs5) q = (if below ?p q then None else fs_lookup ?fs q)" for q
  proof (cases "below ?p q")
    case True
    with pne show ?thesis by (simp add: fs_simps)
  next
    case False
    then have "q \<noteq> cwd @ [d, x]" for x using below_append [of ?p "[x]"] by auto
    then have "fs_lookup fs5 q = fs_lookup fs2 q" using fr4 fr5 by simp
    with False pne l2 [of q] show ?thesis by (auto simp: fs_simps)
  qed
  ultimately show ?thesis using accept resp by fastforce
qed

theorem rejected_upload_deletes_witness:
  "\<exists>c' w1 w2. program_accept demo_mhd (Some (demo_upload ''../video'')) []
       (demo_world (([''event''], Dir) # demo_store [''10.mp4''])) = Inr (MHD_YES, Some c', 0, w1) \<and>
     w_responses w1 = [(400, ''Invalid file name'')] \<and>
     post_request_complete demo_mhd os_fine [] (Some c') w1 = Inr ([], w2) \<and>
     fs_lookup (w_fs w2) [''video'', ''10.mp4''] = None"
proof -
  let ?w = "demo_world (([''event''], Dir) # demo_store [''10.mp4''])" and ?c = "demo_upload ''../video''"
  have h: "plain_name ''video''" "''video'' \<noteq> ''event''" "cn_file_name ?c = ''../'' @ ''video''"
    "cn_connection_type ?c = method_code POST" "cn_file_content ?c \<noteq> []" "plain_name (cn_fps ?c)"
    "is_directory (w_fs ?w) []" "is_directory (w_fs ?w) ([] @ [''event''])" "is_directory (w_fs ?w) ([] @ [''video''])"
    "in_int32 (eh_upload_client (w_http ?w) + 1)"
    "\<And>p. mhd_create_response demo_mhd p" "\<And>st p. mhd_queue demo_mhd st p"
    by (simp_all add: plain_name_def demo_upload_def demo_world_def demo_store_def is_directory_def fs_lookup_def
        demo_http_def in_int32_def demo_mhd_def)
  have "w_responses ?w = []" by (simp add: demo_world_def)
  moreover have "below ([] @ [''video'']) [''video'', ''10.mp4'']" by (simp add: below_def)
  ultimately show ?thesis using rejected_upload_deletes [OF h, of os_fine] by fastforce
qed

subsection \<open>Events and program control\<close>

lemma process_video_config:
  "process_video gst cwd t e (h, fs) = Inr (Some (r, h', fs')) \<Longrightarrow> vh_video_config h' = vh_video_config h"
  by (auto simp: process_video_def rbind_eq_Inr Let_def split: if_splits option.splits)

text \<open>
  C24: The reply to an event.  Every event request that returns is answered once, with 200, 400 or
  500 (the 404 of the code is never reached): 400, and nothing done, without an id or a time; 500
  when no clip was made; 200 when \<open>process_video\<close> returned 0, and then, only then, exactly one thread is
  started to send the clip of that event.
\<close>
theorem event_reply:
  assumes cfg: "vh_video_config (w_video w) = Some c"
    and mhd: "\<And>p. mhd_create_response mhd p" "\<And>st p. mhd_queue mhd st p"
    and run: "event_accept mhd gst cwd headers w = Inr (Some (r, w'))"
  defines "e \<equiv> iterate_headers headers \<lparr>ev_time_stamp = 0, ev_id = ''''\<rparr>"
  shows "r = MHD_YES \<and> (\<exists>status payload. w_responses w' = w_responses w @ [(status, payload)] \<and>
    (if ev_id e = [] \<or> ev_time_stamp e = 0 then status = 400 \<and> w_fs w' = w_fs w \<and> w_video_threads w' = w_video_threads w
     else if (\<exists>vh fs. process_video gst cwd (ev_time_stamp e) (ev_id e) (w_video w, w_fs w) = Inr (Some (0, vh, fs)))
     then status = 200 \<and> w_video_threads w' = w_video_threads w @ [(clip_path (save_path c) (ev_id e), ev_id e)]
     else status = 500 \<and> w_video_threads w' = w_video_threads w))"
proof (cases "ev_id e = [] \<or> ev_time_stamp e = 0")
  case True
  with run show ?thesis
    by (auto simp: event_accept_def Let_def e_def [symmetric] send_response_def queue_response_def mhd split: if_splits)
next
  case False
  with run obtain vid_ret vh fs1 where p: "process_video gst cwd (ev_time_stamp e) (ev_id e) (w_video w, w_fs w) =
      Inr (Some (vid_ret, vh, fs1))"
    by (auto simp: event_accept_def Let_def e_def [symmetric] rbind_eq_Inr split: option.splits)
  from process_video_config [OF p] cfg have "vh_video_config vh = Some c" by simp
  then have "get_video vh i t = Inr (if has_filename (clip_path (save_path c) i) then (0, Some (clip_path (save_path c) i)) else (-1, None))" for i t
    by (simp add: get_video_def Let_def)
  moreover have "has_filename (clip_path (save_path c) i)" for i
    using get_video_path [of "save_path c" i] .
  ultimately show ?thesis
    using False run p
    by (auto simp: event_accept_def Let_def e_def [symmetric] send_response_def queue_response_def mhd split: if_splits)
qed

theorem event_reply_witness:
  "\<exists>w'. event_accept demo_mhd demo_gst [] [(''transactionid'', ''ev''), (''eventtime'', ''12'')]
       (demo_world (demo_store [''20.mp4'', ''10.mp4''])) = Inr (Some (MHD_YES, w')) \<and>
     w_responses w' = [(200, ''success'')] \<and> w_video_threads w' = [(''video/event/ev.mp4'', ''ev'')]"
proof -
  let ?w = "demo_world (demo_store [''20.mp4'', ''10.mp4''])"
  define hs where "hs = [(''transactionid'', ''ev''), (''eventtime'', ''12'')]"
  let ?fs' = "fs_put [''clip''] (File (concat_pipeline ''video'' ''ev'' [''10.mp4''])) (w_fs ?w)"
  have e: "iterate_headers hs \<lparr>ev_time_stamp = 0, ev_id = ''''\<rparr> = \<lparr>ev_time_stamp = 12, ev_id = ''ev''\<rparr>"
    by (simp add: hs_def event_header_iter_def strtoll_def mhd_result parse_int_def parse_sign_def is_space_def
        is_digit_def digits_val_def digit_val_def)
  have p: "process_video demo_gst [] 12 ''ev'' (w_video ?w, w_fs ?w) = Inr (Some (0, demo_handler, ?fs'))"
    using demo_clip by (simp add: demo_world_def)
  have cfg: "vh_video_config (w_video ?w) = Some demo_video_config" by (simp add: demo_world_def demo_handler_def)
  have mhd: "\<And>p. mhd_create_response demo_mhd p" "\<And>st p. mhd_queue demo_mhd st p" by (simp_all add: demo_mhd_def)
  have "\<exists>r w'. event_accept demo_mhd demo_gst [] hs ?w = Inr (Some (r, w'))"
    using p cfg by (simp add: event_accept_def e Let_def get_video_def demo_handler_def)
  then obtain r w' where run: "event_accept demo_mhd demo_gst [] hs ?w = Inr (Some (r, w'))" by blast
  from event_reply [OF cfg mhd run] p have "r = MHD_YES" "\<exists>payload. w_responses w' = w_responses ?w @ [(200, payload)]"
    "w_video_threads w' = w_video_threads ?w @ [(clip_path (save_path demo_video_config) ''ev'', ''ev'')]"
    unfolding e by auto
  moreover have "w_responses w' = [(200, ''success'')]"
    using run p cfg get_video_path by (auto simp: event_accept_def e Let_def get_video_def demo_handler_def send_response_def
        queue_response_def demo_mhd_def demo_world_def rbind_eq_Inr split: if_splits)
  ultimately show ?thesis
    using run unfolding hs_def by (simp add: demo_world_def clip_path_def save_path_def demo_video_config_def)
qed

text \<open>
  C25: A request can bring the server down.  Completing \<open>POST /program/stop\<close> for a name that is not
  in the table reads through \<open>end()\<close>; for a program that runs it succeeds, and the same request
  sent again frees the processor a second time.
\<close>
theorem stop_request:
  assumes inv: "vq_inv H (w_queue w)" and size: "cn_file_name c = name"
  shows "case um_find (h_event_thread (w_events w)) name of
      None \<Rightarrow> libmicrohttpd_handler mhd gst mk cwd hs ''/program/stop'' ''POST'' '''' (Some c) w = Inl EndIterator
    | Some a \<Rightarrow> h_processors (w_events w) a \<noteq> None \<longrightarrow>
        (\<exists>w'. libmicrohttpd_handler mhd gst mk cwd hs ''/program/stop'' ''POST'' '''' (Some c) w = Inr (Some (MHD_YES, Some c, 0, w')) \<and>
           abs_queue (w_queue w') name = None \<and>
           libmicrohttpd_handler mhd gst mk cwd hs ''/program/stop'' ''POST'' '''' (Some c) w' = Inl DoubleFree)"
proof -
  let ?h = "w_events w" and ?q = "w_queue w"
  from remove_event_inv [OF inv] obtain r q1 where r: "remove_event name ?q = Inr (r, q1)" "vq_inv H q1" by blast
  from remove_event_inv [OF r(2)] obtain r2 q2 where r2: "remove_event name q1 = Inr (r2, q2)" by blast
  have "um_find (q_output q1) name = None"
    using r(1) by (auto simp: remove_event_def Let_def rbind_eq_Inr write_info_def um_find_erase
        split: option.splits if_splits)
  then have "abs_queue q1 name = None" by (simp add: abs_queue_def)
  with r r2 size show ?thesis
    by (auto simp: libmicrohttpd_handler_def program_stop_accept_def stop_event_def split: option.split)
qed

theorem stop_request_witness:
  "libmicrohttpd_handler demo_mhd demo_gst (\<lambda>fs n. demo_processor) [] [] ''/program/stop'' ''POST'' ''''
     (Some (demo_upload ''x'')) (demo_world []) = Inl EndIterator"
proof -
  have "vq_inv {} (w_queue (demo_world []))" by (simp add: demo_world_def demo_queue_inv)
  moreover have "cn_file_name (demo_upload ''x'') = ''x''" by (simp add: demo_upload_def)
  moreover have "um_find (h_event_thread (w_events (demo_world []))) ''x'' = None"
    by (simp add: demo_world_def event_handler_ctor_def)
  ultimately show ?thesis using stop_request [of "{}" "demo_world []" "demo_upload ''x''" "''x''"] by auto
qed

subsection \<open>Boot\<close>

lemma children_mem:
  assumes "distinct (map fst fs)"
  shows "(f, n) \<in> set (children fs p) \<longleftrightarrow> fs_lookup fs (p @ [f]) = Some n"
proof
  assume "(f, n) \<in> set (children fs p)"
  then obtain q where "(q, n) \<in> set fs" "q \<noteq> []" "butlast q = p" "f = last q" by (auto simp: children_def)
  then have "(p @ [f], n) \<in> set fs" by (metis append_butlast_last_id)
  with assms show "fs_lookup fs (p @ [f]) = Some n" by (simp add: fs_lookup_def)
next
  assume "fs_lookup fs (p @ [f]) = Some n"
  then have "(p @ [f], n) \<in> set fs" by (auto simp: fs_lookup_def dest: map_of_SomeD)
  then show "(f, n) \<in> set (children fs p)"
    unfolding children_def by (force intro: image_eqI [of _ _ "(p @ [f], n)"])
qed

lemma has_uuid_file_iff:
  assumes "distinct (map fst fs)"
  shows "has_uuid_file (children fs p) \<longleftrightarrow> (\<exists>c. fs_lookup fs (p @ [''uuid'']) = Some (File c))"
proof -
  have "has_uuid_file (children fs p) \<longleftrightarrow> (\<exists>n. (''uuid'', n) \<in> set (children fs p) \<and> is_file n)"
    unfolding has_uuid_file_def list_ex_iff by auto
  also have "\<dots> \<longleftrightarrow> (\<exists>c. fs_lookup fs (p @ [''uuid'']) = Some (File c))"
    unfolding children_mem [OF assms] by (metis is_file.elims(2) is_file.simps(1))
  finally show ?thesis .
qed

text \<open>
  The uuid is chosen once.  When the file \<open>system/uuid\<close> is there, \<open>init\<close> takes the uuid from its
  first line, sends nothing and changes nothing, whatever the first boot's registration returned: a
  camera whose first registration failed (status 3) is never registered again.  The daemon is then
  started, without TLS on port 8000 whatever port is configured.
\<close>
theorem boot_with_uuid:
  assumes wf: "distinct (map fst (bt_fs b))" and dir: "is_directory (bt_fs b) (resolve cwd ''system'')"
    and stored: "fs_lookup (bt_fs b) (resolve cwd ''system'' @ [''uuid'']) = Some (File content)"
    and opens: "can_open (resolve cwd ''system/uuid'')" and cfg: "hi_config hi = Some c"
  shows "\<exists>hi'. http_init starts env can_open cwd vcfg fresh hi b =
      Inr (if starts (daemon_args_of c) then 0 else 1, hi', b) \<and>
    hi_uuid hi' = getline content \<and>
    (starts (daemon_args_of c) \<longrightarrow> hi_daemon hi' = Some (daemon_args_of c) \<and> http_start hi' = 0) \<and>
    (http_tls_enable c = 0 \<longrightarrow> da_port (daemon_args_of c) = 8000)"
proof -
  have p: "resolve cwd ''system/uuid'' = resolve cwd ''system'' @ [''uuid'']"
    using resolve_child [of "''system''" "''uuid''" cwd] by (simp add: plain_name_def)
  have "has_uuid_file (children (bt_fs b) (resolve cwd ''system''))"
    using stored by (simp add: has_uuid_file_iff [OF wf])
  then have "init_uuid env can_open cwd vcfg fresh hi b = Inr (Inr (getline content), b)"
    using dir stored opens by (simp add: init_uuid_def directory_iterator_def open_in_def p)
  with cfg show ?thesis
    by (simp add: http_init_def Let_def http_start_def daemon_args_of_def)
qed

definition demo_http_config :: "unit http_config" where
  "demo_http_config = \<lparr>hc_props = (), hc_crt_file = '''', hc_private_file = '''', hc_thread_pool = 4,
     hc_tls_enabled = 0, hc_remote_server = ''srv'', hc_upload_user = 1, hc_port = 443\<rparr>"

theorem boot_with_uuid_witness:
  "\<exists>hi'. http_init (\<lambda>_. True) (demo_env demo_answer) (\<lambda>_. True) [] (Some demo_video_config) ''new''
      (http_initializer_ctor (Some demo_http_config))
      \<lparr>bt_fs = [([''system''], Dir), ([''system'', ''uuid''], File ''old'')], bt_handlers = None, bt_net = []\<rparr> =
    Inr (0, hi', \<lparr>bt_fs = [([''system''], Dir), ([''system'', ''uuid''], File ''old'')], bt_handlers = None, bt_net = []\<rparr>) \<and>
    hi_uuid hi' = ''old''"
proof -
  let ?b = "\<lparr>bt_fs = [([''system''], Dir), ([''system'', ''uuid''], File ''old'')], bt_handlers = None, bt_net = []\<rparr> :: unit boot"
  have r: "resolve [] ''system'' = [''system'']" by (simp add: resolve_def)
  have h: "distinct (map fst (bt_fs ?b))" "is_directory (bt_fs ?b) (resolve [] ''system'')"
    "fs_lookup (bt_fs ?b) (resolve [] ''system'' @ [''uuid'']) = Some (File ''old'')"
    "(\<lambda>_. True) (resolve [] ''system/uuid'')"
    "hi_config (http_initializer_ctor (Some demo_http_config)) = Some demo_http_config"
    by (simp_all add: r is_directory_def fs_lookup_def http_initializer_ctor_def)
  from boot_with_uuid [OF h(1-3), where can_open = "\<lambda>_. True" and starts = "\<lambda>_. True", OF h(4,5), of "demo_env demo_answer"
      "Some demo_video_config" "''new''"]
  show ?thesis by (simp add: getline_def) blast
qed

end
