(* ===== verification/Gst.thy ===== *)
theory Gst
  imports Video Video_Queue_Run
begin

text \<open>
  What the RTSP handlers share: the codec information and the RTP session objects of
  \<open>include/rtsp/handler/RTSPSessionHandler.hpp\<close>, GStreamer's reference-counted objects, the caps a
  sample carries, and the SDP message built from them.

  GStreamer, the network and the SDP printer are parameters (\<open>rtsp_env\<close>).  The model counts, for each
  GStreamer object, the references the program owns; giving up one it does not own is a fault.  The
  configuring calls whose results the code only logs are recorded in order (\<open>gst_call\<close>).
\<close>

subsection \<open>Codec and session information\<close>

record h264_codec_info =
  cd_encoding_name :: string
  cd_sprop_param :: string
  cd_framerate :: string
  cd_profile_level :: string
  cd_clock_rate :: "32 word"
  cd_ssrc :: "32 word"
  cd_packetization_mode :: string

definition new_codec_info :: h264_codec_info where
  "new_codec_info =
     \<lparr>cd_encoding_name = '''', cd_sprop_param = '''', cd_framerate = '''', cd_profile_level = '''',
      cd_clock_rate = 0, cd_ssrc = 0, cd_packetization_mode = ''''\<rparr>"

type_synonym endpoint = "string \<times> 16 word"

record udp_socket =
  us_open :: bool
  us_local_port :: "16 word option"

record rtp_session_info =
  rs_rtp_socket :: "udp_socket option"
  rs_rtp_endpoint :: "endpoint option"
  rs_rtcp_socket :: "udp_socket option"
  rs_rtcp_endpoint :: "endpoint option"
  rs_init_seq :: "16 word"
  rs_init_rtptime :: "32 word"

definition new_session_info :: rtp_session_info where
  "new_session_info =
     \<lparr>rs_rtp_socket = None, rs_rtp_endpoint = None, rs_rtcp_socket = None, rs_rtcp_endpoint = None,
      rs_init_seq = 0, rs_init_rtptime = 0\<rparr>"

record rtp_session_info_gst =
  rg_session_info :: "rtp_session_info option"
  rg_pipeline :: "addr option"
  rg_first :: bool
  rg_bus_enable :: bool

definition new_rtp_info :: rtp_session_info_gst where
  "new_rtp_info = \<lparr>rg_session_info = None, rg_pipeline = None, rg_first = True, rg_bus_enable = True\<rparr>"

record demux_stream =
  ds_video_stream :: "addr option"
  ds_audio_stream :: "addr option"

subsection \<open>Samples, messages and calls\<close>

datatype gst_state = State_null | State_paused | State_playing

datatype flow = Flow_ok | Flow_error | Flow_eos

datatype gvalue = G_string "string option" | G_int int | G_uint "32 word"

type_synonym caps_structure = "(string \<times> gvalue) list"

text \<open>A sample to pull: \<open>None\<close> when the pull fails; its caps may be missing.\<close>

type_synonym gst_sample = "caps_structure option option"

text \<open>An RTP buffer: its sequence number and timestamp if it maps as one, its bytes if it maps at all.\<close>

record rtp_buffer =
  rb_header :: "(16 word \<times> 32 word) option"
  rb_bytes :: "8 word list option"

text \<open>A pad the demuxer adds: the media type of its caps, and what linking it finds.\<close>

record demux_pad =
  pd_type :: "string option"
  pd_addr :: addr
  pd_has_sink :: bool

datatype gst_call =
    Set_string addr string string
  | Set_int addr string int
  | Connect addr string
  | Link addr addr
  | Link_pads addr string addr string
  | Set_caps addr string int int
  | Set_state addr gst_state

record sdp_media =
  sd_media :: string
  sd_port :: int
  sd_num_ports :: int
  sd_proto :: string
  sd_formats :: "string list"
  sd_attributes :: "(string \<times> string) list"

record sdp_message =
  sm_version :: int
  sm_origin :: "string list"
  sm_session_name :: string
  sm_connection :: "(string \<times> string \<times> string \<times> int \<times> int) option"
  sm_medias :: "sdp_media list"

record rtsp_env =
  re_make :: "string \<Rightarrow> bool"
  re_set_state :: "addr \<Rightarrow> gst_state \<Rightarrow> bool"
  re_link_many :: "addr option list \<Rightarrow> bool"
  re_bus :: "gst_message option list"
  re_samples :: "gst_sample list"
  re_pads :: "demux_pad list"
  re_rtp :: "rtp_buffer option list"
  re_sdp_text :: "sdp_message \<Rightarrow> string"
  re_time :: int
  re_ip_addr :: string
  re_can_open :: "path \<Rightarrow> bool"
  re_cwd :: path
  re_address_ok :: "string \<Rightarrow> bool"
  re_udp_open :: bool
  re_udp_bind :: "16 word option"
  re_junk_ports :: "int \<times> int"

subsection \<open>The state the handlers work on\<close>

record multicast_stream =
  ms_rtp_info :: rtp_session_info_gst
  ms_codec_info :: "h264_codec_info option"
  ms_is_sdp :: bool
  ms_sdp_str :: string
  ms_ip_addr :: string
  ms_port :: int
  ms_thread_info :: "addr option"

record rtsp_world =
  rw_refs :: "addr \<Rightarrow> nat option"
  rw_infos :: "addr \<Rightarrow> rtp_session_info_gst option"
  rw_next :: addr
  rw_calls :: "gst_call list"
  rw_sent :: "(endpoint \<times> 8 word list) list"
  rw_pushed :: "(64 word \<times> 8 word list) list"
  rw_fs :: fs
  rw_queue :: vqueue
  rw_stream :: "multicast_stream option"
  rw_cnt :: int
  rw_frame_cnt :: int

text \<open>What has reached the source of the playing stream.\<close>

definition fed :: "rtsp_world \<Rightarrow> (64 word \<times> 8 word list) list \<times> int" where
  "fed w = (rw_pushed w, rw_frame_cnt w)"

lemma fed_frame [simp]:
  "fed (w\<lparr>rw_refs := a\<rparr>) = fed w" "fed (w\<lparr>rw_infos := b\<rparr>) = fed w" "fed (w\<lparr>rw_next := c\<rparr>) = fed w"
  "fed (w\<lparr>rw_calls := d\<rparr>) = fed w" "fed (w\<lparr>rw_sent := e\<rparr>) = fed w" "fed (w\<lparr>rw_fs := f\<rparr>) = fed w"
  "fed (w\<lparr>rw_queue := q\<rparr>) = fed w" "fed (w\<lparr>rw_stream := s\<rparr>) = fed w" "fed (w\<lparr>rw_cnt := n\<rparr>) = fed w"
  by (simp_all add: fed_def)

text \<open>
  A buffer to fill: whether the callback's element is an \<open>appsrc\<close>, whether the buffer can be
  allocated and mapped, and whether the push succeeds.
\<close>

record need_data_env =
  nd_is_app_src :: bool
  nd_alloc :: bool
  nd_map :: bool
  nd_push :: bool

definition gst_log :: "gst_call list \<Rightarrow> rtsp_world \<Rightarrow> rtsp_world" where
  "gst_log cs w = w\<lparr>rw_calls := rw_calls w @ cs\<rparr>"

text \<open>\<open>gst_pipeline_new\<close> and \<open>gst_element_factory_make\<close>: a new object with one reference, or null.\<close>

definition gst_make :: "rtsp_env \<Rightarrow> string \<Rightarrow> rtsp_world \<Rightarrow> addr option \<times> rtsp_world" where
  "gst_make env factory w =
     (if re_make env factory then
        (Some (rw_next w), w\<lparr>rw_refs := (rw_refs w)(rw_next w \<mapsto> 1), rw_next := Suc (rw_next w)\<rparr>)
      else (None, w))"

fun gst_make_all :: "rtsp_env \<Rightarrow> string list \<Rightarrow> rtsp_world \<Rightarrow> addr option list \<times> rtsp_world" where
  "gst_make_all env [] w = ([], w)"
| "gst_make_all env (f # fs) w =
     (let (e, w1) = gst_make env f w; (es, w2) = gst_make_all env fs w1 in (e # es, w2))"

definition gst_new_ref :: "rtsp_world \<Rightarrow> addr \<times> rtsp_world" where
  "gst_new_ref w = (rw_next w, w\<lparr>rw_refs := (rw_refs w)(rw_next w \<mapsto> 1), rw_next := Suc (rw_next w)\<rparr>)"

text \<open>\<open>gst_object_unref\<close> of null only warns.\<close>

definition gst_unref :: "addr option \<Rightarrow> rtsp_world \<Rightarrow> rtsp_world res" where
  "gst_unref obj w =
     (case obj of
        None \<Rightarrow> Inr w
      | Some a \<Rightarrow>
         (case rw_refs w a of
            Some (Suc n) \<Rightarrow> Inr (w\<lparr>rw_refs := (rw_refs w)(a := (if n = 0 then None else Some n))\<rparr>)
          | _ \<Rightarrow> Inl DoubleFree))"

text \<open>\<open>gst_bin_add_many\<close> takes over the references of the elements up to the first null.\<close>

definition gst_bin_add_many :: "addr option list \<Rightarrow> rtsp_world \<Rightarrow> rtsp_world" where
  "gst_bin_add_many es w =
     w\<lparr>rw_refs := fold (\<lambda>e r. case e of None \<Rightarrow> r | Some a \<Rightarrow> r(a := None))
                    (takeWhile (\<lambda>e. e \<noteq> None) es) (rw_refs w)\<rparr>"

text \<open>The result is false for \<open>GST_STATE_CHANGE_FAILURE\<close>, which is also the answer for null.\<close>

definition gst_set_state :: "rtsp_env \<Rightarrow> addr option \<Rightarrow> gst_state \<Rightarrow> rtsp_world \<Rightarrow> bool \<times> rtsp_world" where
  "gst_set_state env obj st w =
     (case obj of
        None \<Rightarrow> (False, w)
      | Some a \<Rightarrow> (re_set_state env a st, gst_log [Set_state a st] w))"

text \<open>\<open>new\<close> and \<open>delete\<close> of an \<open>RTPSessionInfoGst\<close>; its destructor gives up the pipeline.\<close>

definition new_info_gst :: "rtp_session_info_gst \<Rightarrow> rtsp_world \<Rightarrow> addr \<times> rtsp_world" where
  "new_info_gst i w =
     (rw_next w, w\<lparr>rw_infos := (rw_infos w)(rw_next w \<mapsto> i), rw_next := Suc (rw_next w)\<rparr>)"

definition delete_info_gst :: "addr \<Rightarrow> rtsp_world \<Rightarrow> rtsp_world res" where
  "delete_info_gst a w =
     (case rw_infos w a of
        None \<Rightarrow> Inl DoubleFree
      | Some i \<Rightarrow>
          rbind (gst_unref (rg_pipeline i) w) (\<lambda>w1. Inr (w1\<lparr>rw_infos := (rw_infos w1)(a := None)\<rparr>)))"

definition read_rtp_info :: "addr \<Rightarrow> rtsp_world \<Rightarrow> rtp_session_info_gst res" where
  "read_rtp_info a w = (case rw_infos w a of None \<Rightarrow> Inl UseAfterFree | Some i \<Rightarrow> Inr i)"

definition write_rtp_info :: "addr \<Rightarrow> rtp_session_info_gst \<Rightarrow> rtsp_world \<Rightarrow> rtsp_world" where
  "write_rtp_info a i w = w\<lparr>rw_infos := (rw_infos w)(a \<mapsto> i)\<rparr>"

subsection \<open>Reading the caps\<close>

definition has_field :: "caps_structure \<Rightarrow> string \<Rightarrow> bool" where
  "has_field s f \<longleftrightarrow> map_of s f \<noteq> None"

definition get_string :: "caps_structure \<Rightarrow> string \<Rightarrow> string option" where
  "get_string s f = (case map_of s f of Some (G_string v) \<Rightarrow> v | _ \<Rightarrow> None)"

definition get_int :: "caps_structure \<Rightarrow> string \<Rightarrow> int option" where
  "get_int s f = (case map_of s f of Some (G_int v) \<Rightarrow> Some v | _ \<Rightarrow> None)"

definition get_uint :: "caps_structure \<Rightarrow> string \<Rightarrow> 32 word option" where
  "get_uint s f = (case map_of s f of Some (G_uint v) \<Rightarrow> Some v | _ \<Rightarrow> None)"

text \<open>A field that is present is read under the second name and assigned if the read succeeds.\<close>

definition assign_field ::
  "caps_structure \<Rightarrow> string \<Rightarrow> string \<Rightarrow> (caps_structure \<Rightarrow> string \<Rightarrow> 'v option) \<Rightarrow> ('v \<Rightarrow> 'c \<Rightarrow> 'c) \<Rightarrow> 'c \<Rightarrow> 'c" where
  "assign_field s present name get upd c =
     (if has_field s present then (case get s name of Some v \<Rightarrow> upd v c | None \<Rightarrow> c) else c)"

definition read_caps :: "caps_structure \<Rightarrow> h264_codec_info \<Rightarrow> h264_codec_info" where
  "read_caps s c0 =
     (let c1 = assign_field s ''encoding-name'' ''encoding-name'' get_string
                 (\<lambda>v c. c\<lparr>cd_encoding_name := v\<rparr>) c0;
          c2 = assign_field s ''sprop-parameter-sets'' ''sprop-parameter-sets'' get_string
                 (\<lambda>v c. c\<lparr>cd_sprop_param := v\<rparr>) c1;
          c3 = assign_field s ''clock-rate'' ''clock-rate'' get_int
                 (\<lambda>v c. c\<lparr>cd_clock_rate := word_of_int v\<rparr>) c2;
          c4 = assign_field s ''ssrc'' ''ssrc'' get_uint (\<lambda>v c. c\<lparr>cd_ssrc := v\<rparr>) c3;
          c5 = assign_field s ''a-framerate'' ''a-framerate'' get_string
                 (\<lambda>v c. c\<lparr>cd_framerate := v\<rparr>) c4;
          c6 = assign_field s ''profile-level-id'' ''a-framerate'' get_string
                 (\<lambda>v c. c\<lparr>cd_profile_level := v\<rparr>) c5
      in assign_field s ''packetization-mode'' ''packetization-mode'' get_string
           (\<lambda>v c. c\<lparr>cd_packetization_mode := v\<rparr>) c6)"

text \<open>A sample without caps, or caps without a structure, has no fields: GLib only warns.\<close>

definition caps_of :: "caps_structure option \<Rightarrow> caps_structure" where
  "caps_of c = (case c of None \<Rightarrow> [] | Some s \<Rightarrow> s)"

definition new_sample_callback ::
  "gst_sample \<Rightarrow> h264_codec_info option \<Rightarrow> flow \<times> h264_codec_info option" where
  "new_sample_callback sample user_data =
     (case user_data of
        None \<Rightarrow> (Flow_error, None)
      | Some codec_info \<Rightarrow>
         (case sample of
            None \<Rightarrow> (Flow_error, user_data)
          | Some caps \<Rightarrow> (Flow_ok, Some (read_caps (caps_of caps) codec_info))))"

definition info_complete :: "h264_codec_info \<Rightarrow> bool" where
  "info_complete c \<longleftrightarrow> \<not> (cd_encoding_name c = '''' \<or> cd_clock_rate c = 0 \<or> cd_framerate c = '''' \<or>
     cd_packetization_mode c = '''' \<or> cd_profile_level c = '''' \<or> cd_sprop_param c = '''' \<or> cd_ssrc c = 0)"

definition multicast_sdp_new_sample_callback ::
  "gst_sample \<Rightarrow> h264_codec_info option \<Rightarrow> flow \<times> h264_codec_info option" where
  "multicast_sdp_new_sample_callback sample user_data =
     (case sample of
        None \<Rightarrow> (Flow_error, user_data)
      | Some caps \<Rightarrow>
         (case user_data of
            None \<Rightarrow> (Flow_error, None)
          | Some codec_info \<Rightarrow>
             (let c = read_caps (caps_of caps) codec_info in
              (if info_complete c then Flow_eos else Flow_ok, Some c))))"

text \<open>The sink delivers samples until a callback answers something else than OK.\<close>

fun deliver_samples ::
  "(gst_sample \<Rightarrow> h264_codec_info option \<Rightarrow> flow \<times> h264_codec_info option) \<Rightarrow>
     gst_sample list \<Rightarrow> h264_codec_info option \<Rightarrow> h264_codec_info option" where
  "deliver_samples cb [] c = c"
| "deliver_samples cb (s # ss) c =
     (case cb s c of (Flow_ok, c1) \<Rightarrow> deliver_samples cb ss c1 | (_, c1) \<Rightarrow> c1)"

subsection \<open>The SDP message\<close>

definition sdp_media_of :: "h264_codec_info \<Rightarrow> sdp_media" where
  "sdp_media_of c =
     (let h264 = (cd_encoding_name c = ''H264'') in
      \<lparr>sd_media = ''video'', sd_port = 0, sd_num_ports = 1, sd_proto = ''RTP/AVP'',
       sd_formats = (if h264 then [''96''] else []),
       sd_attributes =
         (if h264 then
            [(''fmtp'', ''96'' @ '' packetization-mode='' @ cd_packetization_mode c @
                ('';sprop-parameter-sets='' @ cd_sprop_param c) @
                ('';profile-level-id='' @ cd_profile_level c)),
             (''rtpmap'', ''96 '' @ cd_encoding_name c @ ''/'' @ nat_to_string (unat (cd_clock_rate c)))]
          else []) @ [(''framerate'', cd_framerate c)]\<rparr>)"

definition sdp_message_of ::
  "int \<Rightarrow> string \<Rightarrow> (string \<times> string \<times> string \<times> int \<times> int) option \<Rightarrow> h264_codec_info \<Rightarrow> sdp_message" where
  "sdp_message_of time ip_addr conn c =
     \<lparr>sm_version = 0,
      sm_origin = [''-'', nat_to_string (unat (word_of_int time :: 64 word)), ''0'', ''IN'', ''IP4'', ip_addr],
      sm_session_name = ''Hydra RTSP Session'', sm_connection = conn, sm_medias = [sdp_media_of c]\<rparr>"

subsection \<open>References\<close>

text \<open>
  The ownership invariant: every live session object that has a pipeline owns the only reference to
  it, no two share one, and addresses above \<open>rw_next\<close> are unused.
\<close>

definition refs_ok :: "rtsp_world \<Rightarrow> bool" where
  "refs_ok w \<longleftrightarrow>
     (\<forall>a i p. rw_infos w a = Some i \<and> rg_pipeline i = Some p \<longrightarrow> rw_refs w p = Some 1) \<and>
     (\<forall>a b i j p. rw_infos w a = Some i \<and> rw_infos w b = Some j \<and> rg_pipeline i = Some p \<and>
        rg_pipeline j = Some p \<longrightarrow> a = b) \<and>
     (\<forall>a. rw_next w \<le> a \<longrightarrow> rw_refs w a = None \<and> rw_infos w a = None)"

lemma gst_log_simps [simp]:
  "rw_refs (gst_log cs w) = rw_refs w" "rw_infos (gst_log cs w) = rw_infos w"
  "rw_next (gst_log cs w) = rw_next w" "rw_fs (gst_log cs w) = rw_fs w"
  "rw_queue (gst_log cs w) = rw_queue w" "rw_stream (gst_log cs w) = rw_stream w"
  "rw_sent (gst_log cs w) = rw_sent w" "rw_cnt (gst_log cs w) = rw_cnt w" "refs_ok (gst_log cs w) = refs_ok w"
  "fed (gst_log cs w) = fed w"
  by (simp_all add: gst_log_def refs_ok_def)

lemma refs_ok_cong:
  "rw_refs w' = rw_refs w \<Longrightarrow> rw_infos w' = rw_infos w \<Longrightarrow> rw_next w' = rw_next w \<Longrightarrow>
   refs_ok w' = refs_ok w"
  by (simp add: refs_ok_def)

text \<open>Elements just made are fresh, distinct, and the only new references.\<close>

lemma gst_make_all_spec:
  assumes "gst_make_all env fs w = (es, w')"
  shows "w' = w\<lparr>rw_refs := rw_refs w', rw_next := rw_next w'\<rparr> \<and> rw_next w \<le> rw_next w' \<and>
    distinct [a. Some a \<leftarrow> es] \<and>
    (\<forall>a. Some a \<in> set es \<longrightarrow> rw_next w \<le> a \<and> a < rw_next w') \<and>
    (\<forall>a. rw_refs w' a = (if Some a \<in> set es then Some 1 else rw_refs w a)) \<and>
    length es = length fs"
  using assms
proof (induction fs arbitrary: w es w')
  case Nil
  then show ?case by simp
next
  case (Cons f fs)
  obtain e w1 where m: "gst_make env f w = (e, w1)" by fastforce
  obtain es1 where r: "gst_make_all env fs w1 = (es1, w')" and es: "es = e # es1"
    using Cons.prems m by (auto split: prod.splits)
  note IH = Cons.IH [OF r]
  show ?case
  proof (cases "re_make env f")
    case True
    then have e: "e = Some (rw_next w)" and
      w1: "w1 = w\<lparr>rw_refs := (rw_refs w)(rw_next w \<mapsto> 1), rw_next := Suc (rw_next w)\<rparr>"
      using m by (auto simp: gst_make_def)
    have ns: "Some (rw_next w) \<notin> set es1" using IH by (fastforce simp: w1)
    from IH have "w' = w1\<lparr>rw_refs := rw_refs w', rw_next := rw_next w'\<rparr>" by blast
    then have w': "w' = w\<lparr>rw_refs := rw_refs w', rw_next := rw_next w'\<rparr>" by (simp add: w1)
    have "\<forall>a. Some a \<in> set es \<longrightarrow> rw_next w \<le> a \<and> a < rw_next w'"
      using IH by (fastforce simp: es e w1)
    moreover have "distinct [a. Some a \<leftarrow> es]" using IH ns by (fastforce simp: es e)
    moreover have "rw_refs w' a = (if Some a \<in> set es then Some 1 else rw_refs w a)" for a
      using IH by (simp add: es e w1)
    moreover have "rw_next w \<le> rw_next w'" "length es = length (f # fs)"
      using IH by (simp_all add: w1 es)
    ultimately show ?thesis using w' by blast
  next
    case False
    then have "e = None" "w1 = w" using m by (auto simp: gst_make_def)
    then have sub: "set es = insert None (set es1)" "[a. Some a \<leftarrow> es] = [a. Some a \<leftarrow> es1]"
      "length es = length (f # fs)"
      using IH by (simp_all add: es)
    then show ?thesis unfolding sub
      by (simp only: insert_iff option.distinct simp_thms) (use IH \<open>w1 = w\<close> in blast)
  qed
qed

lemma refs_ok_pipeline_old:
  "refs_ok w \<Longrightarrow> rw_infos w a = Some i \<Longrightarrow> rg_pipeline i = Some p \<Longrightarrow> rw_refs w p = Some 1 \<and> p < rw_next w"
  unfolding refs_ok_def by (metis linorder_not_le option.distinct(1))

text \<open>Giving the references of fresh objects away again, to a bin or to \<open>gst_object_unref\<close>.\<close>

lemma fold_clear:
  "fold (\<lambda>e r. case e of None \<Rightarrow> r | Some a \<Rightarrow> r(a := None)) es r =
    (\<lambda>a. if Some a \<in> set es then None else r a)" for r :: "addr \<Rightarrow> nat option"
  by (induction es arbitrary: r) (auto split: option.split intro!: ext)

lemma gst_bin_add_many_spec:
  assumes "\<forall>e \<in> set es. e \<noteq> None"
  shows "gst_bin_add_many es w = w\<lparr>rw_refs := (\<lambda>a. if Some a \<in> set es then None else rw_refs w a)\<rparr>"
proof -
  have "takeWhile (\<lambda>e. e \<noteq> None) es = es" using assms by simp
  then show ?thesis unfolding gst_bin_add_many_def fold_clear by (simp only:)
qed

lemma unref_all_spec:
  assumes "distinct [a. Some a \<leftarrow> es]" and "\<forall>a. Some a \<in> set es \<longrightarrow> rw_refs w a = Some 1"
  shows "rfold gst_unref es w = Inr (w\<lparr>rw_refs := (\<lambda>a. if Some a \<in> set es then None else rw_refs w a)\<rparr>)"
  using assms
proof (induction es arbitrary: w)
  case Nil
  show ?case by simp
next
  case (Cons e es)
  show ?case
  proof (cases e)
    case None
    with Cons show ?thesis by (simp add: gst_unref_def)
  next
    case (Some a)
    let ?w = "w\<lparr>rw_refs := (rw_refs w)(a := None)\<rparr>"
    have "rw_refs w a = Some (Suc 0)" using Cons.prems(2) Some by simp
    then have u: "gst_unref e w = Inr ?w" by (simp add: gst_unref_def Some)
    have na: "Some a \<notin> set es" using Cons.prems(1) by (auto simp: Some)
    have "rfold gst_unref es ?w = Inr (?w\<lparr>rw_refs := (\<lambda>b. if Some b \<in> set es then None else rw_refs ?w b)\<rparr>)"
      using Cons.prems na by (intro Cons.IH) (auto simp: Some)
    moreover have "(\<lambda>b. if Some b \<in> set es then None else rw_refs ?w b) =
        (\<lambda>b. if Some b \<in> set (e # es) then None else rw_refs w b)"
      by (auto simp: Some)
    ultimately show ?thesis using u by simp
  qed
qed

lemma delete_info_spec:
  assumes "refs_ok w" and "rw_infos w a = Some i"
  shows "\<exists>w'. delete_info_gst a w = Inr w' \<and> refs_ok w' \<and> rw_infos w' = (rw_infos w)(a := None) \<and>
    w' = w\<lparr>rw_refs := rw_refs w', rw_infos := (rw_infos w)(a := None)\<rparr>"
proof (cases "rg_pipeline i")
  case None
  let ?w = "w\<lparr>rw_infos := (rw_infos w)(a := None)\<rparr>"
  have "delete_info_gst a w = Inr ?w" using assms(2) None by (simp add: delete_info_gst_def gst_unref_def)
  moreover have "refs_ok ?w" using assms(1) by (auto simp: refs_ok_def)
  ultimately show ?thesis by auto
next
  case (Some p)
  let ?w = "w\<lparr>rw_refs := (rw_refs w)(p := None), rw_infos := (rw_infos w)(a := None)\<rparr>"
  have p: "rw_refs w p = Some (Suc 0)" using refs_ok_pipeline_old [OF assms Some] by simp
  then have "delete_info_gst a w = Inr ?w"
    using assms(2) Some by (simp add: delete_info_gst_def gst_unref_def)
  moreover have "q \<noteq> p" if "rw_infos w b = Some j" "rg_pipeline j = Some q" "b \<noteq> a" for b j q
    using assms Some that unfolding refs_ok_def by blast
  then have "refs_ok ?w" using assms(1) unfolding refs_ok_def by (auto split: if_splits)
  ultimately show ?thesis by auto
qed

end
