(* ===== verification/Rtsp_File.thy ===== *)
theory Rtsp_File
  imports Gst
begin

text \<open>
  \<open>RTSPSessionHandlerGstFile\<close> (\<open>src/rtsp/handler/gst_file/\<close>): a recording described, set up, played,
  paused and torn down through GStreamer pipelines.

  Every request of a handler has the same shape: the handler and the shared state, to the status,
  the string the request hands back, and both again.  \<open>None\<close> is a request that never returns.  The
  callbacks hold the raw address of the session object, so they may run after it is gone.
\<close>

type_synonym 'h reply = "(int \<times> string \<times> 'h \<times> rtsp_world) option res"

record gst_file =
  gf_keep_alive :: bool
  gf_rtp_info :: "addr option"
  gf_codec_info :: "h264_codec_info option"
  gf_streams :: "demux_stream option"

definition gst_file_ctor :: gst_file where
  "gst_file_ctor =
     \<lparr>gf_keep_alive = True, gf_rtp_info = None, gf_codec_info = None, gf_streams = None\<rparr>"

definition gst_file_dtor :: "gst_file \<times> rtsp_world \<Rightarrow> rtsp_world res" where
  "gst_file_dtor hw =
     (case gf_rtp_info (fst hw) of None \<Rightarrow> Inr (snd hw) | Some a \<Rightarrow> delete_info_gst a (snd hw))"

definition gst_file_destroy :: "gst_file \<times> rtsp_world \<Rightarrow> (int \<times> rtsp_world) res" where
  "gst_file_destroy hw = rbind (gst_file_dtor hw) (\<lambda>w. Inr (0, w))"

definition file_option_request :: "'h \<times> rtsp_world \<Rightarrow> 'h reply" where
  "file_option_request hw = Inr (Some (0, ''DESCRIBE, OPTIONS, SETUP, PLAY, TEARDOWN, PAUSE'', hw))"

subsection \<open>Pads\<close>

text \<open>
  \<open>gst_pad_query_caps\<close> returns a reference the callback owns; it gives it up only for H.264.  The sink
  pad's reference is taken and given up between the two.
\<close>

definition demux_pad_added :: "demux_stream \<Rightarrow> demux_pad \<Rightarrow> rtsp_world \<Rightarrow> rtsp_world res" where
  "demux_pad_added streams pad w =
     (case pd_type pad of
        None \<Rightarrow> Inr w
      | Some type \<Rightarrow>
         (let (caps, w1) = gst_new_ref w in
          if take 12 type = ''video/x-h264'' then
            (case ds_video_stream streams of
               None \<Rightarrow> gst_unref (Some caps) w1
             | Some video_element \<Rightarrow>
                 gst_unref (Some caps)
                   (if pd_has_sink pad then gst_log [Link (pd_addr pad) video_element] w1 else w1))
          else Inr w1))"

subsection \<open>DESCRIBE\<close>

definition describe_elements :: "string list" where
  "describe_elements =
     [''pipeline'', ''filesrc'', ''qtdemux'', ''queue'', ''h264parse'', ''rtph264pay'', ''appsink'']"

definition describe_wiring :: "string \<Rightarrow> addr list \<Rightarrow> gst_call list" where
  "describe_wiring path es =
     (let filesrc = es ! 1; demux = es ! 2; video_q = es ! 3; h264parse = es ! 4; rtph264pay = es ! 5;
          appsink = es ! 6 in
      [Set_string filesrc ''location'' path, Set_int appsink ''emit-signals'' 1,
       Connect appsink ''new-sample'', Link filesrc demux, Connect demux ''pad-added'',
       Link video_q h264parse, Link h264parse rtph264pay, Link rtph264pay appsink])"

text \<open>The file the description is cached in: the path up to its first dot, and \<open>.sdp\<close>.\<close>

definition sdp_path_of :: "string \<Rightarrow> string exn" where
  "sdp_path_of path =
     (case str_substr path 0 (str_find path ''.'' 0) of Inl e \<Rightarrow> Inl e | Inr s \<Rightarrow> Inr (s @ ''.sdp''))"

text \<open>Composing the answer once the pipeline has ended, and saving it.\<close>

definition describe_finish ::
  "rtsp_env \<Rightarrow> path \<Rightarrow> h264_codec_info \<Rightarrow> rtsp_world \<Rightarrow> int \<times> string \<times> rtsp_world" where
  "describe_finish env p codec w =
     (let sdp = re_sdp_text env (sdp_message_of (re_time env) (re_ip_addr env) None codec) in
      case open_out (re_can_open env) False p (rw_fs w) of
        None \<Rightarrow> (2, sdp, w)
      | Some fs \<Rightarrow> (0, sdp, w\<lparr>rw_fs := append_file p sdp fs\<rparr>))"

definition file_describe_request :: "rtsp_env \<Rightarrow> string \<Rightarrow> gst_file \<times> rtsp_world \<Rightarrow> gst_file reply" where
  "file_describe_request env path hw =
     (let (h, w) = hw in
      rbind (throw_uncaught (sdp_path_of path)) (\<lambda>sdp_path.
      let p = resolve (re_cwd env) sdp_path in
      case open_in (re_can_open env) p (rw_fs w) of
        Some sdp \<Rightarrow> Inr (Some (0, sdp, h, w))
      | None \<Rightarrow>
         (let (es, w1) = gst_make_all env describe_elements w in
          if None \<in> set es then
            rbind (rfold gst_unref es w1) (\<lambda>w2. Inr (Some (1, '''', h\<lparr>gf_codec_info := None\<rparr>, w2)))
          else
            let pipeline = hd es;
                streams = \<lparr>ds_video_stream = es ! 3, ds_audio_stream = None\<rparr>;
                w2 = gst_log (describe_wiring path (map the es)) (gst_bin_add_many (tl es) w1);
                w3 = snd (gst_set_state env pipeline State_playing w2) in
            rbind (rfold (demux_pad_added streams) (re_pads env) w3) (\<lambda>w4.
            case bus_loop (re_bus env) of
              None \<Rightarrow> Inr None
            | Some _ \<Rightarrow>
                rbind (gst_unref pipeline w4) (\<lambda>w5.
                let codec = deliver_samples new_sample_callback (re_samples env) (Some new_codec_info);
                    (ret, sdp, w6) = describe_finish env p (the codec) w5 in
                Inr (Some (ret, sdp, h\<lparr>gf_codec_info := codec\<rparr>, w6)))))))"

subsection \<open>SETUP\<close>

text \<open>
  \<open>sscanf\<close> with \<open>%d-%d\<close>: a number is read as \<open>strtol\<close> does and cut to 32 bits; a conversion that does
  not happen leaves the variable as it was, uninitialised.
\<close>

definition clamp64 :: "int \<Rightarrow> int" where
  "clamp64 v = max (- (2 ^ 63)) (min (2 ^ 63 - 1) v)"

definition scan_int :: "string \<Rightarrow> (int \<times> string) option" where
  "scan_int s =
     (let (neg, t) = parse_sign (dropWhile is_space s); ds = takeWhile is_digit t in
      if ds = [] then None
      else Some (to_int32 (clamp64 (if neg then - int (digits_val ds) else int (digits_val ds))),
                 drop (length ds) t))"

definition scan_ports :: "string \<Rightarrow> int \<times> int \<Rightarrow> int \<times> int" where
  "scan_ports s junk =
     (case scan_int s of
        None \<Rightarrow> junk
      | Some (a, rest) \<Rightarrow>
         (case rest of
            [] \<Rightarrow> (a, snd junk)
          | c # cs \<Rightarrow>
             if c \<noteq> CHR ''-'' then (a, snd junk)
             else (case scan_int cs of None \<Rightarrow> (a, snd junk) | Some (b, _) \<Rightarrow> (a, b))))"

definition setup_elements :: "string list" where
  "setup_elements =
     [''pipeline'', ''filesrc'', ''qtdemux'', ''queue'', ''h264parse'', ''rtph264pay'', ''rtpbin'',
      ''appsink'', ''appsink'', ''udpsrc'']"

definition setup_wiring :: "string \<Rightarrow> addr list \<Rightarrow> gst_call list" where
  "setup_wiring path es =
     (let filesrc = es ! 1; demux = es ! 2; video_q = es ! 3; h264parse = es ! 4; rtph264pay = es ! 5;
          rtpbin = es ! 6; rtp_appsink = es ! 7; rtcp_appsink = es ! 8; rtcp_udpsrc = es ! 9 in
      [Set_string filesrc ''location'' path, Set_int rtp_appsink ''emit-signals'' 1,
       Set_int rtcp_appsink ''emit-signals'' 1, Link filesrc demux, Connect demux ''pad-added'',
       Link video_q h264parse, Link h264parse rtph264pay,
       Link_pads rtph264pay ''src'' rtpbin ''send_rtp_sink_0'',
       Link_pads rtpbin ''send_rtp_src_0'' rtp_appsink ''sink'',
       Link_pads rtcp_udpsrc ''src'' rtpbin ''recv_rtcp_sink_0'',
       Link_pads rtpbin ''send_rtcp_src_0'' rtcp_appsink ''sink'',
       Connect rtp_appsink ''new-sample'', Connect rtcp_appsink ''new-sample''])"

text \<open>The two sockets and endpoints; every asio call used here throws when it fails.\<close>

definition udp_setup ::
  "rtsp_env \<Rightarrow> string \<Rightarrow> int \<times> int \<Rightarrow> rtp_session_info \<Rightarrow> (16 word \<times> rtp_session_info) exn" where
  "udp_setup env client_addr ports si =
     (if \<not> re_address_ok env client_addr then Inl System_error
      else if \<not> re_udp_open env then Inl System_error
      else case re_udp_bind env of
        None \<Rightarrow> Inl System_error
      | Some port \<Rightarrow>
          Inr (port, si\<lparr>rs_rtp_socket := Some \<lparr>us_open = True, us_local_port = Some port\<rparr>,
                        rs_rtp_endpoint := Some (client_addr, word_of_int (fst ports)),
                        rs_rtcp_socket := Some \<lparr>us_open = True, us_local_port = None\<rparr>,
                        rs_rtcp_endpoint := Some (client_addr, word_of_int (snd ports))\<rparr>))"

definition server_ports :: "16 word \<Rightarrow> string" where
  "server_ports port = ''server_port='' @ to_string (uint port) @ ''-'' @ to_string (uint port + 1)"

definition file_setup_request ::
  "rtsp_env \<Rightarrow> string \<Rightarrow> string \<Rightarrow> string \<Rightarrow> gst_file \<times> rtsp_world \<Rightarrow> gst_file reply" where
  "file_setup_request env path client_addr client_port hw =
     (let (h, w) = hw in
      rbind (gst_file_dtor (h, w)) (\<lambda>w0.
      let (a, w1) = new_info_gst (new_rtp_info\<lparr>rg_session_info := Some new_session_info\<rparr>) w0;
          (es, w2) = gst_make_all env setup_elements w1;
          h1 = h\<lparr>gf_rtp_info := Some a,
                 gf_streams := Some \<lparr>ds_video_stream = es ! 3, ds_audio_stream = None\<rparr>\<rparr> in
      if None \<in> set es then
        rbind (rfold gst_unref es w2) (\<lambda>w3.
        rbind (delete_info_gst a w3) (\<lambda>w4. Inr (Some (1, '''', h1\<lparr>gf_rtp_info := None\<rparr>, w4))))
      else
        let pipeline = hd es;
            w3 = gst_log (setup_wiring path (map the es)) (gst_bin_add_many (tl es) w2) in
        rbind (throw_uncaught (udp_setup env client_addr (scan_ports client_port (re_junk_ports env))
                 new_session_info)) (\<lambda>(port, si).
        let i = new_rtp_info\<lparr>rg_session_info := Some si\<rparr>;
            w4 = gst_log [Set_int (the (es ! 9)) ''port'' (uint port + 1)] (write_rtp_info a i w3);
            (ok, w5) = gst_set_state env pipeline State_paused w4 in
        if \<not> ok then
          rbind (gst_unref pipeline w5) (\<lambda>w6. Inr (Some (1, server_ports port, h1, w6)))
        else
          Inr (Some (0, server_ports port, h1, write_rtp_info a (i\<lparr>rg_pipeline := pipeline\<rparr>) w5)))))"

text \<open>
  The callback of the demuxer SETUP connects does what DESCRIBE's does, except that it asks for the
  pad's current caps (\<open>pd_type\<close> is then their type).
\<close>

definition setup_demux_pad_added :: "demux_stream \<Rightarrow> demux_pad \<Rightarrow> rtsp_world \<Rightarrow> rtsp_world res" where
  "setup_demux_pad_added streams pad w =
     (case pd_type pad of
        None \<Rightarrow> Inr w
      | Some type \<Rightarrow>
         (let (src_caps, w1) = gst_new_ref w in
          if take 12 type \<noteq> ''video/x-h264'' then Inr w1
          else case ds_video_stream streams of
              None \<Rightarrow> gst_unref (Some src_caps) w1
            | Some video_element \<Rightarrow>
                if \<not> pd_has_sink pad then gst_unref (Some src_caps) w1
                else gst_unref (Some src_caps) (gst_log [Link (pd_addr pad) video_element] w1)))"

text \<open>
  One round of the thread SETUP detaches to watch the bus.  It holds the pipeline's bare address: the
  parameters are whether the pipeline's state is a failure and what the poll gives.  The result says
  whether the loop goes on.
\<close>

definition bus_thread_round :: "addr \<Rightarrow> bool \<Rightarrow> gst_message option \<Rightarrow> rtsp_world \<Rightarrow> bool res" where
  "bus_thread_round pipeline failure msg w =
     (case rw_refs w pipeline of
        None \<Rightarrow> Inl UseAfterFree
      | Some _ \<Rightarrow> Inr (\<not> failure \<and> msg = None))"

subsection \<open>The sinks\<close>

definition send_packet ::
  "udp_socket option \<Rightarrow> endpoint option \<Rightarrow> 8 word list \<Rightarrow> rtsp_world \<Rightarrow> rtsp_world res" where
  "send_packet socket endpoint bytes w =
     rbind (deref socket) (\<lambda>s.
       if us_open s then rbind (deref endpoint) (\<lambda>e. Inr (w\<lparr>rw_sent := rw_sent w @ [(e, bytes)]\<rparr>))
       else Inr w)"

text \<open>The first packet's sequence number and timestamp are kept for the answer to PLAY.\<close>

definition record_first ::
  "rtp_buffer \<Rightarrow> rtp_session_info_gst \<Rightarrow> rtp_session_info_gst option res" where
  "record_first buf i =
     (if \<not> rg_first i then Inr (Some i)
      else case rb_header buf of
        None \<Rightarrow> Inr None
      | Some (seq, time) \<Rightarrow>
          rbind (deref (rg_session_info i)) (\<lambda>si.
            Inr (Some (i\<lparr>rg_session_info := Some (si\<lparr>rs_init_seq := seq, rs_init_rtptime := time\<rparr>),
                         rg_first := False\<rparr>))))"

definition rtp_appsink_new_sample_callback ::
  "addr \<Rightarrow> rtp_buffer option \<Rightarrow> rtsp_world \<Rightarrow> (flow \<times> rtsp_world) res" where
  "rtp_appsink_new_sample_callback a sample w =
     (case sample of
        None \<Rightarrow> Inr (Flow_error, w)
      | Some buf \<Rightarrow>
          rbind (read_rtp_info a w) (\<lambda>i0.
          rbind (record_first buf i0) (\<lambda>r.
          case r of
            None \<Rightarrow> Inr (Flow_error, w)
          | Some i \<Rightarrow>
             (let w1 = write_rtp_info a i w in
              case rb_bytes buf of
                None \<Rightarrow> Inr (Flow_error, w1)
              | Some bytes \<Rightarrow>
                  rbind (deref (rg_session_info i)) (\<lambda>si.
                  rbind (send_packet (rs_rtp_socket si) (rs_rtp_endpoint si) bytes w1) (\<lambda>w2.
                  Inr (Flow_ok, w2)))))))"

definition rtcp_appsink_new_sample_callback ::
  "addr \<Rightarrow> rtp_buffer option \<Rightarrow> rtsp_world \<Rightarrow> (flow \<times> rtsp_world) res" where
  "rtcp_appsink_new_sample_callback a sample w =
     (case sample of
        None \<Rightarrow> Inr (Flow_error, w)
      | Some buf \<Rightarrow>
         (case rb_bytes buf of
            None \<Rightarrow> Inr (Flow_error, w)
          | Some bytes \<Rightarrow>
              rbind (read_rtp_info a w) (\<lambda>i.
              rbind (deref (rg_session_info i)) (\<lambda>si.
              rbind (send_packet (rs_rtcp_socket si) (rs_rtcp_endpoint si) bytes w) (\<lambda>w1.
              Inr (Flow_ok, w1))))))"

subsection \<open>PLAY, PAUSE, TEARDOWN\<close>

text \<open>
  PLAY spins until the first packet has gone out: the packets that reach the RTP sink meanwhile are a
  parameter.
\<close>

fun wait_first :: "addr \<Rightarrow> rtp_buffer option list \<Rightarrow> rtsp_world \<Rightarrow> rtsp_world option res" where
  "wait_first a bs w =
     rbind (read_rtp_info a w) (\<lambda>i.
       if \<not> rg_first i then Inr (Some w)
       else case bs of
         [] \<Rightarrow> Inr None
       | b # bs1 \<Rightarrow> rbind (rtp_appsink_new_sample_callback a b w) (\<lambda>(_, w1). wait_first a bs1 w1))"

declare wait_first.simps [simp del]

definition file_play_request :: "rtsp_env \<Rightarrow> string \<Rightarrow> gst_file \<times> rtsp_world \<Rightarrow> gst_file reply" where
  "file_play_request env time hw =
     (let (h, w) = hw in
      rbind (deref (gf_rtp_info h)) (\<lambda>a.
      rbind (read_rtp_info a w) (\<lambda>i.
      let (ok, w1) = gst_set_state env (rg_pipeline i) State_playing w in
      if \<not> ok then Inr (Some (1, '''', h, w1))
      else
        rbind (wait_first a (re_rtp env) w1) (\<lambda>r.
        case r of
          None \<Rightarrow> Inr None
        | Some w2 \<Rightarrow>
            rbind (read_rtp_info a w2) (\<lambda>j.
            rbind (deref (rg_session_info j)) (\<lambda>si.
            Inr (Some (0, ''seq='' @ to_string (uint (rs_init_seq si)) @ '';rtptime='' @
                          to_string (uint (rs_init_rtptime si)), h, w2))))))))"

definition file_pause_request :: "rtsp_env \<Rightarrow> string \<Rightarrow> gst_file \<times> rtsp_world \<Rightarrow> gst_file reply" where
  "file_pause_request env time hw =
     (let (h, w) = hw in
      rbind (deref (gf_rtp_info h)) (\<lambda>a.
      rbind (read_rtp_info a w) (\<lambda>i.
      let (ok, w1) = gst_set_state env (rg_pipeline i) State_paused w in
      Inr (Some (if ok then 0 else 1, '''', h, w1)))))"

definition close_socket :: "udp_socket \<Rightarrow> udp_socket" where
  "close_socket s = s\<lparr>us_open := False\<rparr>"

definition file_teardown_request :: "rtsp_env \<Rightarrow> gst_file \<times> rtsp_world \<Rightarrow> gst_file reply" where
  "file_teardown_request env hw =
     (let (h, w) = hw in
      rbind (deref (gf_rtp_info h)) (\<lambda>a.
      rbind (read_rtp_info a w) (\<lambda>i.
      let (ok, w1) = gst_set_state env (rg_pipeline i) State_null w in
      if \<not> ok then Inr (Some (1, '''', h, w1))
      else
        rbind (deref (rg_session_info i)) (\<lambda>si.
        rbind (deref (rs_rtp_socket si)) (\<lambda>rtp.
        rbind (deref (rs_rtcp_socket si)) (\<lambda>rtcp.
        let si1 = si\<lparr>rs_rtp_socket := Some (close_socket rtp), rs_rtcp_socket := Some (close_socket rtcp)\<rparr>;
            w2 = write_rtp_info a (i\<lparr>rg_session_info := Some si1\<rparr>) w1 in
        rbind (gst_unref (rg_pipeline i) w2) (\<lambda>w3.
        rbind (delete_info_gst a w3) (\<lambda>w4.
        Inr (Some (0, '''', h\<lparr>gf_rtp_info := None\<rparr>, w4))))))))))"

end
