(* ===== verification/Rtsp_Live.thy ===== *)
theory Rtsp_Live
  imports Rtsp_File
begin

text \<open>
  \<open>MulticastStreamV4L2\<close> and \<open>RTSPSessionHandlerGstLive\<close> (\<open>src/rtsp/handler/gst_live/\<close>): the camera's
  live stream, encoded from the frames of the \<open>VideoQueue\<close> and sent to a multicast group, and the
  requests that describe it.

  The stream is a singleton of the shared state.  The \<open>need-data\<close> callbacks run in GStreamer's
  threads between the camera's and the distributor's steps: \<open>make_sdp\<close> takes the interleaving of its
  callbacks with the queue's other steps as a parameter.  A callback that blocks in \<open>pop\<close> makes no
  step.
\<close>

subsection \<open>The stream object\<close>

definition new_multicast_stream :: "string \<Rightarrow> int \<Rightarrow> multicast_stream" where
  "new_multicast_stream ip_addr port =
     \<lparr>ms_rtp_info = new_rtp_info, ms_codec_info = Some new_codec_info, ms_is_sdp = False,
      ms_sdp_str = '''', ms_ip_addr = ip_addr, ms_port = port, ms_thread_info = None\<rparr>"

definition multicast_get_instance :: "string \<Rightarrow> int \<Rightarrow> rtsp_world \<Rightarrow> multicast_stream \<times> rtsp_world" where
  "multicast_get_instance multicast_ip port w =
     (case rw_stream w of
        Some ms \<Rightarrow> (ms, w)
      | None \<Rightarrow> (new_multicast_stream multicast_ip port,
                 w\<lparr>rw_stream := Some (new_multicast_stream multicast_ip port)\<rparr>))"

definition multicast_destroy :: "multicast_stream \<Rightarrow> int" where
  "multicast_destroy ms = 0"

definition get_ip_addr :: "multicast_stream \<Rightarrow> int \<times> string" where
  "get_ip_addr ms = (0, ms_ip_addr ms)"

definition get_port :: "multicast_stream \<Rightarrow> int" where
  "get_port ms = ms_port ms"

subsection \<open>Feeding the encoder\<close>

definition frame_duration :: int where
  "frame_duration = 1000000000 div 30"

text \<open>
  Filling and pushing one buffer.  \<open>gst_app_src_push_buffer\<close> takes the buffer's reference whether it
  succeeds or not.  The result is the buffer and the push's success, \<open>None\<close> when no push happened.
\<close>

definition push_frame ::
  "need_data_env \<Rightarrow> vbuf \<Rightarrow> int \<Rightarrow> rtsp_world \<Rightarrow> ((addr \<times> bool) option \<times> rtsp_world) res" where
  "push_frame nd mem_buffer cnt w =
     (let buffer_size = unat (of_nat (vb_size mem_buffer) :: 32 word) in
      if vb_data mem_buffer = None then Inr (None, w)
      else if \<not> nd_alloc nd then Inr (None, w)
      else let (buffer, w1) = gst_new_ref w in
        if \<not> nd_map nd then rbind (gst_unref (Some buffer) w1) (\<lambda>w2. Inr (None, w2))
        else rbind (memcpy_bytes (vb_data mem_buffer) buffer_size) (\<lambda>bytes.
          let w2 = w1\<lparr>rw_refs := (rw_refs w1)(buffer := None)\<rparr> in
          Inr (Some (buffer, nd_push nd),
               if nd_push nd
               then w2\<lparr>rw_pushed := rw_pushed w2 @ [(word_of_int (frame_duration * cnt), bytes)]\<rparr>
               else w2)))"

definition sdp_need_data ::
  "'p video_config option \<Rightarrow> need_data_env \<Rightarrow> rtsp_world \<Rightarrow> rtsp_world option res" where
  "sdp_need_data cfg nd w =
     rbind (deref cfg) (\<lambda>_.
     if \<not> nd_is_app_src nd then Inr (Some w)
     else
       rbind (pop ''sdp'' (rw_queue w)) (\<lambda>r.
       case r of
         None \<Rightarrow> Inr None
       | Some (None, q) \<Rightarrow> Inr (Some (w\<lparr>rw_queue := q\<rparr>))
       | Some (Some a, q) \<Rightarrow>
           rbind (read_buf a q) (\<lambda>mem_buffer.
           rbind (push_frame nd mem_buffer (rw_cnt w) (w\<lparr>rw_queue := q\<rparr>)) (\<lambda>(pushed, w1).
           rbind (case pushed of
                    Some (_, True) \<Rightarrow> rbind (int_add (rw_cnt w1) 1) (\<lambda>n. Inr (w1\<lparr>rw_cnt := n\<rparr>))
                  | _ \<Rightarrow> Inr w1) (\<lambda>w2.
           rbind (delete_buf a (rw_queue w2)) (\<lambda>q2. Inr (Some (w2\<lparr>rw_queue := q2\<rparr>))))))))"

text \<open>
  The stream's callback, and its continuation: what it does once \<open>pop\<close> returned, \<open>None\<close> while it waits
  there.  A callback that waits resumes inside \<open>pop\<close>.
\<close>

definition play_popped ::
  "need_data_env \<Rightarrow> rtsp_world \<Rightarrow> (addr option \<times> vqueue) option \<Rightarrow> rtsp_world option res" where
  "play_popped nd w r =
     (case r of
        None \<Rightarrow> Inr None
      | Some (None, q) \<Rightarrow> Inr (Some (w\<lparr>rw_queue := q\<rparr>))
      | Some (Some a, q) \<Rightarrow>
          rbind (read_buf a q) (\<lambda>mem_buffer.
          rbind (push_frame nd mem_buffer (rw_frame_cnt w) (w\<lparr>rw_queue := q\<rparr>)) (\<lambda>(pushed, w1).
          rbind (case pushed of
                   Some (_, True) \<Rightarrow>
                     rbind (int_add (rw_frame_cnt w1) 1) (\<lambda>n. Inr (w1\<lparr>rw_frame_cnt := n\<rparr>))
                 | Some (buffer, False) \<Rightarrow> gst_unref (Some buffer) w1
                 | None \<Rightarrow> Inr w1) (\<lambda>w2.
          rbind (delete_buf a (rw_queue w2)) (\<lambda>q2. Inr (Some (w2\<lparr>rw_queue := q2\<rparr>)))))))"

definition play_need_data ::
  "'p video_config option \<Rightarrow> need_data_env \<Rightarrow> rtsp_world \<Rightarrow> rtsp_world option res" where
  "play_need_data cfg nd w =
     rbind (deref cfg) (\<lambda>_.
     if \<not> nd_is_app_src nd then Inr (Some w)
     else rbind (pop ''live'' (rw_queue w)) (play_popped nd w))"

definition play_resume :: "need_data_env \<Rightarrow> rtsp_world \<Rightarrow> rtsp_world option res" where
  "play_resume nd w = rbind (pop_resume ''live'' (rw_queue w)) (play_popped nd w)"

subsection \<open>The description\<close>

text \<open>What happens while \<open>make_sdp\<close> waits for the bus.\<close>

datatype stream_step =
    Need_data need_data_env
  | New_sample gst_sample
  | Capture vbuf
  | Distribute int

fun sdp_step :: "'p video_config option \<Rightarrow> stream_step \<Rightarrow> rtsp_world \<Rightarrow> rtsp_world res" where
  "sdp_step cfg (Need_data nd) w =
     rbind (sdp_need_data cfg nd w) (\<lambda>r. Inr (case r of None \<Rightarrow> w | Some w1 \<Rightarrow> w1))"
| "sdp_step cfg (New_sample s) w =
     rbind (deref (rw_stream w)) (\<lambda>ms.
       Inr (w\<lparr>rw_stream := Some (ms\<lparr>ms_codec_info :=
              snd (multicast_sdp_new_sample_callback s (ms_codec_info ms))\<rparr>)\<rparr>))"
| "sdp_step cfg (Capture b) w =
     (let (a, q) = new_buf b (rw_queue w) in Inr (w\<lparr>rw_queue := snd (push a q)\<rparr>))"
| "sdp_step cfg (Distribute t) w =
     rbind (distribute_round t (rw_queue w)) (\<lambda>q. Inr (w\<lparr>rw_queue := q\<rparr>))"

text \<open>The frame rate is split at its slash; the parts are not used.\<close>

definition frame_rate_parts :: "'p video_config \<Rightarrow> (string \<times> string) exn" where
  "frame_rate_parts c =
     (let idx = str_find (video_frame_rate c) ''/'' 0 in
      case str_substr (video_frame_rate c) 0 idx of
        Inl e \<Rightarrow> Inl e
      | Inr denom \<Rightarrow>
         (case str_substr (video_frame_rate c) (idx + 1) 1 of Inl e \<Rightarrow> Inl e | Inr divisor \<Rightarrow> Inr (denom, divisor)))"

definition on_element :: "addr option \<Rightarrow> (addr \<Rightarrow> gst_call) \<Rightarrow> gst_call list" where
  "on_element e f = (case e of None \<Rightarrow> [] | Some a \<Rightarrow> [f a])"

definition sdp_elements :: "string list" where
  "sdp_elements =
     [''pipeline'', ''appsrc'', ''capsfilter'', ''videoconvert'', ''x264enc'', ''rtph264pay'', ''appsink'']"

definition sdp_wiring :: "addr option list \<Rightarrow> gst_call list" where
  "sdp_wiring es =
     on_element (es ! 1) (\<lambda>a. Set_int a ''is-live'' 1) @ on_element (es ! 1) (\<lambda>a. Connect a ''need-data'') @
     on_element (es ! 2) (\<lambda>a. Set_caps a ''YUY2'' 640 480) @
     on_element (es ! 4) (\<lambda>a. Set_int a ''speed-preset'' 1) @ on_element (es ! 4) (\<lambda>a. Set_int a ''tune'' 1) @
     on_element (es ! 5) (\<lambda>a. Set_int a ''config-interval'' 1) @ on_element (es ! 5) (\<lambda>a. Set_int a ''pt'' 96) @
     on_element (es ! 6) (\<lambda>a. Set_int a ''emit-signals'' 1) @ on_element (es ! 6) (\<lambda>a. Connect a ''new-sample'')"

text \<open>Polling a null bus gives nothing, for ever.\<close>

definition bus_of :: "rtsp_env \<Rightarrow> addr option \<Rightarrow> gst_message option list" where
  "bus_of env pipeline = (case pipeline of None \<Rightarrow> [] | Some _ \<Rightarrow> re_bus env)"

definition sdp_finish :: "rtsp_env \<Rightarrow> rtsp_world \<Rightarrow> (int \<times> string \<times> rtsp_world) res" where
  "sdp_finish env w =
     rbind (deref (rw_stream w)) (\<lambda>ms.
     rbind (deref (ms_codec_info ms)) (\<lambda>codec.
     let sdp = re_sdp_text env (sdp_message_of (re_time env) (re_ip_addr env)
                 (Some (''IN'', ''IP4'', ms_ip_addr ms, 32, 0)) codec) in
     Inr (0, sdp, w\<lparr>rw_stream := Some (ms\<lparr>ms_sdp_str := sdp\<rparr>)\<rparr>)))"

definition make_sdp ::
  "rtsp_env \<Rightarrow> 'p video_config option \<Rightarrow> stream_step list \<Rightarrow> rtsp_world \<Rightarrow>
     (int \<times> string \<times> rtsp_world) option res" where
  "make_sdp env cfg steps w =
     rbind (deref (rw_stream w)) (\<lambda>ms.
     let codec = (case ms_codec_info ms of None \<Rightarrow> new_codec_info | Some c \<Rightarrow> c);
         w0 = w\<lparr>rw_stream := Some (ms\<lparr>ms_codec_info := Some codec\<rparr>)\<rparr> in
     if ms_sdp_str ms \<noteq> '''' then Inr (Some (0, ms_sdp_str ms, w0))
     else
       let (es, w1) = gst_make_all env sdp_elements w0;
           pipeline = hd es;
           (ti, q1) = new_info \<lparr>ti_is_run = True, ti_fps = 30\<rparr> (rw_queue w1) in
       rbind (deref cfg) (\<lambda>c.
       rbind (throw_uncaught (frame_rate_parts c)) (\<lambda>_.
       let w2 = gst_log (sdp_wiring es) (gst_bin_add_many (tl es) (w1\<lparr>rw_queue := q1\<rparr>)) in
       if \<not> re_link_many env (tl es) then Inr (Some (-1, '''', w2))
       else
         rbind (insert_event ''sdp'' (Some ti) (rw_queue w2)) (\<lambda>(_, q2).
         let w3 = snd (gst_set_state env pipeline State_playing (w2\<lparr>rw_queue := q2\<rparr>)) in
         rbind (rfold (sdp_step cfg) steps w3) (\<lambda>w4.
         case bus_loop (bus_of env pipeline) of
           None \<Rightarrow> Inr None
         | Some _ \<Rightarrow>
             rbind (gst_unref pipeline (snd (gst_set_state env pipeline State_null w4))) (\<lambda>w5.
             rbind (remove_event ''sdp'' (rw_queue w5)) (\<lambda>(_, q5).
             rbind (sdp_finish env (w5\<lparr>rw_queue := q5\<rparr>)) (\<lambda>r. Inr (Some r)))))))))"

subsection \<open>The stream\<close>

definition stream_elements :: "string list" where
  "stream_elements =
     [''pipeline'', ''appsrc'', ''capsfilter'', ''videoconvert'', ''x264enc'', ''rtph264pay'', ''udpsink'']"

definition stream_wiring ::
  "'p video_config \<Rightarrow> multicast_stream \<Rightarrow> addr option list \<Rightarrow> gst_call list" where
  "stream_wiring c ms es =
     on_element (es ! 1) (\<lambda>a. Set_int a ''is-live'' 1) @ on_element (es ! 1) (\<lambda>a. Connect a ''need-data'') @
     on_element (es ! 2) (\<lambda>a. Set_caps a (video_format c) (video_width c) (video_height c)) @
     on_element (es ! 4) (\<lambda>a. Set_int a ''speed-preset'' 1) @ on_element (es ! 4) (\<lambda>a. Set_int a ''tune'' 1) @
     on_element (es ! 5) (\<lambda>a. Set_int a ''config-interval'' 1) @ on_element (es ! 5) (\<lambda>a. Set_int a ''pt'' 96) @
     on_element (es ! 6) (\<lambda>a. Set_string a ''host'' (ms_ip_addr ms)) @
     on_element (es ! 6) (\<lambda>a. Set_int a ''port'' (ms_port ms))"

definition set_stream :: "rtsp_env \<Rightarrow> 'p video_config option \<Rightarrow> rtsp_world \<Rightarrow> (int \<times> rtsp_world) res" where
  "set_stream env cfg w =
     rbind (deref (rw_stream w)) (\<lambda>ms.
     let (es, w1) = gst_make_all env stream_elements w;
         (ti, q1) = (case ms_thread_info ms of
                       Some ti \<Rightarrow> (ti, rw_queue w1)
                     | None \<Rightarrow> new_info \<lparr>ti_is_run = True, ti_fps = 30\<rparr> (rw_queue w1));
         ms1 = ms\<lparr>ms_thread_info := Some ti\<rparr> in
     rbind (deref cfg) (\<lambda>c.
     let w2 = gst_log (stream_wiring c ms es)
                (gst_bin_add_many (tl es) (w1\<lparr>rw_queue := q1, rw_stream := Some ms1\<rparr>)) in
     if \<not> re_link_many env (tl es) then Inr (-1, w2)
     else
       let w3 = snd (gst_set_state env (hd es) State_paused w2);
           ms2 = ms1\<lparr>ms_rtp_info := (ms_rtp_info ms1)\<lparr>rg_pipeline := hd es\<rparr>\<rparr> in
       Inr (0, w3\<lparr>rw_stream := Some ms2\<rparr>)))"

definition play_stream :: "rtsp_world \<Rightarrow> (int \<times> rtsp_world) res" where
  "play_stream w =
     rbind (deref (rw_stream w)) (\<lambda>ms.
     rbind (insert_event ''live'' (ms_thread_info ms) (rw_queue w)) (\<lambda>(_, q). Inr (0, w\<lparr>rw_queue := q\<rparr>)))"

text \<open>The thread \<open>play_stream\<close> detaches: it plays until the bus reports the end or an error.\<close>

definition live_thread :: "rtsp_env \<Rightarrow> rtsp_world \<Rightarrow> rtsp_world option res" where
  "live_thread env w =
     rbind (deref (rw_stream w)) (\<lambda>ms.
     let pipeline = rg_pipeline (ms_rtp_info ms);
         w1 = snd (gst_set_state env pipeline State_playing w) in
     case bus_loop (bus_of env pipeline) of
       None \<Rightarrow> Inr None
     | Some _ \<Rightarrow>
         rbind (gst_unref pipeline (snd (gst_set_state env pipeline State_null w1))) (\<lambda>w2. Inr (Some w2)))"

subsection \<open>The live handler\<close>

text \<open>Its pointer to the stream is a pointer to the singleton, \<open>rw_stream\<close>.\<close>

record gst_live =
  gl_keep_alive :: bool

definition gst_live_ctor :: "rtsp_world \<Rightarrow> gst_live \<times> rtsp_world" where
  "gst_live_ctor w =
     (let (_, w1) = multicast_get_instance '''' 0 w in (\<lparr>gl_keep_alive = True\<rparr>, w1))"

definition gst_live_destroy :: "gst_live \<times> rtsp_world \<Rightarrow> (int \<times> rtsp_world) res" where
  "gst_live_destroy hw = Inr (0, snd hw)"

definition live_option_request :: "gst_live \<times> rtsp_world \<Rightarrow> gst_live reply" where
  "live_option_request hw = Inr (Some (0, ''DESCRIBE, OPTIONS, SETUP, PLAY, TEARDOWN, PAUSE'', hw))"

definition live_describe_request ::
  "rtsp_env \<Rightarrow> 'p video_config option \<Rightarrow> stream_step list \<Rightarrow> string \<Rightarrow> gst_live \<times> rtsp_world \<Rightarrow> gst_live reply" where
  "live_describe_request env cfg steps path hw =
     rbind (make_sdp env cfg steps (snd hw)) (\<lambda>r.
       Inr (case r of None \<Rightarrow> None | Some (ret, sdp, w) \<Rightarrow> Some (ret, sdp, fst hw, w)))"

definition live_setup_request ::
  "string \<Rightarrow> string \<Rightarrow> string \<Rightarrow> gst_live \<times> rtsp_world \<Rightarrow> gst_live reply" where
  "live_setup_request path client_addr client_port hw =
     rbind (deref (rw_stream (snd hw))) (\<lambda>ms.
       Inr (Some (0, ''destination='' @ snd (get_ip_addr ms) @ '';port='' @ to_string (get_port ms) @
                     '';ttl=32'', hw)))"

definition live_play_request :: "string \<Rightarrow> gst_live \<times> rtsp_world \<Rightarrow> gst_live reply" where
  "live_play_request time hw = Inr (Some (0, '''', hw))"

definition live_pause_request :: "string \<Rightarrow> gst_live \<times> rtsp_world \<Rightarrow> gst_live reply" where
  "live_pause_request time hw = Inr (Some (0, '''', hw))"

definition live_teardown_request :: "gst_live \<times> rtsp_world \<Rightarrow> gst_live reply" where
  "live_teardown_request hw = Inr (Some (0, '''', hw))"

end
