(* ===== verification/Streamer.thy ===== *)
theory Streamer
  imports Rtsp_Live
begin

text \<open>
  \<open>video::VideoStreamerGST\<close> (\<open>src/video/VideoStreamerGST.cpp\<close> and \<open>src/video/GstreamerCallbacks.cpp\<close>):
  the GStreamer RTSP server that sends the camera's frames to its clients and records them, and its
  callbacks.

  Each client has a \<open>sess_info\<close> object that its callbacks share by raw address; every \<open>need-data\<close> starts
  a thread that takes ownership of it.  The thread captures the callback's parameters by reference; the
  model reads them when the thread starts, as if that were still before the callback returned.
\<close>

subsection \<open>The server\<close>

record 'p streamer =
  vs_rtsp_server :: "addr option"
  vs_mountPoint :: "addr option"
  vs_mfactory :: "addr option"
  vs_main_loop :: "addr option"
  vs_pipeline :: string
  vs_video_config :: "'p video_config option"

definition streamer_ctor :: "'p video_config option \<Rightarrow> 'p streamer" where
  "streamer_ctor cfg =
     \<lparr>vs_rtsp_server = None, vs_mountPoint = None, vs_mfactory = None, vs_main_loop = None,
      vs_pipeline = '''', vs_video_config = cfg\<rparr>"

definition createPipeline :: "'p video_config option \<Rightarrow> string res" where
  "createPipeline cfg =
     rbind (deref cfg) (\<lambda>c.
     rbind (split_time c) (\<lambda>ns.
     Inr (''( appsrc name=stream_src is-live=true format=time '' @ ''caps=video/x-raw,'' @
          ''width='' @ to_string (video_width c) @ '',height='' @ to_string (video_height c) @
          '',framerate='' @ video_frame_rate c @ '',format='' @ video_format c @
          '' ! tee name=t ! '' @
          ''queue ! videoconvert ! x264enc speed-preset=ultrafast tune=fastdecode ! '' @
          ''video/x-h264,profile=high ! rtph264pay config-interval=1 name=pay0 pt=96 '' @
          ''t. ! queue ! videoconvert ! x264enc speed-preset=ultrafast tune=fastdecode ! '' @
          ''splitmuxsink name=muxsink max-size-time='' @ to_string ns @ '' )'')))"

definition make_server :: "'p streamer \<times> rtsp_world \<Rightarrow> ('p streamer \<times> rtsp_world) res" where
  "make_server sw =
     (let (s, w) = sw;
          (server, w1) = gst_new_ref w;
          (main_loop, w2) = gst_new_ref w1;
          (mount, w3) = gst_new_ref w2;
          (factory, w4) = gst_new_ref w3 in
      rbind (createPipeline (vs_video_config s)) (\<lambda>pipeline.
      Inr (s\<lparr>vs_rtsp_server := Some server, vs_main_loop := Some main_loop, vs_mountPoint := Some mount,
             vs_mfactory := Some factory, vs_pipeline := pipeline\<rparr>,
           gst_log [Set_string server ''service'' ''8550'', Set_int factory ''shared'' 1,
                    Link_pads mount ''/snackticon'' factory ''''] (w4))))"

text \<open>
  \<open>gst_rtsp_mount_points_add_factory\<close> takes the factory's reference over.  The main loop runs until it
  is quit: \<open>None\<close> when it never is.
\<close>

definition start_server ::
  "bool \<Rightarrow> bool \<Rightarrow> 'p streamer \<times> rtsp_world \<Rightarrow> (int \<times> 'p streamer \<times> rtsp_world) option res" where
  "start_server attached quits sw =
     rbind (make_server sw) (\<lambda>(s, w).
     let w1 = (case vs_mfactory s of None \<Rightarrow> w | Some f \<Rightarrow> gst_log [Set_string f ''launch'' (vs_pipeline s)] w) in
     if \<not> attached then Inr (Some (-1, s, w1))
     else
       let w2 = gst_log (on_element (vs_mfactory s) (\<lambda>f. Connect f ''media-configure'') @
                         on_element (vs_rtsp_server s) (\<lambda>r. Connect r ''client-connected'')) w1 in
       if quits then Inr (Some (0, s, w2)) else Inr None)"

definition stop_server :: "'p streamer \<times> rtsp_world \<Rightarrow> (int \<times> 'p streamer \<times> rtsp_world) res" where
  "stop_server sw =
     (let (s, w) = sw in
      rbind (case vs_main_loop s of
               None \<Rightarrow> Inr (s, w)
             | Some l \<Rightarrow> rbind (gst_unref (Some l) w) (\<lambda>w1. Inr (s\<lparr>vs_main_loop := None\<rparr>, w1))) (\<lambda>(s1, w1).
      case vs_rtsp_server s1 of
        None \<Rightarrow> Inr (0, s1, w1)
      | Some server \<Rightarrow>
          rbind (gst_unref (Some server) w1) (\<lambda>w2.
          if vs_rtsp_server s1 \<noteq> None then Inr (-1, s1, w2)
          else Inr (0, s1\<lparr>vs_rtsp_server := None\<rparr>, w2))))"

text \<open>The destructor ends with \<open>stop_server\<close>, whose status it drops.\<close>

definition streamer_dtor :: "'p streamer \<times> rtsp_world \<Rightarrow> rtsp_world res" where
  "streamer_dtor sw =
     (let (s, w) = sw in
      rbind (gst_unref (vs_mountPoint s) w) (\<lambda>w1.
      rbind (gst_unref (vs_mfactory s) w1) (\<lambda>w2.
      rbind (stop_server (s, w2)) (\<lambda>(_, _, w3). Inr w3))))"

subsection \<open>Clients\<close>

record sess_info =
  si_id :: string
  si_cnt :: "64 word"
  si_info :: addr

record clients =
  cl_sessions :: "addr \<Rightarrow> sess_info option"
  cl_next :: addr
  cl_queue :: vqueue
  cl_pushed :: "(64 word \<times> 8 word list) list"

definition read_session :: "addr \<Rightarrow> clients \<Rightarrow> sess_info res" where
  "read_session a g = (case cl_sessions g a of None \<Rightarrow> Inl UseAfterFree | Some i \<Rightarrow> Inr i)"

definition delete_session :: "addr \<Rightarrow> clients \<Rightarrow> clients res" where
  "delete_session a g =
     (case cl_sessions g a of
        None \<Rightarrow> Inl DoubleFree
      | Some _ \<Rightarrow> Inr (g\<lparr>cl_sessions := (cl_sessions g)(a := None)\<rparr>))"

definition delete_thread_info :: "addr \<Rightarrow> clients \<Rightarrow> clients res" where
  "delete_thread_info ti g =
     (case q_infos (cl_queue g) ti of
        None \<Rightarrow> Inl DoubleFree
      | Some _ \<Rightarrow> Inr (g\<lparr>cl_queue := (cl_queue g)\<lparr>q_infos := (q_infos (cl_queue g))(ti := None)\<rparr>\<rparr>))"

text \<open>What a new media finds in its pipeline, and the signals it connects the session to.\<close>

record media_env =
  me_appsrc :: bool
  me_muxsink :: bool

definition on_media_configure ::
  "media_env \<Rightarrow> string \<Rightarrow> clients \<Rightarrow> (addr \<times> string list \<times> clients) res" where
  "on_media_configure me uuid g =
     (let (t_info, q1) = new_info \<lparr>ti_is_run = True, ti_fps = 60\<rparr> (cl_queue g);
          session = cl_next g;
          g1 = g\<lparr>cl_queue := q1, cl_next := Suc session,
                 cl_sessions := (cl_sessions g)(session \<mapsto> \<lparr>si_id = uuid, si_cnt = 0, si_info = t_info\<rparr>)\<rparr> in
      rbind (insert_event uuid (Some t_info) (cl_queue g1)) (\<lambda>(_, q2).
      Inr (session,
           (if me_appsrc me then [''need-data'', ''enough-data''] else []) @ [''unprepared''] @
           (if me_muxsink me then [''format-location-full''] else []),
           g1\<lparr>cl_queue := q2\<rparr>)))"

text \<open>One iteration of the thread \<open>need_data\<close> starts.  The early exits do not delete the frame.\<close>

datatype feed_status = Feed_blocked | Feed_ended | Feed_running

record feed_env =
  fe_is_app_src :: bool
  fe_alloc :: bool
  fe_map :: bool
  fe_playing :: bool
  fe_push :: bool

definition feed_round :: "feed_env \<Rightarrow> addr \<Rightarrow> string \<Rightarrow> clients \<Rightarrow> (feed_status \<times> clients) res" where
  "feed_round fe info sess g =
     (if \<not> fe_is_app_src fe then Inr (Feed_ended, g)
      else
        rbind (pop sess (cl_queue g)) (\<lambda>r.
        case r of
          None \<Rightarrow> Inr (Feed_blocked, g)
        | Some (None, q) \<Rightarrow> Inr (Feed_ended, g\<lparr>cl_queue := q\<rparr>)
        | Some (Some a, q) \<Rightarrow>
           (let g1 = g\<lparr>cl_queue := q\<rparr> in
            rbind (read_buf a q) (\<lambda>mem_buffer.
            if \<not> fe_alloc fe \<or> \<not> fe_map fe \<or> vb_data mem_buffer = None then Inr (Feed_ended, g1)
            else
              rbind (memcpy_bytes (vb_data mem_buffer) (unat (of_nat (vb_size mem_buffer) :: 32 word))) (\<lambda>bytes.
              rbind (read_session info g1) (\<lambda>si.
              let ok = fe_playing fe \<and> fe_push fe;
                  g2 = (if ok then
                          g1\<lparr>cl_pushed := cl_pushed g1 @ [(word_of_int frame_duration * si_cnt si, bytes)],
                             cl_sessions := (cl_sessions g1)(info \<mapsto> si\<lparr>si_cnt := si_cnt si + 1\<rparr>)\<rparr>
                        else g1) in
              rbind (delete_buf a q) (\<lambda>q2. Inr (Feed_running, g2\<lparr>cl_queue := q2\<rparr>))))))))"

fun feed_rounds :: "feed_env list \<Rightarrow> addr \<Rightarrow> string \<Rightarrow> clients \<Rightarrow> (feed_status \<times> clients) res" where
  "feed_rounds [] info sess g = Inr (Feed_running, g)"
| "feed_rounds (fe # fes) info sess g =
     rbind (feed_round fe info sess g) (\<lambda>(st, g1).
       if st = Feed_running then feed_rounds fes info sess g1 else Inr (st, g1))"

text \<open>
  The thread of one \<open>need-data\<close> signal: the smart pointer it builds deletes the session at its end.
\<close>

definition gst_need_data :: "feed_env list \<Rightarrow> addr option \<Rightarrow> clients \<Rightarrow> (feed_status \<times> clients) res" where
  "gst_need_data fes user_data g =
     (case user_data of
        None \<Rightarrow> Inr (Feed_ended, g)
      | Some info \<Rightarrow>
          rbind (read_session info g) (\<lambda>si.
          rbind (feed_rounds fes info (si_id si) g) (\<lambda>(st, g1).
          if st = Feed_ended then rbind (delete_session info g1) (\<lambda>g2. Inr (st, g2)) else Inr (st, g1))))"

definition enough_data :: "clients \<Rightarrow> clients" where
  "enough_data g = g"

definition client_connected :: "clients \<Rightarrow> clients" where
  "client_connected g = g"

definition media_unprepared :: "addr option \<Rightarrow> clients \<Rightarrow> clients res" where
  "media_unprepared user_data g =
     (case user_data of
        None \<Rightarrow> Inr g
      | Some info \<Rightarrow>
          rbind (read_session info g) (\<lambda>si.
          rbind (remove_event (si_id si) (cl_queue g)) (\<lambda>(_, q).
          rbind (delete_thread_info (si_info si) (g\<lparr>cl_queue := q\<rparr>)) (\<lambda>g1.
          delete_session info g1))))"

end
