(* ===== verification/Streamer_Props.thy ===== *)
theory Streamer_Props
  imports Streamer Video_Queue_Props
begin

text \<open>
  Properties of \<open>VideoStreamerGST\<close>: what a client's feeding thread sends, how long the objects its
  callbacks share live, and what its subscription does to the frame queue.
\<close>

subsection \<open>Feeding a client\<close>

definition feed_ok :: "feed_env \<Rightarrow> bool" where
  "feed_ok fe \<longleftrightarrow> fe_is_app_src fe \<and> fe_alloc fe \<and> fe_map fe \<and> fe_playing fe \<and> fe_push fe"

text \<open>Frames a \<open>guint\<close> can size and that have data.\<close>

definition feedable :: "vbuf \<Rightarrow> bool" where
  "feedable b \<longleftrightarrow> vb_data b \<noteq> None \<and> vb_size b < 2 ^ 32"

fun feed_pushes :: "64 word \<Rightarrow> vbuf list \<Rightarrow> (64 word \<times> 8 word list) list" where
  "feed_pushes n [] = []"
| "feed_pushes n (b # bs) =
     (word_of_int frame_duration * n, take (vb_size b) (the (vb_data b))) # feed_pushes (n + 1) bs"

lemma feed_round_frame:
  assumes inv: "vq_inv H (cl_queue g)" and sub: "abs_subs (cl_queue g) sess = Some i" "ti_is_run i"
    and queue: "abs_queue (cl_queue g) sess = Some (b # bs)" and si: "cl_sessions g info = Some si"
    and fe: "feed_ok fe" and b: "feedable b"
  shows "\<exists>q2. feed_round fe info sess g = Inr (Feed_running, g\<lparr>cl_queue := q2,
      cl_pushed := cl_pushed g @ feed_pushes (si_cnt si) [b],
      cl_sessions := (cl_sessions g)(info \<mapsto> si\<lparr>si_cnt := si_cnt si + 1\<rparr>)\<rparr>) \<and>
    vq_inv H q2 \<and> abs_queue q2 = (abs_queue (cl_queue g))(sess \<mapsto> bs) \<and> abs_subs q2 = abs_subs (cl_queue g)"
proof -
  from take_read_free [OF inv sub queue] obtain a q1 q2 where pop: "pop sess (cl_queue g) = Inr (Some (Some a, q1))"
    and read: "read_buf a q1 = Inr b" and ok: "frame_ok b" and del: "delete_buf a q1 = Inr q2"
    and q2: "vq_inv H q2" "abs_queue q2 = (abs_queue (cl_queue g))(sess \<mapsto> bs)" "abs_subs q2 = abs_subs (cl_queue g)"
    by blast
  from b obtain bytes where data: "vb_data b = Some bytes" by (auto simp: feedable_def)
  have "unat (of_nat (vb_size b) :: 32 word) = vb_size b"
    using b by (simp add: feedable_def unsigned_of_nat take_bit_nat_eq_self)
  then have cp: "memcpy_bytes (vb_data b) (unat (of_nat (vb_size b) :: 32 word)) = Inr (take (vb_size b) bytes)"
    using ok data by (auto simp: memcpy_bytes_def frame_ok_def)
  have "feed_round fe info sess g = Inr (Feed_running, g\<lparr>cl_queue := q2,
      cl_pushed := cl_pushed g @ feed_pushes (si_cnt si) [b],
      cl_sessions := (cl_sessions g)(info \<mapsto> si\<lparr>si_cnt := si_cnt si + 1\<rparr>)\<rparr>)"
    using fe pop read cp del si data by (simp add: feed_round_def feed_ok_def read_session_def Let_def)
  with q2 show ?thesis by blast
qed

text \<open>
  C37: The thread of a client sends the frames waiting for it, in order: after one round per frame it waits
  for the next one, every frame has been pushed once with its own bytes and the timestamp of its number
  in the session (33333333 ns apart), and freed; the session's counter has advanced by their number; no
  other queue and no subscription has changed.
\<close>
theorem feed_sends_queue:
  assumes "vq_inv H (cl_queue g)" and "abs_subs (cl_queue g) sess = Some i" and "ti_is_run i"
    and "abs_queue (cl_queue g) sess = Some bs" and "cl_sessions g info = Some si"
    and "\<forall>fe \<in> set fes. feed_ok fe" and "length fes = Suc (length bs)" and "\<forall>b \<in> set bs. feedable b"
  shows "\<exists>g'. feed_rounds fes info sess g = Inr (Feed_blocked, g') \<and> vq_inv H (cl_queue g') \<and>
    cl_pushed g' = cl_pushed g @ feed_pushes (si_cnt si) bs \<and>
    cl_sessions g' = (cl_sessions g)(info \<mapsto> si\<lparr>si_cnt := si_cnt si + of_nat (length bs)\<rparr>) \<and>
    abs_queue (cl_queue g') = (abs_queue (cl_queue g))(sess \<mapsto> []) \<and>
    abs_subs (cl_queue g') = abs_subs (cl_queue g)"
  using assms
proof (induction bs arbitrary: g si fes)
  case Nil
  from Nil.prems(7) obtain fe where fes: "fes = [fe]" by (cases fes) auto
  from Nil.prems(2) obtain ti where ti: "um_find (q_thread_info (cl_queue g)) sess = Some ti"
    "q_infos (cl_queue g) ti = Some i" by (auto simp: abs_subs_def split: option.splits)
  from pop_cases [OF Nil.prems(1) ti] Nil.prems(3,4) have "pop sess (cl_queue g) = Inr None"
    by (auto simp: abs_queue_def)
  moreover have "feed_ok fe" using Nil.prems(6) fes by simp
  ultimately show ?case using Nil.prems(1,4,5) fes by (simp add: feed_round_def feed_ok_def fun_upd_idem)
next
  case (Cons b bs)
  from Cons.prems(7) obtain fe rest where fes: "fes = fe # rest" by (cases fes) auto
  from feed_round_frame [OF Cons.prems(1-5), of fe] Cons.prems(6,8) fes obtain q2 where
    r: "feed_round fe info sess g = Inr (Feed_running, g\<lparr>cl_queue := q2,
      cl_pushed := cl_pushed g @ feed_pushes (si_cnt si) [b],
      cl_sessions := (cl_sessions g)(info \<mapsto> si\<lparr>si_cnt := si_cnt si + 1\<rparr>)\<rparr>)" (is "_ = Inr (_, ?g1)")
    and q2: "vq_inv H q2" "abs_queue q2 = (abs_queue (cl_queue g))(sess \<mapsto> bs)" "abs_subs q2 = abs_subs (cl_queue g)"
    by auto
  have "\<exists>g'. feed_rounds rest info sess ?g1 = Inr (Feed_blocked, g') \<and> vq_inv H (cl_queue g') \<and>
    cl_pushed g' = cl_pushed ?g1 @ feed_pushes (si_cnt (si\<lparr>si_cnt := si_cnt si + 1\<rparr>)) bs \<and>
    cl_sessions g' = (cl_sessions ?g1)(info \<mapsto> si\<lparr>si_cnt := si_cnt si + 1,
      si_cnt := si_cnt (si\<lparr>si_cnt := si_cnt si + 1\<rparr>) + of_nat (length bs)\<rparr>) \<and>
    abs_queue (cl_queue g') = (abs_queue (cl_queue ?g1))(sess \<mapsto> []) \<and>
    abs_subs (cl_queue g') = abs_subs (cl_queue ?g1)"
    by (rule Cons.IH) (use q2 Cons.prems fes in simp_all)
  then obtain g' where "feed_rounds rest info sess ?g1 = Inr (Feed_blocked, g')" "vq_inv H (cl_queue g')"
    "cl_pushed g' = cl_pushed ?g1 @ feed_pushes (si_cnt si + 1) bs"
    "cl_sessions g' = (cl_sessions ?g1)(info \<mapsto> si\<lparr>si_cnt := si_cnt si + 1 + of_nat (length bs)\<rparr>)"
    "abs_queue (cl_queue g') = (abs_queue (cl_queue ?g1))(sess \<mapsto> [])"
    "abs_subs (cl_queue g') = abs_subs (cl_queue ?g1)" by auto
  with r fes q2 show ?case by (simp add: ac_simps) (auto simp: fun_upd_def)
qed

text \<open>A client whose event has one frame waiting.\<close>

definition demo_clients :: clients where
  "demo_clients =
     \<lparr>cl_sessions = [7 \<mapsto> \<lparr>si_id = ''e'', si_cnt = 3, si_info = 0\<rparr>], cl_next = 8, cl_queue = demo_waiting,
      cl_pushed = []\<rparr>"

definition demo_feed :: feed_env where
  "demo_feed = \<lparr>fe_is_app_src = True, fe_alloc = True, fe_map = True, fe_playing = True, fe_push = True\<rparr>"

theorem feed_sends_queue_witness:
  "\<exists>g. feed_rounds [demo_feed, demo_feed] 7 ''e'' demo_clients = Inr (Feed_blocked, g) \<and>
     cl_pushed g = [(99999999, [7, 8])]"
proof -
  have q: "cl_queue demo_clients = demo_waiting" by (simp add: demo_clients_def)
  have "abs_subs demo_waiting ''e'' = Some (demo_info 2)" "ti_is_run (demo_info 2)"
    "abs_queue demo_waiting ''e'' = Some [demo_frame]"
    by (simp_all add: demo_waiting_def demo_queue_def abs_subs_def abs_queue_def um_find_def buf_at_def demo_info_def)
  moreover have "cl_sessions demo_clients 7 = Some \<lparr>si_id = ''e'', si_cnt = 3, si_info = 0\<rparr>" "cl_pushed demo_clients = []"
    "\<forall>fe \<in> set [demo_feed, demo_feed]. feed_ok fe" "length [demo_feed, demo_feed] = Suc (length [demo_frame])"
    "\<forall>b \<in> set [demo_frame]. feedable b"
    by (simp_all add: demo_clients_def demo_feed_def feed_ok_def feedable_def demo_frame_def)
  moreover have "feed_pushes 3 [demo_frame] = [(99999999, [7, 8])]"
    by (simp add: demo_frame_def frame_duration_def)
  ultimately show ?thesis
    using feed_sends_queue [of "{}" demo_clients "''e''" "demo_info 2" "[demo_frame]" 7 "\<lparr>si_id = ''e'', si_cnt = 3, si_info = 0\<rparr>"
        "[demo_feed, demo_feed]"] demo_waiting_inv q
    by auto
qed

subsection \<open>The objects the callbacks share\<close>

text \<open>
  C38: The objects of a client do not outlive its first feeding thread, but their users do.  When the thread
  of a \<open>need-data\<close> signal ends, it deletes the session; a later \<open>need-data\<close> or the \<open>unprepared\<close> signal of
  the media, which were connected with the same address, read freed memory.
\<close>
theorem client_session_lifetime:
  assumes fed: "gst_need_data fes (Some info) g = Inr (Feed_ended, g1)"
  shows "gst_need_data fes2 (Some info) g1 = Inl UseAfterFree \<and> media_unprepared (Some info) g1 = Inl UseAfterFree"
proof -
  from fed obtain g0 where "delete_session info g0 = Inr g1"
    by (auto simp: gst_need_data_def rbind_eq_Inr split: if_splits)
  then have "cl_sessions g1 info = None" by (auto simp: delete_session_def split: option.splits)
  then show ?thesis by (simp add: gst_need_data_def media_unprepared_def read_session_def)
qed

theorem client_session_lifetime_witness:
  "\<exists>g. gst_need_data [demo_feed\<lparr>fe_is_app_src := False\<rparr>] (Some 7) demo_clients = Inr (Feed_ended, g) \<and>
     media_unprepared (Some 7) g = Inl UseAfterFree"
proof -
  have "\<exists>g. gst_need_data [demo_feed\<lparr>fe_is_app_src := False\<rparr>] (Some 7) demo_clients = Inr (Feed_ended, g)"
    by (simp add: gst_need_data_def demo_clients_def read_session_def feed_round_def delete_session_def)
  then obtain g where g: "gst_need_data [demo_feed\<lparr>fe_is_app_src := False\<rparr>] (Some 7) demo_clients = Inr (Feed_ended, g)"
    by blast
  from client_session_lifetime [OF this, of "[]"] g show ?thesis by blast
qed

subsection \<open>The subscription of a client\<close>

text \<open>
  A client of the RTSP server subscribes with 60 frames per second.  The subscription succeeds and
  keeps the queue in order; on a camera of fewer frames per second the next round of the distributor that finds a frame divides by zero, for all subscribers.
\<close>
theorem client_rate:
  assumes inv: "vq_inv H (cl_queue g)" and new: "um_find (q_thread_info (cl_queue g)) uuid = None"
  shows "(\<exists>s sigs g'. on_media_configure me uuid g = Inr (s, sigs, g') \<and> vq_inv H (cl_queue g')) \<and>
    (0 \<le> q_device_fps (cl_queue g) \<and> q_device_fps (cl_queue g) < 60 \<and> q_enable (cl_queue g) \<and> q_input (cl_queue g) \<noteq> [] \<longrightarrow>
      (\<exists>s sigs g'. on_media_configure me uuid g = Inr (s, sigs, g') \<and>
        distribute_round t (cl_queue g') = Inl DivByZero))"
proof -
  let ?i = "\<lparr>ti_is_run = True, ti_fps = 60\<rparr>"
  obtain ti q1 where ni: "new_info ?i (cl_queue g) = (ti, q1)" by fastforce
  note n = new_info_inv [OF inv ni]
  have conf: "\<exists>s sigs g'. on_media_configure me uuid g = Inr (s, sigs, g') \<and> cl_queue g' = q2"
    if "insert_event uuid (Some ti) q1 = Inr (r, q2)" for r q2
    using that ni by (simp add: on_media_configure_def Let_def)
  show ?thesis
  proof (intro conjI impI)
    have "divides_rate uuid (ti_fps ?i) (cl_queue g)" using rate_divides [of 60] vq_invD(1) [OF inv] by simp
    from insert_event_returns [OF inv ni this] obtain r q2 where
      "insert_event uuid (Some ti) q1 = Inr (r, q2)" "vq_inv H q2" by blast
    with conf show "\<exists>s sigs g'. on_media_configure me uuid g = Inr (s, sigs, g') \<and> vq_inv H (cl_queue g')" by blast
  next
    assume slow: "0 \<le> q_device_fps (cl_queue g) \<and> q_device_fps (cl_queue g) < 60 \<and> q_enable (cl_queue g) \<and> q_input (cl_queue g) \<noteq> []"
    have q1: "q_enable q1" "q_input q1 \<noteq> []" "um_find (q_thread_info q1) uuid = None" "0 \<le> q_device_fps q1"
        "in_int32 (q_device_fps q1 + 1)" "q_device_fps q1 < ti_fps ?i"
      using ni slow new by (auto simp: new_info_def in_int32_def)
    from fast_subscription [OF n(1) q1(1,2,3) n(3,2) q1(4,5,6), of t] obtain q2 where
      "insert_event uuid (Some ti) q1 = Inr (0, q2)" "distribute_round t q2 = Inl DivByZero" by blast
    with conf show "\<exists>s sigs g'. on_media_configure me uuid g = Inr (s, sigs, g') \<and>
        distribute_round t (cl_queue g') = Inl DivByZero" by blast
  qed
qed

theorem client_rate_witness:
  "\<exists>s sigs g. on_media_configure \<lparr>me_appsrc = True, me_muxsink = True\<rparr> ''u'' demo_clients = Inr (s, sigs, g) \<and>
     distribute_round 0 (cl_queue g) = Inl DivByZero"
proof -
  have q: "cl_queue demo_clients = demo_waiting" by (simp add: demo_clients_def)
  have "um_find (q_thread_info demo_waiting) ''u'' = None" "0 \<le> q_device_fps demo_waiting" "q_device_fps demo_waiting < 60" "q_enable demo_waiting"
    "q_input demo_waiting \<noteq> []"
    by (simp_all add: demo_waiting_def demo_queue_def um_find_def)
  with client_rate [of "{}" demo_clients "''u''" "\<lparr>me_appsrc = True, me_muxsink = True\<rparr>" 0] demo_waiting_inv q
  show ?thesis by simp
qed

end
