(* ===== verification/Rtsp_Session.thy ===== *)
theory Rtsp_Session
  imports Rtsp_Live
begin

text \<open>
  The RTSP sessions (\<open>src/rtsp/session/\<close>, \<open>src/rtsp/server/RTSPListener.cpp\<close>): one session per
  connection reads requests, passes them to its handler and writes the responses.

  The abstract class \<open>RTSPSessionHandler\<close> is a record of operations, its two implementations are
  instances of it, and a handler pointer is a sum dispatched on.  The connection and the message
  library are parameters (\<open>rtsp_conn\<close>, the events of a session).  A session object is \<open>None\<close> once it
  has been deleted.
\<close>

subsection \<open>The handler interface\<close>

record 'h handler_ops =
  ho_option :: "'h \<times> rtsp_world \<Rightarrow> 'h reply"
  ho_describe :: "string \<Rightarrow> 'h \<times> rtsp_world \<Rightarrow> 'h reply"
  ho_setup :: "string \<Rightarrow> string \<Rightarrow> string \<Rightarrow> 'h \<times> rtsp_world \<Rightarrow> 'h reply"
  ho_play :: "string \<Rightarrow> 'h \<times> rtsp_world \<Rightarrow> 'h reply"
  ho_pause :: "string \<Rightarrow> 'h \<times> rtsp_world \<Rightarrow> 'h reply"
  ho_teardown :: "'h \<times> rtsp_world \<Rightarrow> 'h reply"
  ho_destroy :: "'h \<times> rtsp_world \<Rightarrow> (int \<times> rtsp_world) res"

definition file_ops :: "rtsp_env \<Rightarrow> gst_file handler_ops" where
  "file_ops env =
     \<lparr>ho_option = file_option_request, ho_describe = file_describe_request env,
      ho_setup = file_setup_request env, ho_play = file_play_request env,
      ho_pause = file_pause_request env, ho_teardown = file_teardown_request env,
      ho_destroy = gst_file_destroy\<rparr>"

definition live_ops :: "rtsp_env \<Rightarrow> 'p video_config option \<Rightarrow> stream_step list \<Rightarrow> gst_live handler_ops" where
  "live_ops env cfg steps =
     \<lparr>ho_option = live_option_request, ho_describe = live_describe_request env cfg steps,
      ho_setup = live_setup_request, ho_play = live_play_request, ho_pause = live_pause_request,
      ho_teardown = live_teardown_request, ho_destroy = gst_live_destroy\<rparr>"

text \<open>A virtual call.\<close>

definition reply_map :: "('h \<Rightarrow> 'k) \<Rightarrow> 'h reply \<Rightarrow> 'k reply" where
  "reply_map f r = sbind r (\<lambda>(ret, s, h, w). Inr (Some (ret, s, f h, w)))"

definition dispatch ::
  "('f \<times> rtsp_world \<Rightarrow> 'f reply) \<Rightarrow> ('l \<times> rtsp_world \<Rightarrow> 'l reply) \<Rightarrow> ('f + 'l) \<times> rtsp_world \<Rightarrow> ('f + 'l) reply" where
  "dispatch f l hw =
     (case fst hw of Inl h \<Rightarrow> reply_map Inl (f (h, snd hw)) | Inr h \<Rightarrow> reply_map Inr (l (h, snd hw)))"

definition virtual_ops :: "'f handler_ops \<Rightarrow> 'l handler_ops \<Rightarrow> ('f + 'l) handler_ops" where
  "virtual_ops f l =
     \<lparr>ho_option = dispatch (ho_option f) (ho_option l),
      ho_describe = (\<lambda>p. dispatch (ho_describe f p) (ho_describe l p)),
      ho_setup = (\<lambda>p a c. dispatch (ho_setup f p a c) (ho_setup l p a c)),
      ho_play = (\<lambda>t. dispatch (ho_play f t) (ho_play l t)),
      ho_pause = (\<lambda>t. dispatch (ho_pause f t) (ho_pause l t)),
      ho_teardown = dispatch (ho_teardown f) (ho_teardown l),
      ho_destroy = (\<lambda>(h, w). case h of Inl h \<Rightarrow> ho_destroy f (h, w) | Inr h \<Rightarrow> ho_destroy l (h, w))\<rparr>"

subsection \<open>Messages\<close>

datatype rtsp_verb =
    Verb_options | Verb_describe | Verb_setup | Verb_play | Verb_pause | Verb_teardown | Verb_other

record rtsp_request =
  rr_verb :: rtsp_verb
  rr_target :: string
  rr_field :: "string \<Rightarrow> string"

datatype rtsp_status = Status_ok | Status_internal_server_error

record rtsp_response =
  rp_status :: "rtsp_status option"
  rp_keep_alive :: bool
  rp_fields :: "(string \<times> string) list"
  rp_body :: string

definition set_field :: "string \<Rightarrow> string \<Rightarrow> rtsp_response \<Rightarrow> rtsp_response" where
  "set_field k v res = res\<lparr>rp_fields := um_erase k (rp_fields res) @ [(k, v)]\<rparr>"

definition field_of :: "rtsp_response \<Rightarrow> string \<Rightarrow> string" where
  "field_of res k = (case um_find (rp_fields res) k of None \<Rightarrow> '''' | Some v \<Rightarrow> v)"

lemma field_of_set: "field_of (set_field k v res) j = (if j = k then v else field_of res j)"
  by (simp add: field_of_def set_field_def um_find_append um_find_erase um_find_Cons split: option.split)

lemma set_field_simps [simp]:
  "rp_status (set_field k v res) = rp_status res" "rp_keep_alive (set_field k v res) = rp_keep_alive res"
  "rp_body (set_field k v res) = rp_body res"
  by (simp_all add: set_field_def)

record rtsp_conn =
  cn_open :: bool
  cn_linger_ok :: bool
  cn_remote :: "string option"
  cn_prepare_payload :: "rtsp_response \<Rightarrow> rtsp_response"
  cn_write_ok :: "rtsp_response \<Rightarrow> bool"
  cn_shutdown_ok :: bool

subsection \<open>The session\<close>

record 'h rtsp_session =
  se_uuid :: string
  se_url_path :: string
  se_file_path :: string
  se_handler :: "'h option"

record 'h sess_state =
  ss_session :: "'h rtsp_session option"
  ss_path :: "(string, string) umap"
  ss_world :: rtsp_world
  ss_sent :: "rtsp_response list"

definition new_session :: "string \<Rightarrow> 'h rtsp_session" where
  "new_session uuid = \<lparr>se_uuid = uuid, se_url_path = '''', se_file_path = '''', se_handler = None\<rparr>"

text \<open>The constructor sets the linger option, which throws when it fails.\<close>

definition build_session ::
  "rtsp_conn \<Rightarrow> string \<Rightarrow> (string, string) umap \<Rightarrow> rtsp_world \<Rightarrow> 'h sess_state res" where
  "build_session conn uuid path w =
     (if cn_linger_ok conn
      then Inr \<lparr>ss_session = Some (new_session uuid), ss_path = path, ss_world = w, ss_sent = []\<rparr>
      else Inl (Uncaught System_error))"

definition destroy_session :: "'h handler_ops \<Rightarrow> 'h sess_state \<Rightarrow> 'h sess_state res" where
  "destroy_session ops st =
     (case ss_session st of
        None \<Rightarrow> Inl DoubleFree
      | Some se \<Rightarrow>
         (case se_handler se of
            None \<Rightarrow> Inr (st\<lparr>ss_session := None\<rparr>)
          | Some h \<Rightarrow> rbind (ho_destroy ops (h, ss_world st)) (\<lambda>(_, w).
              Inr (st\<lparr>ss_session := None, ss_world := w\<rparr>))))"

definition session_of :: "'h sess_state \<Rightarrow> 'h rtsp_session res" where
  "session_of st = (case ss_session st of None \<Rightarrow> Inl UseAfterFree | Some se \<Rightarrow> Inr se)"

definition write_rtsp :: "rtsp_conn \<Rightarrow> rtsp_response \<Rightarrow> 'h sess_state \<Rightarrow> int \<times> 'h sess_state" where
  "write_rtsp conn res st =
     (if rp_keep_alive res then 0 else 1,
      if cn_write_ok conn res then st\<lparr>ss_sent := ss_sent st @ [res]\<rparr> else st)"

text \<open>The path in a request's target: from the first slash after the authority.\<close>

definition url_path_of :: "string \<Rightarrow> string exn" where
  "url_path_of target =
     (let i = str_find target ''//'' 0;
          idx = str_find target ''/'' (i + 2) in
      str_substr target idx (of_nat (length target) - idx))"

text \<open>The first request of a session chooses its handler; looking an unknown path up enters it.\<close>

definition open_session ::
  "(bool \<Rightarrow> rtsp_world \<Rightarrow> 'h \<times> rtsp_world) \<Rightarrow> rtsp_request \<Rightarrow> 'h sess_state \<Rightarrow> 'h sess_state res" where
  "open_session make_handler req st =
     rbind (session_of st) (\<lambda>se.
     if se_url_path se = '''' \<and> se_file_path se = '''' then
       rbind (throw_uncaught (url_path_of (rr_target req))) (\<lambda>url.
       let (file, path) = um_index url '''' (ss_path st);
           (h, w) = make_handler (str_contains file ''/dev'') (ss_world st) in
       Inr (st\<lparr>ss_session := Some (se\<lparr>se_url_path := url, se_file_path := file, se_handler := Some h\<rparr>),
               ss_path := path, ss_world := w\<rparr>))
     else Inr st)"

definition base_response :: "rtsp_request \<Rightarrow> rtsp_response" where
  "base_response req =
     set_field ''Server'' ''Hydar RTSP Serer'' (set_field ''CSeq'' (rr_field req ''CSeq'')
       \<lparr>rp_status = None, rp_keep_alive = True, rp_fields = [], rp_body = ''''\<rparr>)"

text \<open>A body is added with its type; the library puts its length under the wrong name.\<close>

definition body_response ::
  "rtsp_conn \<Rightarrow> rtsp_request \<Rightarrow> rtsp_status \<Rightarrow> string \<Rightarrow> string \<Rightarrow> rtsp_response \<Rightarrow> rtsp_response" where
  "body_response conn req status type body res =
     (let res1 = cn_prepare_payload conn
                   ((set_field ''Content-Type'' type (res\<lparr>rp_status := Some status\<rparr>))\<lparr>rp_body := body\<rparr>);
          res2 = set_field ''Content-Length'' (field_of res1 ''Content-Location'') res1
      in set_field ''Content-Location'' (rr_target req) res2)"

definition describe_response ::
  "rtsp_conn \<Rightarrow> rtsp_request \<Rightarrow> int \<Rightarrow> string \<Rightarrow> rtsp_response \<Rightarrow> rtsp_response" where
  "describe_response conn req ret sdp res =
     (if ret = 0 then body_response conn req Status_ok ''application/sdp'' sdp res
      else if ret = 1 then
        body_response conn req Status_internal_server_error ''text/plain'' ''SDP Generate Error'' res
      else if ret = 2 then body_response conn req Status_ok ''application/sdp'' sdp res
      else res)"

text \<open>A call on the handler of the session.\<close>

definition call_handler ::
  "('h \<times> rtsp_world \<Rightarrow> 'h reply) \<Rightarrow> 'h sess_state \<Rightarrow> (int \<times> string \<times> 'h sess_state) option res" where
  "call_handler f st =
     rbind (session_of st) (\<lambda>se.
     rbind (deref (se_handler se)) (\<lambda>h.
     sbind (f (h, ss_world st)) (\<lambda>(ret, s, h1, w1).
     Inr (Some (ret, s, st\<lparr>ss_session := Some (se\<lparr>se_handler := Some h1\<rparr>), ss_world := w1\<rparr>)))))"

definition client_ports_of :: "string \<Rightarrow> string exn" where
  "client_ports_of transport =
     (let pos = str_find transport ''client_port='' 0 + 12
      in str_substr transport pos (of_nat (length transport) - pos))"

definition remote_address :: "rtsp_conn \<Rightarrow> string exn" where
  "remote_address conn = (case cn_remote conn of None \<Rightarrow> Inl System_error | Some a \<Rightarrow> Inr a)"

text \<open>The branches of \<open>read\<close>: the response to write, if the method has one.\<close>

definition serve ::
  "'h handler_ops \<Rightarrow> rtsp_conn \<Rightarrow> rtsp_request \<Rightarrow> 'h rtsp_session \<Rightarrow> 'h sess_state \<Rightarrow>
     (rtsp_response option \<times> 'h sess_state) option res" where
  "serve ops conn req se st =
     (if rr_verb req = Verb_other then Inr (Some (None, st))
      else
        rbind (throw_uncaught (remote_address conn)) (\<lambda>client_address.
        let res = base_response req; ok = res\<lparr>rp_status := Some Status_ok\<rparr>; range = rr_field req ''Range'';
            transport_field = rr_field req ''Transport'' in
        case rr_verb req of
          Verb_options \<Rightarrow>
            sbind (call_handler (ho_option ops) st) (\<lambda>(ret, methods, st1).
            Inr (Some (Some (set_field ''Public'' methods ok), st1)))
        | Verb_describe \<Rightarrow>
            sbind (call_handler (ho_describe ops (se_file_path se)) st) (\<lambda>(ret, sdp, st1).
            Inr (Some (Some (describe_response conn req ret sdp res), st1)))
        | Verb_setup \<Rightarrow>
            rbind (throw_uncaught (client_ports_of transport_field)) (\<lambda>client_ports.
            sbind (call_handler (ho_setup ops (se_file_path se) client_address client_ports) st)
              (\<lambda>(ret, transport, st1).
            Inr (Some (Some (set_field ''Session'' (se_uuid se) (set_field ''Transport'' transport ok)), st1))))
        | Verb_play \<Rightarrow>
            sbind (call_handler (ho_play ops range) st) (\<lambda>(ret, info, st1).
            Inr (Some (Some (set_field ''Range'' range (set_field ''Session'' (se_uuid se)
              (set_field ''RTP-Info'' (''url='' @ rr_target req @ '';'' @ info) ok))), st1)))
        | Verb_pause \<Rightarrow>
            sbind (call_handler (ho_pause ops range) st) (\<lambda>(ret, _, st1).
            Inr (Some (Some (set_field ''Range'' range (set_field ''Session'' (se_uuid se) ok)), st1)))
        | Verb_teardown \<Rightarrow>
            sbind (call_handler (ho_teardown ops) st) (\<lambda>(ret, _, st1).
            Inr (Some (Some ((set_field ''Session'' (se_uuid se) ok)\<lparr>rp_keep_alive := False\<rparr>), st1)))))"

text \<open>
  Every branch of \<open>read\<close> declares a \<open>ret\<close> of its own, so the one it returns is never written: its
  indeterminate value is the parameter \<open>ret\<close>.
\<close>

definition read ::
  "'h handler_ops \<Rightarrow> (bool \<Rightarrow> rtsp_world \<Rightarrow> 'h \<times> rtsp_world) \<Rightarrow> rtsp_conn \<Rightarrow> int \<Rightarrow> rtsp_request \<Rightarrow>
     'h sess_state \<Rightarrow> (int \<times> 'h sess_state) option res" where
  "read ops make_handler conn ret req st =
     rbind (open_session make_handler req st) (\<lambda>st1.
     rbind (session_of st1) (\<lambda>se.
     sbind (serve ops conn req se st1) (\<lambda>(response, st2).
     Inr (Some (ret, case response of None \<Rightarrow> st2 | Some res \<Rightarrow> snd (write_rtsp conn res st2))))))"

text \<open>
  What reading from the connection gives: a request, with the value \<open>ret\<close> happens to have, or an
  error.  \<open>run\<close> on no event waits for ever.
\<close>

datatype read_event = Request int rtsp_request | End_of_stream | Operation_aborted | Socket_error

fun run ::
  "'h handler_ops \<Rightarrow> (bool \<Rightarrow> rtsp_world \<Rightarrow> 'h \<times> rtsp_world) \<Rightarrow> rtsp_conn \<Rightarrow> read_event list \<Rightarrow>
     'h sess_state \<Rightarrow> 'h sess_state option res" where
  "run ops make_handler conn events st =
     (if \<not> cn_open conn then rbind (destroy_session ops st) (\<lambda>st1. Inr (Some st1))
      else case events of
        [] \<Rightarrow> Inr None
      | End_of_stream # _ \<Rightarrow> Inr (Some st)
      | Operation_aborted # _ \<Rightarrow> if cn_shutdown_ok conn then Inr (Some st) else Inl (Uncaught System_error)
      | Socket_error # _ \<Rightarrow> if cn_shutdown_ok conn then Inr (Some st) else Inl (Uncaught System_error)
      | Request junk req # rest \<Rightarrow>
          sbind (read ops make_handler conn junk req st) (\<lambda>(ret, st1).
            if ret = 0 then run ops make_handler conn rest st1 else Inr (Some st1)))"

declare run.simps [simp del]

lemma run_closed:
  "\<not> cn_open conn \<Longrightarrow> run ops mk conn es st = rbind (destroy_session ops st) (\<lambda>st1. Inr (Some st1))"
  by (simp add: run.simps)

lemma run_open:
  assumes "cn_open conn"
  shows "run ops mk conn [] st = Inr None"
    and "run ops mk conn (Request junk req # es) st =
      sbind (read ops mk conn junk req st) (\<lambda>(ret, st1). if ret = 0 then run ops mk conn es st1 else Inr (Some st1))"
    and "run ops mk conn (End_of_stream # es) st = Inr (Some st)"
    and "run ops mk conn (Operation_aborted # es) st =
      (if cn_shutdown_ok conn then Inr (Some st) else Inl (Uncaught System_error))"
    and "run ops mk conn (Socket_error # es) st =
      (if cn_shutdown_ok conn then Inr (Some st) else Inl (Uncaught System_error))"
  using assms by (subst run.simps, simp)+

subsection \<open>The listener\<close>

record acceptor_env =
  ac_open :: bool
  ac_reuse :: bool
  ac_bind :: bool
  ac_listen :: bool

record rtsp_listener =
  li_path :: "(string, string) umap"
  li_listening :: bool

text \<open>Every error of the constructor is only logged.\<close>

definition rtsp_listener_ctor :: "acceptor_env \<Rightarrow> (string, string) umap \<Rightarrow> rtsp_listener" where
  "rtsp_listener_ctor ac path = \<lparr>li_path = path, li_listening = ac_open ac \<and> ac_listen ac\<rparr>"

definition handle_session ::
  "'h handler_ops \<Rightarrow> (bool \<Rightarrow> rtsp_world \<Rightarrow> 'h \<times> rtsp_world) \<Rightarrow> rtsp_conn \<Rightarrow> string \<Rightarrow> read_event list \<Rightarrow>
     (string, string) umap \<times> rtsp_world \<Rightarrow> 'h sess_state option res" where
  "handle_session ops make_handler conn sess_id events pw =
     rbind (build_session conn sess_id (fst pw) (snd pw)) (\<lambda>st.
     sbind (run ops make_handler conn events st) (\<lambda>st1.
     rbind (destroy_session ops st1) (\<lambda>st2. Inr (Some st2))))"

text \<open>
  \<open>do_accept\<close>: an accept that fails is logged, one that succeeds starts a session's thread; either
  way the next one is requested.  The result is the connections whose threads start.
\<close>

fun do_accept :: "'c option list \<Rightarrow> 'c list" where
  "do_accept [] = []"
| "do_accept (None # rest) = do_accept rest"
| "do_accept (Some socket # rest) = socket # do_accept rest"

text \<open>The handlers of the program.\<close>

definition make_rtsp_handler :: "bool \<Rightarrow> rtsp_world \<Rightarrow> (gst_file + gst_live) \<times> rtsp_world" where
  "make_rtsp_handler live w =
     (if live then (let (h, w1) = gst_live_ctor w in (Inr h, w1)) else (Inl gst_file_ctor, w))"

definition rtsp_ops ::
  "rtsp_env \<Rightarrow> 'p video_config option \<Rightarrow> stream_step list \<Rightarrow> (gst_file + gst_live) handler_ops" where
  "rtsp_ops env cfg steps = virtual_ops (file_ops env) (live_ops env cfg steps)"

end
