(* ===== verification/Main_Program.thy ===== *)
theory Main_Program
  imports Event Http_Init Rtsp_Session
begin

text \<open>
  \<open>video::VideoInitializer\<close> (\<open>src/video/VideoInitializer.cpp\<close>) and \<open>main\<close> (\<open>src/main.cpp\<close>): the order in
  which the program's parts are built and started.

  \<open>start\<close> serves RTSP from inside \<open>io_context::run\<close>, which has work for as long as the program runs:
  reaching it is the result \<open>Serving\<close>.
\<close>

subsection \<open>VideoInitializer\<close>

datatype thread_state = Joinable | Detached

record 'p video_initializer =
  vi_vid_config :: "'p video_config option"
  vi_handler :: "'p video_handler"
  vi_remove_thread :: "thread_state option"
  vi_remove_enable :: bool

definition video_initializer_ctor ::
  "'p ptree_lib \<Rightarrow> 'p video_handler \<Rightarrow> 'p program_config \<Rightarrow> ('p video_initializer \<times> 'p program_config) exn" where
  "video_initializer_ctor lib handler pc =
     (let (pc1, r) = get_video_config lib pc in
      case r of
        Inl e \<Rightarrow> Inl e
      | Inr cfg \<Rightarrow> Inr (\<lparr>vi_vid_config = cfg, vi_handler = handler, vi_remove_thread = None,
                       vi_remove_enable = False\<rparr>, pc1))"

text \<open>\<open>init\<close> only calls \<open>gst_init\<close>.\<close>

definition video_initializer_init :: "'p video_initializer \<Rightarrow> 'p video_initializer" where
  "video_initializer_init vi = vi"

text \<open>
  The thread that removes old recordings: the two settings are read once; a round at a time of the
  clock, for as long as the flag is set.  An exception of a round ends the program.
\<close>

fun remove_loop ::
  "path \<Rightarrow> int list \<Rightarrow> int \<Rightarrow> string \<Rightarrow> 'p video_handler \<times> fs \<Rightarrow> ('p video_handler \<times> fs) option res" where
  "remove_loop cwd [] maintain_time p hf = Inr (Some hf)"
| "remove_loop cwd (now # nows) maintain_time p hf =
     sbind (remove_video cwd now maintain_time p hf) (\<lambda>(_, hf1). remove_loop cwd nows maintain_time p hf1)"

definition remove_thread ::
  "path \<Rightarrow> int list \<Rightarrow> 'p video_initializer \<Rightarrow> fs \<Rightarrow> ('p video_handler \<times> fs) option res" where
  "remove_thread cwd nows vi fs =
     rbind (deref (vi_vid_config vi)) (\<lambda>c.
       remove_loop cwd (if vi_remove_enable vi then nows else []) (to_int32 (maintain c)) (save_path c)
         (vi_handler vi, fs))"

datatype start_result = Serving rtsp_listener rtsp_world | Returned int

text \<open>
  The body of the \<open>try\<close> block; an exception it throws is logged and \<open>start\<close> returns 0.
\<close>

definition live_start ::
  "rtsp_env \<Rightarrow> acceptor_env \<Rightarrow> 'p video_config option \<Rightarrow> stream_step list \<Rightarrow> rtsp_world \<Rightarrow>
     (rtsp_listener \<times> rtsp_world) option res" where
  "live_start env ac cfg steps w =
     (let (_, w1) = multicast_get_instance ''239.255.1.1'' 5004 w in
      sbind (make_sdp env cfg steps w1) (\<lambda>(_, sdp, w2).
      rbind (set_stream env cfg w2) (\<lambda>(_, w3).
      rbind (play_stream w3) (\<lambda>(_, w4).
      Inr (Some (rtsp_listener_ctor ac [(''/live'', ''/dev/video'')], w4))))))"

definition video_start ::
  "rtsp_env \<Rightarrow> acceptor_env \<Rightarrow> stream_step list \<Rightarrow> 'p video_initializer \<Rightarrow> rtsp_world \<Rightarrow>
     (start_result \<times> 'p video_initializer) option res" where
  "video_start env ac steps vi w =
     (let vi1 = vi\<lparr>vi_remove_enable := True, vi_remove_thread := Some Detached\<rparr> in
      case live_start env ac (vi_vid_config vi) steps w of
        Inl (Uncaught _) \<Rightarrow> Inr (Some (Returned 0, vi1))
      | Inl f \<Rightarrow> Inl f
      | Inr None \<Rightarrow> Inr None
      | Inr (Some (listener, w1)) \<Rightarrow> Inr (Some (Serving listener w1, vi1)))"

text \<open>\<open>join\<close> throws for a thread that is not joinable; \<open>_remove_thread\<close> is uninitialised before \<open>start\<close>.\<close>

definition video_stop :: "'p video_initializer \<Rightarrow> (int \<times> 'p video_initializer) res" where
  "video_stop vi =
     (let vi1 = vi\<lparr>vi_remove_enable := False\<rparr> in
      case vi_remove_thread vi of
        None \<Rightarrow> Inl Uninitialised
      | Some Detached \<Rightarrow> Inl (Uncaught System_error)
      | Some Joinable \<Rightarrow> Inr (0, vi1))"

subsection \<open>main\<close>

text \<open>The three getters \<open>main\<close> calls first; their results are not looked at.\<close>

definition main_config :: "'p ptree_lib \<Rightarrow> pixfmts \<Rightarrow> 'p program_config \<Rightarrow> 'p program_config exn" where
  "main_config lib pf pc =
     (let (pc1, r1) = get_http_config lib pc in
      case r1 of Inl e \<Rightarrow> Inl e | Inr _ \<Rightarrow>
     (let (pc2, r2) = get_video_config lib pc1 in
      case r2 of Inl e \<Rightarrow> Inl e | Inr _ \<Rightarrow>
     (let (pc3, r3) = get_camera_config lib pf pc2 in
      case r3 of Inl e \<Rightarrow> Inl e | Inr _ \<Rightarrow> Inr pc3)))"

text \<open>The system's singletons and what the parts keep.\<close>

record ('p, 'h) program =
  pg_config :: "'p program_config"
  pg_boot :: "'p boot"
  pg_http :: "'p http_initializer option"
  pg_events :: "'h event_handler"
  pg_event_init :: event_initializer
  pg_rtsp :: rtsp_world

record ('p, 'h) main_env =
  mn_lib :: "'p ptree_lib"
  mn_pixfmts :: pixfmts
  mn_daemon :: "daemon_args \<Rightarrow> bool"
  mn_net :: net_env
  mn_cwd :: path
  mn_can_open :: "path \<Rightarrow> bool"
  mn_uuid :: string
  mn_processor :: "path \<Rightarrow> fs \<Rightarrow> string \<Rightarrow> 'h event_processor"
  mn_rtsp :: rtsp_env
  mn_acceptor :: acceptor_env
  mn_steps :: "stream_step list"

text \<open>The HTTP part: a new initializer reads its section again; the statuses are dropped.\<close>

definition main_http :: "('p, 'h) main_env \<Rightarrow> ('p, 'h) program \<Rightarrow> ('p, 'h) program res" where
  "main_http e g =
     (let (pc, r) = get_http_config (mn_lib e) (pg_config g) in
      rbind (throw_uncaught r) (\<lambda>hcfg.
      let (pc1, rv) = get_video_config (mn_lib e) pc in
      rbind (throw_uncaught rv) (\<lambda>vcfg.
      rbind (http_init (mn_daemon e) (mn_net e) (mn_can_open e) (mn_cwd e) vcfg (mn_uuid e)
               (http_initializer_ctor hcfg) (pg_boot g)) (\<lambda>(_, hi, b).
      let _ = http_start hi in
      Inr (g\<lparr>pg_config := pc1, pg_boot := b, pg_http := Some hi\<rparr>)))))"

text \<open>
  The instance of \<open>EventHandlerHTTP\<close>: the singleton, or its construction.  Its member \<open>VideoHandler\<close> reads
  the video section and makes the directories, then the constructor's body reads the HTTP section.
\<close>

definition http_instance ::
  "('p, 'h) main_env \<Rightarrow> 'p program_config \<times> 'p boot \<Rightarrow> (event_http \<times> 'p program_config \<times> 'p boot) res" where
  "http_instance e pb =
     (let (pc, b) = pb in
      case bt_handlers b of
        Some (_, eh) \<Rightarrow> Inr (eh, pc, b)
      | None \<Rightarrow>
         (let (pc1, rv) = get_video_config (mn_lib e) pc in
          rbind (throw_uncaught rv) (\<lambda>vcfg.
          rbind (video_handler_ctor (mn_cwd e) vcfg (bt_fs b)) (\<lambda>(vh, fs1).
          let (pc2, rh) = get_http_config (mn_lib e) pc1 in
          rbind (throw_uncaught rh) (\<lambda>hcfg.
          rbind (event_http_ctor (mn_can_open e) (mn_cwd e) fs1 hcfg) (\<lambda>eh.
          Inr (eh, pc2, b\<lparr>bt_fs := fs1, bt_handlers := Some (vh, eh)\<rparr>)))))))"

definition main_event :: "('p, 'h) main_env \<Rightarrow> ('p, 'h) program \<Rightarrow> ('p, 'h) program res" where
  "main_event e g =
     rbind (event_initializer_init
              (event_processor_ctor (http_instance e) (\<lambda>(_, b). bt_fs b) (mn_processor e (mn_cwd e)))
              (mn_cwd e) (bt_fs (pg_boot g)) (pg_event_init g, pg_events g, pg_config g, pg_boot g))
       (\<lambda>(_, ei, eh, pc, b).
       Inr (g\<lparr>pg_event_init := snd (event_initializer_start ei), pg_events := eh, pg_config := pc, pg_boot := b\<rparr>))"

text \<open>The video part: the handlers' singletons exist already if the HTTP part needed them.\<close>

definition main_video ::
  "('p, 'h) main_env \<Rightarrow> ('p, 'h) program \<Rightarrow>
     (start_result \<times> 'p video_initializer \<times> ('p, 'h) program) option res" where
  "main_video e g =
     (let (pc, rv) = get_video_config (mn_lib e) (pg_config g) in
      rbind (throw_uncaught rv) (\<lambda>vcfg.
      rbind (case bt_handlers (pg_boot g) of
               Some (vh, _) \<Rightarrow> Inr (vh, bt_fs (pg_boot g))
             | None \<Rightarrow> video_handler_ctor (mn_cwd e) vcfg (bt_fs (pg_boot g))) (\<lambda>(vh, fs).
      rbind (throw_uncaught (video_initializer_ctor (mn_lib e) vh pc)) (\<lambda>(vi, pc1).
      let g1 = g\<lparr>pg_config := pc1, pg_boot := (pg_boot g)\<lparr>bt_fs := fs\<rparr>, pg_rtsp := (pg_rtsp g)\<lparr>rw_fs := fs\<rparr>\<rparr> in
      sbind (video_start (mn_rtsp e) (mn_acceptor e) (mn_steps e) (video_initializer_init vi) (pg_rtsp g1))
        (\<lambda>(r, vi1). Inr (Some (r, vi1, g1)))))))"

text \<open>
  The camera's thread up to its capture loop: the statuses of \<open>init\<close> and \<open>start\<close> are dropped, so the loop
  is entered, or not, by the last system call of \<open>start\<close> alone.
\<close>

definition camera_thread ::
  "'p ptree_lib \<Rightarrow> pixfmts \<Rightarrow> 'd v4l2 \<Rightarrow> 'd \<Rightarrow> 'p program_config \<Rightarrow> vqueue option \<Rightarrow>
     (bool \<times> ('p, 'd) camera \<times> 'p program_config \<times> vqueue option) res" where
  "camera_thread lib pf k dev pc queue =
     rbind (camera_ctor lib pf dev pc queue) (\<lambda>(c, pc1, inst).
     rbind (camera_init k c) (\<lambda>(_, c1).
     rbind (deref inst) (\<lambda>q.
     rbind (camera_start 0 k (c1, q)) (\<lambda>(r, c2, q1).
     Inr (r = None, c2, pc1, Some q1)))))"

text \<open>
  \<open>main\<close>.  The camera's thread is detached and runs beside the rest (\<open>Program_System\<close>).  The result is the
  exit status, or \<open>Serving\<close>.
\<close>

definition main_program ::
  "('p, 'h) main_env \<Rightarrow> string list \<Rightarrow> ('p, 'h) program \<Rightarrow> (start_result \<times> ('p, 'h) program) option res" where
  "main_program e argv g =
     (case argv of
        [_, ip] \<Rightarrow>
          (let e1 = e\<lparr>mn_rtsp := (mn_rtsp e)\<lparr>re_ip_addr := ip\<rparr>\<rparr> in
           rbind (throw_uncaught (main_config (mn_lib e1) (mn_pixfmts e1) (pg_config g))) (\<lambda>pc.
           rbind (main_http e1 (g\<lparr>pg_config := pc\<rparr>)) (\<lambda>g1.
           rbind (main_event e1 g1) (\<lambda>g2.
           sbind (main_video e1 g2) (\<lambda>(r, _, g3).
           Inr (Some (case r of Serving _ _ \<Rightarrow> r | Returned _ \<Rightarrow> Returned 0, g3)))))))
      | _ \<Rightarrow> Inr (Some (Returned 1, g)))"

end
