(* ===== verification/Rtsp_Spec.thy ===== *)
theory Rtsp_Spec
  imports Rtsp_Session Video_Queue_Sharing
begin

text \<open>
  The lemmas about the shared state of the RTSP part: which references a request may add or give up
  (\<open>refs_ext\<close>), that the encoder's callbacks keep the queue and the references in order (\<open>rtsp_inv\<close>,
  \<open>stream_rel\<close>), and the specification of \<open>make_sdp\<close>, \<open>set_stream\<close> and \<open>play_stream\<close>.
\<close>

subsection \<open>Fresh objects\<close>

text \<open>Nothing that was there before is touched: only references above the old mark may differ.\<close>

definition refs_ext :: "rtsp_world \<Rightarrow> rtsp_world \<Rightarrow> bool" where
  "refs_ext w w' \<longleftrightarrow> rw_infos w' = rw_infos w \<and> rw_next w \<le> rw_next w' \<and>
     (\<forall>a < rw_next w. rw_refs w' a = rw_refs w a) \<and> (\<forall>a. rw_next w' \<le> a \<longrightarrow> rw_refs w' a = None)"

lemma refs_ext_refl: "refs_ok w \<Longrightarrow> refs_ext w w"
  by (simp add: refs_ext_def refs_ok_def)

lemma refs_ext_trans: "refs_ext w w1 \<Longrightarrow> refs_ext w1 w2 \<Longrightarrow> refs_ext w w2"
  unfolding refs_ext_def by (metis order.strict_trans2 order.trans)

lemma refs_ext_ok:
  assumes "refs_ok w" and "refs_ext w w'"
  shows "refs_ok w'"
  unfolding refs_ok_def
proof (intro conjI allI impI)
  note old = refs_ok_pipeline_old [OF assms(1)]
  have i: "rw_infos w' = rw_infos w" using assms(2) by (simp add: refs_ext_def)
  fix a ia p assume "rw_infos w' a = Some ia \<and> rg_pipeline ia = Some p"
  with old [of a ia p] show "rw_refs w' p = Some 1" using assms(2) by (simp add: refs_ext_def)
next
  fix a b ia j p
  assume "rw_infos w' a = Some ia \<and> rw_infos w' b = Some j \<and> rg_pipeline ia = Some p \<and> rg_pipeline j = Some p"
  then show "a = b" using assms unfolding refs_ok_def refs_ext_def by metis
next
  fix a assume a: "rw_next w' \<le> a"
  then show "rw_refs w' a = None" using assms(2) by (simp add: refs_ext_def)
  from a have "rw_next w \<le> a" using assms(2) by (simp add: refs_ext_def)
  then show "rw_infos w' a = None" using assms by (simp add: refs_ok_def refs_ext_def)
qed

lemma refs_ext_cong:
  "rw_refs w1 = rw_refs w' \<Longrightarrow> rw_infos w1 = rw_infos w' \<Longrightarrow> rw_next w1 = rw_next w' \<Longrightarrow>
   refs_ext w w1 = refs_ext w w'"
  by (simp add: refs_ext_def)

lemma refs_ext_log [simp]: "refs_ext w (gst_log cs w') = refs_ext w w'"
  by (rule refs_ext_cong) simp_all

lemma gst_make_all_ext:
  assumes "refs_ok w" and "gst_make_all env fs w = (es, w1)"
  shows "refs_ext w w1" and "\<forall>a. Some a \<in> set es \<longrightarrow> rw_next w \<le> a \<and> rw_refs w1 a = Some 1"
proof -
  note m = gst_make_all_spec [OF assms(2)]
  from m have "w1 = w\<lparr>rw_refs := rw_refs w1, rw_next := rw_next w1\<rparr>" by blast
  then have "rw_infos w1 = rw_infos w" by (metis rtsp_world.ext_inject rtsp_world.surjective rtsp_world.update_convs(1,3))
  moreover have "rw_refs w1 a = rw_refs w a" if "a < rw_next w" for a using m that by auto
  moreover have "rw_refs w1 a = None" if "rw_next w1 \<le> a" for a
    using m that assms(1) by (auto simp: refs_ok_def)
  ultimately show "refs_ext w w1" using m by (simp add: refs_ext_def)
  show "\<forall>a. Some a \<in> set es \<longrightarrow> rw_next w \<le> a \<and> rw_refs w1 a = Some 1" using m by simp
qed

text \<open>Giving up references above the mark.\<close>

lemma gst_unref_ext:
  assumes "refs_ext w w1" and "obj = None \<or> (\<exists>a. obj = Some a \<and> rw_next w \<le> a)" and "gst_unref obj w1 = Inr w2"
  shows "refs_ext w w2"
proof (cases obj)
  case None
  with assms show ?thesis by (simp add: gst_unref_def)
next
  case (Some a)
  with assms(3) obtain r where "w2 = w1\<lparr>rw_refs := (rw_refs w1)(a := r)\<rparr>" and "rw_refs w1 a \<noteq> None"
    by (auto simp: gst_unref_def split: option.splits nat.splits)
  then show ?thesis using assms(1,2) Some
    by (auto simp: refs_ext_def)
qed

lemma unref_all_ext:
  assumes "rfold gst_unref es w1 = Inr w2" and "refs_ext w w1" and "\<forall>a. Some a \<in> set es \<longrightarrow> rw_next w \<le> a"
  shows "refs_ext w w2"
  using assms(1,2)
proof (rule rfold_invariant)
  fix e s s' assume "e \<in> set es" and "refs_ext w s" and "gst_unref e s = Inr s'"
  moreover from \<open>e \<in> set es\<close> assms(3) have "e = None \<or> (\<exists>a. e = Some a \<and> rw_next w \<le> a)"
    by (metis option.exhaust)
  ultimately show "refs_ext w s'" using gst_unref_ext by blast
qed

lemma bin_add_ext:
  assumes "refs_ext w w1" and "\<forall>a. Some a \<in> set es \<longrightarrow> rw_next w \<le> a"
  shows "refs_ext w (gst_bin_add_many es w1)"
proof -
  have "Some a \<notin> set (takeWhile (\<lambda>e. e \<noteq> None) es)" if "a < rw_next w" for a
    using assms(2) that by (auto dest!: set_takeWhileD)
  then show ?thesis using assms(1) unfolding refs_ext_def gst_bin_add_many_def fold_clear by auto
qed

lemma gst_set_state_frame [simp]:
  "rw_refs (snd (gst_set_state env obj st w)) = rw_refs w"
  "rw_infos (snd (gst_set_state env obj st w)) = rw_infos w"
  "rw_next (snd (gst_set_state env obj st w)) = rw_next w"
  "rw_queue (snd (gst_set_state env obj st w)) = rw_queue w"
  "rw_stream (snd (gst_set_state env obj st w)) = rw_stream w"
  "rw_fs (snd (gst_set_state env obj st w)) = rw_fs w"
  "rw_cnt (snd (gst_set_state env obj st w)) = rw_cnt w"
  "rw_sent (snd (gst_set_state env obj st w)) = rw_sent w"
  "fed (snd (gst_set_state env obj st w)) = fed w"
  by (simp_all add: gst_set_state_def split: option.split)

lemma gst_make_all_frame:
  assumes "gst_make_all env fs w = (es, w1)"
  shows "rw_queue w1 = rw_queue w" "rw_stream w1 = rw_stream w" "rw_fs w1 = rw_fs w" "rw_cnt w1 = rw_cnt w"
    "rw_infos w1 = rw_infos w" "rw_sent w1 = rw_sent w" "length es = length fs" "fed w1 = fed w"
proof -
  from gst_make_all_spec [OF assms]
  have e: "w1 = w\<lparr>rw_refs := rw_refs w1, rw_next := rw_next w1\<rparr>" and "length es = length fs" by blast+
  show "rw_queue w1 = rw_queue w" "rw_stream w1 = rw_stream w" "rw_fs w1 = rw_fs w" "rw_cnt w1 = rw_cnt w"
    "rw_infos w1 = rw_infos w" "rw_sent w1 = rw_sent w" "length es = length fs" "fed w1 = fed w"
    by (subst e, simp)+ (rule \<open>length es = length fs\<close>, subst e, simp)
qed

lemma gst_unref_frame:
  assumes "gst_unref obj w = Inr w1"
  shows "rw_queue w1 = rw_queue w" "rw_stream w1 = rw_stream w" "rw_fs w1 = rw_fs w" "rw_cnt w1 = rw_cnt w"
    "rw_infos w1 = rw_infos w" "rw_next w1 = rw_next w" "rw_sent w1 = rw_sent w" "fed w1 = fed w"
  using assms by (auto simp: gst_unref_def split: option.splits nat.splits)

lemma gst_bin_add_many_frame [simp]:
  "rw_queue (gst_bin_add_many es w) = rw_queue w" "rw_stream (gst_bin_add_many es w) = rw_stream w"
  "rw_fs (gst_bin_add_many es w) = rw_fs w" "rw_cnt (gst_bin_add_many es w) = rw_cnt w"
  "rw_infos (gst_bin_add_many es w) = rw_infos w" "rw_next (gst_bin_add_many es w) = rw_next w"
  "rw_sent (gst_bin_add_many es w) = rw_sent w" "fed (gst_bin_add_many es w) = fed w"
  by (simp_all add: gst_bin_add_many_def)

lemma gst_new_ref_ext:
  assumes "gst_new_ref w1 = (a, w2)" and "refs_ext w w1"
  shows "refs_ext w w2" "rw_next w \<le> a" "rw_queue w2 = rw_queue w1" "rw_stream w2 = rw_stream w1"
    "rw_refs w2 a = Some 1" "rw_fs w2 = rw_fs w1" "rw_cnt w2 = rw_cnt w1" "rw_infos w2 = rw_infos w1"
    "rw_sent w2 = rw_sent w1" "fed w2 = fed w1"
  using assms by (auto simp: gst_new_ref_def refs_ext_def)

subsection \<open>Pads and buffers\<close>

lemma demux_pad_added_ext:
  assumes "demux_pad_added streams pad w1 = Inr w2" and "refs_ext w w1"
  shows "refs_ext w w2" "rw_queue w2 = rw_queue w1" "rw_stream w2 = rw_stream w1" "rw_fs w2 = rw_fs w1"
    "fed w2 = fed w1"
proof -
  have "refs_ext w w2 \<and> rw_queue w2 = rw_queue w1 \<and> rw_stream w2 = rw_stream w1 \<and> rw_fs w2 = rw_fs w1 \<and> fed w2 = fed w1"
  proof (cases "pd_type pad")
    case None
    with assms show ?thesis by (simp add: demux_pad_added_def)
  next
    case (Some type)
    obtain c w3 where n: "gst_new_ref w1 = (c, w3)" by fastforce
    note ext = gst_new_ref_ext [OF n assms(2)]
    have "w2 = w3 \<or> (\<exists>cs. gst_unref (Some c) (gst_log cs w3) = Inr w2) \<or> gst_unref (Some c) w3 = Inr w2"
      using assms(1) Some n by (auto simp: demux_pad_added_def split: if_splits option.splits)
    then obtain w4 where "w2 = w3 \<or> gst_unref (Some c) w4 = Inr w2" and "w4 = w3 \<or> (\<exists>cs. w4 = gst_log cs w3)"
      by blast
    then have "refs_ext w w4" and "rw_queue w4 = rw_queue w3" "rw_stream w4 = rw_stream w3" "rw_fs w4 = rw_fs w3" "fed w4 = fed w3"
      and "w2 = w3 \<or> gst_unref (Some c) w4 = Inr w2"
      using ext(1) by auto
    with ext gst_unref_ext [of w w4 "Some c" w2] gst_unref_frame [of "Some c" w4 w2] show ?thesis by auto
  qed
  then show "refs_ext w w2" "rw_queue w2 = rw_queue w1" "rw_stream w2 = rw_stream w1" "rw_fs w2 = rw_fs w1"
    "fed w2 = fed w1"
    by auto
qed

lemma demux_pads_ext:
  assumes "rfold (demux_pad_added streams) pads w1 = Inr w2" and "refs_ext w w1"
  shows "refs_ext w w2 \<and> rw_queue w2 = rw_queue w1 \<and> rw_stream w2 = rw_stream w1 \<and> rw_fs w2 = rw_fs w1 \<and> fed w2 = fed w1"
  using assms(1)
proof (rule rfold_invariant)
  show "refs_ext w w1 \<and> rw_queue w1 = rw_queue w1 \<and> rw_stream w1 = rw_stream w1 \<and> rw_fs w1 = rw_fs w1 \<and> fed w1 = fed w1"
    using assms(2) by simp
next
  fix pad s s'
  assume "refs_ext w s \<and> rw_queue s = rw_queue w1 \<and> rw_stream s = rw_stream w1 \<and> rw_fs s = rw_fs w1 \<and> fed s = fed w1"
    and "demux_pad_added streams pad s = Inr s'"
  then show "refs_ext w s' \<and> rw_queue s' = rw_queue w1 \<and> rw_stream s' = rw_stream w1 \<and> rw_fs s' = rw_fs w1 \<and> fed s' = fed w1"
    using demux_pad_added_ext [of streams pad s s' w] by auto
qed

text \<open>A frame is copied whole: it never runs past the memory behind it.\<close>

lemma push_frame_spec:
  assumes b: "frame_ok b" and ext: "refs_ext w w1"
  shows "\<exists>r w2. push_frame nd b cnt w1 = Inr (r, w2) \<and> refs_ext w w2 \<and> rw_queue w2 = rw_queue w1 \<and>
    rw_stream w2 = rw_stream w1 \<and> rw_cnt w2 = rw_cnt w1 \<and> rw_infos w2 = rw_infos w1 \<and>
    (r = None \<or> (\<exists>a. r = Some (a, nd_push nd) \<and> rw_refs w2 a = None \<and> rw_next w \<le> a))"
proof (cases "vb_data b")
  case None
  with ext show ?thesis by (simp add: push_frame_def)
next
  case (Some bytes)
  obtain a w3 where n: "gst_new_ref w1 = (a, w3)" by fastforce
  note e = gst_new_ref_ext [OF n ext]
  show ?thesis
  proof (cases "nd_alloc nd")
    case False
    with ext show ?thesis by (simp add: push_frame_def)
  next
    case alloc: True
    show ?thesis
    proof (cases "nd_map nd")
      case False
      let ?w = "w3\<lparr>rw_refs := (rw_refs w3)(a := None)\<rparr>"
      have u: "gst_unref (Some a) w3 = Inr ?w" using e(5) by (simp add: gst_unref_def)
      then have "push_frame nd b cnt w1 = Inr (None, ?w)"
        using Some alloc False n by (simp add: push_frame_def)
      moreover have "refs_ext w ?w" using gst_unref_ext [OF e(1) _ u] e(2) by simp
      ultimately show ?thesis using e by simp
    next
      case True
      let ?n = "unat (of_nat (vb_size b) :: 32 word)"
      have "?n \<le> vb_size b" by (simp add: unsigned_of_nat take_bit_nat_less_eq_self)
      then have "\<exists>bs. memcpy_bytes (vb_data b) ?n = Inr bs"
        using b Some by (auto simp: memcpy_bytes_def frame_ok_def)
      then obtain bs where bs: "memcpy_bytes (vb_data b) ?n = Inr bs" ..
      define w4 where "w4 = w3\<lparr>rw_refs := (rw_refs w3)(a := None)\<rparr>"
      have "refs_ext w w4" using e(1,2) by (auto simp: refs_ext_def w4_def)
      then show ?thesis
        using Some alloc True n bs e
        by (auto simp: push_frame_def Let_def w4_def refs_ext_def)
    qed
  qed
qed

subsection \<open>The stream's callbacks\<close>

text \<open>A popped frame can be read and deleted, and deleting it restores the queue's invariant.\<close>

lemma taken_frame:
  assumes inv: "vq_inv H s" and p: "pop name s = Inr (Some (Some a, q))"
  shows "\<exists>b q'. read_buf a q = Inr b \<and> frame_ok b \<and> delete_buf a q = Inr q' \<and> vq_inv H q' \<and>
    q_device_fps q' = q_device_fps s \<and> (served s \<longrightarrow> served q')"
proof -
  have a: "a \<notin> H" and q: "vq_inv (insert a H) q" using pop_inv [OF inv, of name] p by auto
  from bufs_ok_live [OF vq_invD(3) [OF q], of a] obtain b where b: "q_bufs q a = Some b" "frame_ok b"
    by auto
  from delete_held [OF q, of a] obtain q' where d: "delete_buf a q = Inr q'" "vq_inv (insert a H - {a}) q'"
    by auto
  moreover have "insert a H - {a} = H" using a by simp
  moreover have "q_device_fps q' = q_device_fps s" using queue_fps d(1) p by metis
  moreover have "subs_within q q'"
    using d(1) by (auto simp: delete_buf_def intro: within_same split: option.splits)
  with served_within pop_within [OF inv p] have "served s \<longrightarrow> served q'" by blast
  ultimately show ?thesis using b by (simp add: read_buf_def)
qed

text \<open>The state of the system a handler works on: GStreamer's objects and the queue's frames.\<close>

definition rtsp_inv :: "addr set \<Rightarrow> rtsp_world \<Rightarrow> bool" where
  "rtsp_inv H w \<longleftrightarrow> refs_ok w \<and> vq_inv H (rw_queue w)"

text \<open>How a step of the stream's threads relates to the state make_sdp began with.\<close>

definition stream_rel :: "addr set \<Rightarrow> rtsp_world \<Rightarrow> rtsp_world \<Rightarrow> bool" where
  "stream_rel H w w' \<longleftrightarrow> refs_ext w w' \<and> vq_inv H (rw_queue w') \<and>
     q_device_fps (rw_queue w') = q_device_fps (rw_queue w)"

lemma sdp_need_data_spec:
  assumes rel: "stream_rel H w w1"
  shows "(in_int32 (rw_cnt w1 + 1) \<longrightarrow> (\<exists>r. sdp_need_data (Some c) nd w1 = Inr r)) \<and>
    (\<forall>w2. sdp_need_data (Some c) nd w1 = Inr (Some w2) \<longrightarrow>
       stream_rel H w w2 \<and> (served (rw_queue w1) \<longrightarrow> served (rw_queue w2)) \<and> rw_stream w2 = rw_stream w1 \<and>
       rw_cnt w1 \<le> rw_cnt w2 \<and> rw_cnt w2 \<le> rw_cnt w1 + 1)"
proof (cases "nd_is_app_src nd")
  case False
  with rel show ?thesis by (auto simp: sdp_need_data_def)
next
  case True
  from rel have ext: "refs_ext w w1" and inv: "vq_inv H (rw_queue w1)"
    and fps: "q_device_fps (rw_queue w1) = q_device_fps (rw_queue w)" by (auto simp: stream_rel_def)
  from pop_inv [OF inv, of "''sdp''"] obtain r where r: "pop ''sdp'' (rw_queue w1) = Inr r" by auto
  consider "r = None" | q where "r = Some (None, q)" | a q where "r = Some (Some a, q)"
    by (metis option.exhaust surj_pair)
  then show ?thesis
  proof cases
    case 1
    with r True show ?thesis by (simp add: sdp_need_data_def)
  next
    case 2
    with r pop_inv [OF inv, of "''sdp''"] have "vq_inv H q" by simp
    moreover have "q_device_fps q = q_device_fps (rw_queue w)" using r 2 queue_fps(2) fps by metis
    ultimately have "stream_rel H w (w1\<lparr>rw_queue := q\<rparr>)" using ext by (simp add: stream_rel_def refs_ext_def)
    moreover have "served (rw_queue w1) \<longrightarrow> served q" using served_within pop_within [OF inv] r 2 by blast
    ultimately show ?thesis using r 2 True by (simp add: sdp_need_data_def)
  next
    case 3
    with taken_frame [OF inv] r obtain b q' where b: "read_buf a q = Inr b" "frame_ok b"
      and d: "delete_buf a q = Inr q'" "vq_inv H q'" "q_device_fps q' = q_device_fps (rw_queue w1)"
        "served (rw_queue w1) \<longrightarrow> served q'"
      by metis
    have e1: "refs_ext w (w1\<lparr>rw_queue := q\<rparr>)" using ext by (simp add: refs_ext_def)
    from push_frame_spec [OF b(2) e1, of nd "rw_cnt w1"] obtain p w2 where
      p: "push_frame nd b (rw_cnt w1) (w1\<lparr>rw_queue := q\<rparr>) = Inr (p, w2)" "refs_ext w w2" "rw_queue w2 = q"
        "rw_stream w2 = rw_stream w1" "rw_cnt w2 = rw_cnt w1"
      and pr: "p = None \<or> (\<exists>x. p = Some (x, nd_push nd))" by auto
    define inc where "inc = (case p of Some (_, True) \<Rightarrow>
        rbind (int_add (rw_cnt w2) 1) (\<lambda>n. Inr (w2\<lparr>rw_cnt := n\<rparr>)) | _ \<Rightarrow> Inr w2)"
    have run: "sdp_need_data (Some c) nd w1 = rbind inc (\<lambda>w3.
        rbind (delete_buf a (rw_queue w3)) (\<lambda>q2. Inr (Some (w3\<lparr>rw_queue := q2\<rparr>))))"
      using True r 3 b(1) p(1) by (simp add: sdp_need_data_def inc_def)
    have "inc = Inr w2 \<or> inc = rbind (chk32 (rw_cnt w1 + 1)) (\<lambda>n. Inr (w2\<lparr>rw_cnt := n\<rparr>))"
      using pr p(5) by (auto simp: inc_def int_add_def split: bool.splits)
    then consider "inc = Inr w2" | "in_int32 (rw_cnt w1 + 1)" "inc = Inr (w2\<lparr>rw_cnt := rw_cnt w1 + 1\<rparr>)"
      | "\<not> in_int32 (rw_cnt w1 + 1)" "inc = Inl SignedOverflow"
      by (auto simp: chk32_def split: if_splits)
    then show ?thesis
    proof cases
      case 1
      then show ?thesis using run d p fps by (simp add: stream_rel_def refs_ext_def)
    next
      case 2
      then show ?thesis using run d p fps by (simp add: stream_rel_def refs_ext_def)
    next
      case 3
      then show ?thesis using run by simp
    qed
  qed
qed

definition step_ok :: "stream_step \<Rightarrow> bool" where
  "step_ok st = (case st of Capture b \<Rightarrow> frame_ok b | _ \<Rightarrow> True)"

lemma sdp_step_spec:
  assumes rel: "stream_rel H w w1" and st: "step_ok st" and ms: "rw_stream w1 = Some ms" "ms_codec_info ms \<noteq> None"
  shows "(in_int32 (rw_cnt w1 + 1) \<and> served (rw_queue w1) \<longrightarrow> (\<exists>w2. sdp_step (Some c) st w1 = Inr w2)) \<and>
    (\<forall>w2. sdp_step (Some c) st w1 = Inr w2 \<longrightarrow> stream_rel H w w2 \<and>
       (served (rw_queue w1) \<longrightarrow> served (rw_queue w2)) \<and>
       (\<exists>ci. rw_stream w2 = Some (ms\<lparr>ms_codec_info := Some ci\<rparr>)) \<and>
       rw_cnt w1 \<le> rw_cnt w2 \<and> rw_cnt w2 \<le> rw_cnt w1 + 1)"
proof -
  define P where "P w2 \<longleftrightarrow> stream_rel H w w2 \<and> (served (rw_queue w1) \<longrightarrow> served (rw_queue w2)) \<and> (\<exists>ci. rw_stream w2 = Some (ms\<lparr>ms_codec_info := Some ci\<rparr>)) \<and>
    rw_cnt w1 \<le> rw_cnt w2 \<and> rw_cnt w2 \<le> rw_cnt w1 + 1" for w2
  from ms(2) obtain ci where ci: "ms_codec_info ms = Some ci" by blast
  then have "rw_stream w1 = Some (ms\<lparr>ms_codec_info := Some ci\<rparr>)" using ms(1) by simp
  then have same: "\<exists>ci. rw_stream w1 = Some (ms\<lparr>ms_codec_info := Some ci\<rparr>)" by blast
  have "(in_int32 (rw_cnt w1 + 1) \<and> served (rw_queue w1) \<longrightarrow> (\<exists>w2. sdp_step (Some c) st w1 = Inr w2)) \<and>
    (\<forall>w2. sdp_step (Some c) st w1 = Inr w2 \<longrightarrow> P w2)"
  proof (cases st)
    case (Need_data nd)
    note nd = sdp_need_data_spec [OF rel, of c nd]
    consider e where "sdp_need_data (Some c) nd w1 = Inl e" | "sdp_need_data (Some c) nd w1 = Inr None"
      | w2 where "sdp_need_data (Some c) nd w1 = Inr (Some w2)"
      by (metis option.exhaust sum.exhaust)
    then show ?thesis
    proof cases
      case 1
      with nd show ?thesis by (simp add: Need_data)
    next
      case 2
      have "P w1" using rel same by (simp add: P_def)
      with 2 show ?thesis by (simp add: Need_data)
    next
      case 3
      with nd have "P w2" using same by (simp add: P_def)
      with 3 show ?thesis by (simp add: Need_data)
    qed
  next
    case (New_sample s)
    have "\<exists>c'. snd (multicast_sdp_new_sample_callback s (ms_codec_info ms)) = Some c'"
      by (simp add: multicast_sdp_new_sample_callback_def ci Let_def split: option.split)
    then show ?thesis using rel ms(1) by (auto simp: New_sample P_def stream_rel_def refs_ext_def)
  next
    case (Capture b)
    obtain a q where n: "new_buf b (rw_queue w1) = (a, q)" by fastforce
    have "vq_inv H (rw_queue w1)" and "frame_ok b" using rel st by (auto simp: stream_rel_def Capture step_ok_def)
    note nb = new_buf_inv [OF this n]
    from nb(2) have "insert a H - {a} = H" by simp
    with push_inv [OF nb(1), of a] have "vq_inv H (snd (push a q))" by simp
    moreover have "q_device_fps (snd (push a q)) = q_device_fps (rw_queue w1)"
      using n by (auto simp: push_def new_buf_def)
    moreover have "subs_within (rw_queue w1) (snd (push a q))" using n by (auto simp: push_def new_buf_def within_same)
    with served_within have "served (rw_queue w1) \<longrightarrow> served (snd (push a q))" by blast
    ultimately have "P (w1\<lparr>rw_queue := snd (push a q)\<rparr>)"
      using rel same by (simp add: P_def stream_rel_def refs_ext_def)
    then show ?thesis by (simp add: Capture n)
  next
    case (Distribute t)
    have vq: "vq_inv H (rw_queue w1)" using rel by (simp add: stream_rel_def)
    show ?thesis
    proof (cases "distribute_round t (rw_queue w1)")
      case (Inl f)
      with distribute_round_returns [OF vq, of t] served_can_distribute [OF vq_invD(1) [OF vq]]
      show ?thesis by (auto simp: Distribute)
    next
      case (Inr q)
      from distribute_round_inv [OF vq Inr] distribute_served [OF vq _ Inr] distribute_round_fps [OF Inr] rel same
      have "P (w1\<lparr>rw_queue := q\<rparr>)" by (simp add: P_def stream_rel_def refs_ext_def)
      with Inr show ?thesis by (simp add: Distribute)
    qed
  qed
  then show ?thesis by (simp only: P_def)
qed

lemma refs_ext_self: "refs_ext w w1 \<Longrightarrow> refs_ext w1 w1"
  by (simp add: refs_ext_def)

lemma sdp_steps_spec:
  assumes "stream_rel H w w1" and "\<forall>st \<in> set steps. step_ok st"
    and "rw_stream w1 = Some ms" and "ms_codec_info ms \<noteq> None"
  shows "(- (2 ^ 31) \<le> rw_cnt w1 \<and> rw_cnt w1 + int (length steps) < 2 ^ 31 \<and> served (rw_queue w1) \<longrightarrow>
      (\<exists>w2. rfold (sdp_step (Some c)) steps w1 = Inr w2)) \<and>
    (\<forall>w2. rfold (sdp_step (Some c)) steps w1 = Inr w2 \<longrightarrow> stream_rel H w w2 \<and>
       (served (rw_queue w1) \<longrightarrow> served (rw_queue w2)) \<and> (\<exists>ci. rw_stream w2 = Some (ms\<lparr>ms_codec_info := Some ci\<rparr>)))"
  using assms
proof (induction steps arbitrary: w1 ms)
  case Nil
  then obtain ci where "ms_codec_info ms = Some ci" by blast
  then have "ms = ms\<lparr>ms_codec_info := Some ci\<rparr>" by simp
  with Nil show ?case by auto
next
  case (Cons st steps)
  from Cons.prems(2) have "step_ok st" by simp
  note spec = sdp_step_spec [OF Cons.prems(1) this Cons.prems(3,4), of c]
  show ?case
  proof (cases "sdp_step (Some c) st w1")
    case (Inl e)
    with spec have "\<not> (in_int32 (rw_cnt w1 + 1) \<and> served (rw_queue w1))" by simp
    with Inl show ?thesis by (auto simp: in_int32_def)
  next
    case (Inr w2)
    with spec obtain ci where rel2: "stream_rel H w w2" and ms2: "rw_stream w2 = Some (ms\<lparr>ms_codec_info := Some ci\<rparr>)"
      and cnt: "rw_cnt w1 \<le> rw_cnt w2" "rw_cnt w2 \<le> rw_cnt w1 + 1"
      and sv: "served (rw_queue w1) \<longrightarrow> served (rw_queue w2)" by blast
    from Cons.prems(2) have "\<forall>st \<in> set steps. step_ok st" by simp
    from Cons.IH [OF rel2 this ms2] Inr cnt sv show ?thesis by auto
  qed
qed

text \<open>The codec information the samples among the steps gather.\<close>

fun gathered :: "stream_step list \<Rightarrow> h264_codec_info option \<Rightarrow> h264_codec_info option" where
  "gathered [] c = c"
| "gathered (New_sample s # steps) c = gathered steps (snd (multicast_sdp_new_sample_callback s c))"
| "gathered (_ # steps) c = gathered steps c"

lemma sdp_step_codec:
  assumes rel: "stream_rel H w w1" and ms: "rw_stream w1 = Some ms" and run: "sdp_step (Some c) st w1 = Inr w2"
  shows "rw_stream w2 = Some (ms\<lparr>ms_codec_info := gathered [st] (ms_codec_info ms)\<rparr>)"
proof (cases st)
  case (Need_data nd)
  with run sdp_need_data_spec [OF rel, of c nd] ms show ?thesis
    by (auto simp: rbind_eq_Inr split: option.splits)
qed (use ms run in \<open>auto simp: rbind_eq_Inr Let_def split: prod.splits\<close>)

lemma gathered_steps:
  assumes "stream_rel H w w1" and "\<forall>st \<in> set steps. step_ok st" and "rw_stream w1 = Some ms"
    and "ms_codec_info ms \<noteq> None" and "rfold (sdp_step (Some c)) steps w1 = Inr w2"
  shows "rw_stream w2 = Some (ms\<lparr>ms_codec_info := gathered steps (ms_codec_info ms)\<rparr>)"
  using assms
proof (induction steps arbitrary: w1 ms)
  case Nil
  then show ?case by simp
next
  case (Cons st steps)
  from Cons.prems(5) obtain w' where st: "sdp_step (Some c) st w1 = Inr w'" and
    r: "rfold (sdp_step (Some c)) steps w' = Inr w2" by (auto simp: rbind_eq_Inr)
  have sp: "stream_rel H w w'" "\<exists>ci. rw_stream w' = Some (ms\<lparr>ms_codec_info := Some ci\<rparr>)"
    using sdp_step_spec [OF Cons.prems(1) _ Cons.prems(3,4), of st c] Cons.prems(2) st by auto
  note codec = sdp_step_codec [OF Cons.prems(1,3) st]
  let ?ms = "ms\<lparr>ms_codec_info := gathered [st] (ms_codec_info ms)\<rparr>"
  from sp(2) codec obtain ci where "?ms = ms\<lparr>ms_codec_info := Some ci\<rparr>" by auto
  then have "ms_codec_info ?ms = ms_codec_info (ms\<lparr>ms_codec_info := Some ci\<rparr>)" by (rule arg_cong)
  then have "ms_codec_info ?ms \<noteq> None" by simp
  from Cons.IH [OF sp(1) _ codec this r] Cons.prems(2) show ?case by (cases st) simp_all
qed

lemma rfold_delete_frame:
  assumes "rfold delete_buf q s = Inr s'"
  shows "q_thread_info s' = q_thread_info s \<and> q_output s' = q_output s"
proof (rule rfold_invariant [OF assms])
  fix a t t' assume "q_thread_info t = q_thread_info s \<and> q_output t = q_output s" and "delete_buf a t = Inr t'"
  then show "q_thread_info t' = q_thread_info s \<and> q_output t' = q_output s"
    by (auto simp: delete_buf_def split: option.splits)
qed simp

lemma remove_event_gone:
  assumes "remove_event name s = Inr (r, s')"
  shows "um_find (q_thread_info s') name = None \<and> um_find (q_output s') name = None"
  using assms
  by (cases "um_find (q_thread_info s) name"; cases "um_find (q_output s) name")
    (auto simp: remove_event_def rbind_eq_Inr write_info_def um_find_erase dest!: rfold_delete_frame)

text \<open>The frame rate can always be split.\<close>

lemma frame_rate_parts_ok:
  assumes "length (video_frame_rate c) < 2 ^ 64"
  shows "\<exists>p. frame_rate_parts c = Inr p"
proof -
  let ?s = "video_frame_rate c" and ?i = "str_find (video_frame_rate c) ''/'' 0"
  have "unat (?i + 1) \<le> length ?s"
  proof (cases "CHR ''/'' \<in> set ?s")
    case True
    let ?k = "length (takeWhile (\<lambda>d. d \<noteq> CHR ''/'') ?s)"
    have "?k < length ?s" by (rule takeWhile_shorter [OF True]) simp
    moreover have "?i = of_nat ?k" using str_find_char [OF assms True, symmetric] by simp
    moreover have "?i + 1 = of_nat (Suc ?k)" using \<open>?i = of_nat ?k\<close> by simp
    ultimately have "unat (?i + 1) = Suc ?k"
      using assms by (simp only: unsigned_of_nat) (simp add: take_bit_nat_eq_self)
    with \<open>?k < length ?s\<close> show ?thesis by simp
  next
    case False
    then show ?thesis by (simp add: str_find_char_none npos_def)
  qed
  then show ?thesis by (simp add: frame_rate_parts_def str_substr_def Let_def)
qed

subsection \<open>Describing the live stream\<close>

text \<open>The end of \<open>make_sdp\<close>, once the bus has reported.\<close>

definition sdp_close :: "rtsp_env \<Rightarrow> addr option \<Rightarrow> rtsp_world \<Rightarrow> (int \<times> string \<times> rtsp_world) option res" where
  "sdp_close env pipeline w =
     (case bus_loop (bus_of env pipeline) of
        None \<Rightarrow> Inr None
      | Some _ \<Rightarrow>
          rbind (gst_unref pipeline (snd (gst_set_state env pipeline State_null w))) (\<lambda>w5.
          rbind (remove_event ''sdp'' (rw_queue w5)) (\<lambda>(_, q5).
          rbind (sdp_finish env (w5\<lparr>rw_queue := q5\<rparr>)) (\<lambda>r. Inr (Some r)))))"

lemma rtsp_inv_rel:
  assumes "rtsp_inv H w" and "stream_rel H w w'"
  shows "rtsp_inv H w'"
  using assms refs_ext_ok by (auto simp: rtsp_inv_def stream_rel_def)

lemma stream_rel_refl: "rtsp_inv H w \<Longrightarrow> stream_rel H w w"
  by (simp add: stream_rel_def rtsp_inv_def refs_ext_refl)

lemma new_info_fps: "new_info i s = (ti, s') \<Longrightarrow> q_device_fps s' = q_device_fps s"
  by (auto simp: new_info_def)

lemma make_sdp_start:
  assumes inv: "rtsp_inv H w" and ms: "rw_stream w = Some ms" and new: "ms_sdp_str ms = ''''"
    and parts: "frame_rate_parts c = Inr pp"
  shows "\<exists>es ci w2 w3. ci = (case ms_codec_info ms of None \<Rightarrow> new_codec_info | Some c \<Rightarrow> c) \<and>
    length es = 7 \<and> stream_rel H w w2 \<and> rw_stream w2 = Some (ms\<lparr>ms_codec_info := Some ci\<rparr>) \<and>
    stream_rel H w w3 \<and> rw_stream w3 = Some (ms\<lparr>ms_codec_info := Some ci\<rparr>) \<and> rw_cnt w3 = rw_cnt w \<and>
    (served (rw_queue w) \<longrightarrow> served (rw_queue w2)) \<and>
    (30 \<le> q_device_fps (rw_queue w) \<longrightarrow> served (rw_queue w) \<longrightarrow> served (rw_queue w3)) \<and>
    (re_make env ''pipeline'' \<longrightarrow> hd es \<noteq> None) \<and>
    (\<forall>p. hd es = Some p \<longrightarrow> rw_next w \<le> p \<and> p < rw_next w3 \<and> rw_refs w3 p = Some 1) \<and>
    make_sdp env (Some c) steps w =
      (if \<not> re_link_many env (tl es) then Inr (Some (-1, '''', w2))
       else rbind (rfold (sdp_step (Some c)) steps w3) (sdp_close env (hd es)))"
proof -
  define ci where "ci = (case ms_codec_info ms of None \<Rightarrow> new_codec_info | Some c \<Rightarrow> c)"
  define w0 where "w0 = w\<lparr>rw_stream := Some (ms\<lparr>ms_codec_info := Some ci\<rparr>)\<rparr>"
  obtain es w1 where mk: "gst_make_all env sdp_elements w0 = (es, w1)" by fastforce
  obtain ti q1 where ni: "new_info \<lparr>ti_is_run = True, ti_fps = 30\<rparr> (rw_queue w1) = (ti, q1)" by fastforce
  have w0: "refs_ok w0" "rw_next w0 = rw_next w" "rw_queue w0 = rw_queue w" "rw_cnt w0 = rw_cnt w"
    and q: "vq_inv H (rw_queue w)"
    using inv by (simp_all add: w0_def rtsp_inv_def refs_ok_def)
  note ext = gst_make_all_ext [OF w0(1) mk] and fr = gst_make_all_frame [OF mk]
  note spec = gst_make_all_spec [OF mk]
  have ext1: "refs_ext w w1" using ext(1) by (simp add: refs_ext_def w0_def)
  define w2 where "w2 = gst_log (sdp_wiring es) (gst_bin_add_many (tl es) (w1\<lparr>rw_queue := q1\<rparr>))"
  have es7: "length es = 7" using fr(7) by (simp add: sdp_elements_def)
  then have tl: "Some a \<in> set (tl es) \<Longrightarrow> Some a \<in> set es" for a by (cases es) auto
  have "refs_ext w (w1\<lparr>rw_queue := q1\<rparr>)" using ext1 by (simp add: refs_ext_def)
  then have ext2: "refs_ext w w2"
    using bin_add_ext [of w _ "tl es"] ext(2) tl w0(2) by (simp add: w2_def)
  have q1: "vq_inv H q1" using new_info_inv(1) [OF _ ni] q fr(1) w0(3) by simp
  have f1: "q_device_fps q1 = q_device_fps (rw_queue w)" using new_info_fps [OF ni] fr(1) w0(3) by simp
  have rel2: "stream_rel H w w2" using ext2 q1 f1 by (simp add: stream_rel_def w2_def)
  have qw: "rw_queue w1 = rw_queue w" and vq1: "vq_inv H (rw_queue w1)" using q fr(1) w0(3) by simp_all
  have "divides_rate ''sdp'' 30 (rw_queue w1)" using vq_invD(1) [OF vq1] by (intro rate_divides) simp_all
  with insert_event_returns [OF vq1 ni, of "''sdp''"] obtain r q2 where ie: "insert_event ''sdp'' (Some ti) q1 = Inr (r, q2)" "vq_inv H q2"
    by auto
  have sv: "served q2" if "30 \<le> q_device_fps (rw_queue w)" "served (rw_queue w)"
    using served_subscribe [OF vq1 _ _ _ ni ie(1)] that by (simp add: qw)
  define w3 where "w3 = snd (gst_set_state env (hd es) State_playing (w2\<lparr>rw_queue := q2\<rparr>))"
  have "q_device_fps q2 = q_device_fps q1" using queue_fps(3) ie(1) by blast
  then have rel3: "stream_rel H w w3"
    using ext2 ie(2) f1 by (simp add: stream_rel_def w3_def refs_ext_def)
  have st: "rw_stream w2 = Some (ms\<lparr>ms_codec_info := Some ci\<rparr>)" "rw_stream w3 = Some (ms\<lparr>ms_codec_info := Some ci\<rparr>)"
    "rw_cnt w3 = rw_cnt w"
    using fr by (simp_all add: w2_def w3_def w0_def)
  have pipe: "rw_next w \<le> p \<and> p < rw_next w3 \<and> rw_refs w3 p = Some 1" if p: "hd es = Some p" for p
  proof -
    have mem: "Some p \<in> set es" using p es7 by (cases es) auto
    have "distinct [a. Some a \<leftarrow> es]" using spec by blast
    moreover have "es = Some p # tl es" using p es7 by (cases es) auto
    ultimately have "distinct [a. Some a \<leftarrow> Some p # tl es]" by simp
    then have "Some p \<notin> set (tl es)" by force
    then have "rw_refs w3 p = rw_refs w1 p"
      by (auto simp: w3_def w2_def gst_bin_add_many_def fold_clear dest: set_takeWhileD)
    moreover have "rw_next w3 = rw_next w1" by (simp add: w3_def w2_def)
    ultimately show ?thesis using spec mem w0(2) by auto
  qed
  have "re_make env ''pipeline'' \<longrightarrow> hd es \<noteq> None"
    using mk by (auto simp: sdp_elements_def gst_make_def split: prod.splits)
  moreover have "make_sdp env (Some c) steps w =
      (if \<not> re_link_many env (tl es) then Inr (Some (-1, '''', w2))
       else rbind (rfold (sdp_step (Some c)) steps w3) (sdp_close env (hd es)))"
  proof -
    have mk': "gst_make_all env sdp_elements (w\<lparr>rw_stream := Some (ms\<lparr>ms_codec_info :=
        Some (case ms_codec_info ms of None \<Rightarrow> new_codec_info | Some c \<Rightarrow> c)\<rparr>)\<rparr>) = (es, w1)"
      using mk by (simp only: w0_def ci_def)
    have q: "rw_queue w2 = q1" by (simp add: w2_def)
    show ?thesis
      unfolding make_sdp_def ms deref_simps rbind_Inr Let_def mk' prod.case ni parts throw_uncaught_simps
        w2_def [symmetric] q ie(1) w3_def [symmetric] sdp_close_def [abs_def]
      by (simp only: new simp_thms if_False)
  qed
  moreover have "rw_queue w3 = q2" "rw_queue w2 = q1" by (simp_all add: w3_def w2_def)
  moreover have "served (rw_queue w) \<longrightarrow> served q1" using new_info_served [OF vq1 ni] by (simp add: qw)
  ultimately show ?thesis using es7 rel2 rel3 st pipe ci_def sv by blast
qed

definition live_sdp :: "rtsp_env \<Rightarrow> multicast_stream \<Rightarrow> h264_codec_info \<Rightarrow> string" where
  "live_sdp env ms codec =
     re_sdp_text env (sdp_message_of (re_time env) (re_ip_addr env)
       (Some (''IN'', ''IP4'', ms_ip_addr ms, 32, 0)) codec)"

lemma sdp_close_spec:
  assumes rel: "stream_rel H w w4" and fresh: "\<forall>p. pl = Some p \<longrightarrow> rw_next w \<le> p"
    and ms: "rw_stream w4 = Some ms" and ci: "ms_codec_info ms = Some ci"
  shows "sdp_close env pl w4 = Inr (Some (r, s, w')) \<Longrightarrow>
      stream_rel H w w' \<and> r = 0 \<and> s = live_sdp env ms ci \<and> rw_stream w' = Some (ms\<lparr>ms_sdp_str := s\<rparr>) \<and>
      um_find (q_thread_info (rw_queue w')) ''sdp'' = None \<and> um_find (q_output (rw_queue w')) ''sdp'' = None \<and>
      (served (rw_queue w4) \<longrightarrow> served (rw_queue w'))"
    and "pl = Some p \<Longrightarrow> rw_refs w4 p = Some 1 \<Longrightarrow> bus_loop (re_bus env) \<noteq> None \<Longrightarrow>
      \<exists>r. sdp_close env pl w4 = Inr (Some r)"
proof -
  define wn where "wn = snd (gst_set_state env pl State_null w4)"
  have reln: "stream_rel H w wn" using rel by (simp add: wn_def stream_rel_def refs_ext_def)
  have finish: "sdp_finish env x = Inr (0, live_sdp env ms ci, x\<lparr>rw_stream := Some (ms\<lparr>ms_sdp_str := live_sdp env ms ci\<rparr>)\<rparr>)"
    if "rw_stream x = Some ms" for x
    using that ci by (simp add: sdp_finish_def live_sdp_def Let_def)
  {
    assume "sdp_close env pl w4 = Inr (Some (r, s, w'))"
    then obtain w5 t q5 where u: "gst_unref pl wn = Inr w5" and re: "remove_event ''sdp'' (rw_queue w5) = Inr (t, q5)"
      and f: "sdp_finish env (w5\<lparr>rw_queue := q5\<rparr>) = Inr (r, s, w')"
      by (auto simp: sdp_close_def wn_def rbind_eq_Inr split: option.splits)
    note fr = gst_unref_frame [OF u]
    have ms5: "rw_stream (w5\<lparr>rw_queue := q5\<rparr>) = Some ms" using fr ms by (simp add: wn_def)
    from f finish [OF ms5] have w': "r = 0" "s = live_sdp env ms ci"
      "w' = w5\<lparr>rw_queue := q5, rw_stream := Some (ms\<lparr>ms_sdp_str := live_sdp env ms ci\<rparr>)\<rparr>" by auto
    have "refs_ext w w5"
    proof (rule gst_unref_ext [OF _ _ u])
      show "refs_ext w wn" using reln by (simp add: stream_rel_def)
      show "pl = None \<or> (\<exists>a. pl = Some a \<and> rw_next w \<le> a)" using fresh by (cases pl) auto
    qed
    moreover have "vq_inv H (rw_queue w5)" using reln fr by (simp add: stream_rel_def)
    with remove_event_inv [of H "rw_queue w5" "''sdp''"] re have "vq_inv H q5" by auto
    moreover have "q_device_fps q5 = q_device_fps (rw_queue w)"
      using queue_fps(4) [OF re] fr reln by (simp add: stream_rel_def)
    ultimately have "stream_rel H w w'" by (simp add: w' stream_rel_def refs_ext_def)
    moreover have "rw_queue w5 = rw_queue w4" using fr by (simp add: wn_def)
    with served_within [OF remove_within [OF re]] have "served (rw_queue w4) \<longrightarrow> served q5" by simp
    ultimately
    show "stream_rel H w w' \<and> r = 0 \<and> s = live_sdp env ms ci \<and> rw_stream w' = Some (ms\<lparr>ms_sdp_str := s\<rparr>) \<and>
      um_find (q_thread_info (rw_queue w')) ''sdp'' = None \<and> um_find (q_output (rw_queue w')) ''sdp'' = None \<and>
      (served (rw_queue w4) \<longrightarrow> served (rw_queue w'))"
      using w' remove_event_gone [OF re] by simp
  }
  assume p: "pl = Some p" "rw_refs w4 p = Some 1" and bus: "bus_loop (re_bus env) \<noteq> None"
  from bus obtain msg where msg: "bus_loop (re_bus env) = Some msg" by blast
  define w5 where "w5 = wn\<lparr>rw_refs := (rw_refs wn)(p := None)\<rparr>"
  have u: "gst_unref pl wn = Inr w5" using p by (simp add: gst_unref_def w5_def wn_def)
  have "vq_inv H (rw_queue w5)" using reln by (simp add: w5_def stream_rel_def)
  from remove_event_inv [OF this] obtain t q5 where re: "remove_event ''sdp'' (rw_queue w5) = Inr (t, q5)" by blast
  have "rw_stream (w5\<lparr>rw_queue := q5\<rparr>) = Some ms" using ms by (simp add: w5_def wn_def)
  from finish [OF this] u re p(1) msg show "\<exists>r. sdp_close env pl w4 = Inr (Some r)"
    by (simp add: sdp_close_def wn_def bus_of_def)
qed

text \<open>Whatever \<open>make_sdp\<close> answers, the system stays in order.\<close>

lemma make_sdp_rel:
  assumes inv: "rtsp_inv H w" and st: "rw_stream w \<noteq> None" and steps: "\<forall>st \<in> set steps. step_ok st"
    and run: "make_sdp env cfg steps w = Inr (Some (r, s, w'))"
  shows "stream_rel H w w' \<and> (\<exists>ms'. rw_stream w' = Some ms' \<and> ms_thread_info ms' = ms_thread_info (the (rw_stream w))) \<and>
    (30 \<le> q_device_fps (rw_queue w) \<longrightarrow> served (rw_queue w) \<longrightarrow> served (rw_queue w'))"
proof -
  from st obtain ms where ms: "rw_stream w = Some ms" by blast
  show ?thesis
  proof (cases "ms_sdp_str ms = ''''")
    case False
    with run ms have "\<exists>x. w' = w\<lparr>rw_stream := Some x\<rparr> \<and> ms_thread_info x = ms_thread_info ms"
      by (auto simp: make_sdp_def Let_def)
    with ms stream_rel_refl [OF inv] show ?thesis by (auto simp: stream_rel_def refs_ext_def)
  next
    case new: True
    from run obtain c pp where cfg: "cfg = Some c" and parts: "frame_rate_parts c = Inr pp"
      using ms new by (auto simp: make_sdp_def Let_def rbind_eq_Inr throw_uncaught_eq_Inr deref_def
          split: prod.splits option.splits)
    from make_sdp_start [OF inv ms new parts, of env steps] obtain es ci w2 w3 where
      rel2: "stream_rel H w w2" "rw_stream w2 = Some (ms\<lparr>ms_codec_info := Some ci\<rparr>)"
        "served (rw_queue w) \<longrightarrow> served (rw_queue w2)"
      and sv3: "30 \<le> q_device_fps (rw_queue w) \<longrightarrow> served (rw_queue w) \<longrightarrow> served (rw_queue w3)"
      and rel3: "stream_rel H w w3" and ms3: "rw_stream w3 = Some (ms\<lparr>ms_codec_info := Some ci\<rparr>)"
      and pl: "\<forall>p. hd es = Some p \<longrightarrow> rw_next w \<le> p"
      and eq: "make_sdp env (Some c) steps w = (if \<not> re_link_many env (tl es) then Inr (Some (-1, '''', w2))
       else rbind (rfold (sdp_step (Some c)) steps w3) (sdp_close env (hd es)))" by blast
    show ?thesis
    proof (cases "re_link_many env (tl es)")
      case False
      with run cfg eq have "w' = w2" by simp
      with rel2 ms show ?thesis by simp
    next
      case True
      with run cfg eq obtain w4 where f: "rfold (sdp_step (Some c)) steps w3 = Inr w4"
        and cl: "sdp_close env (hd es) w4 = Inr (Some (r, s, w'))" by (auto simp: rbind_eq_Inr)
      from sdp_steps_spec [OF rel3 steps ms3] f obtain ci' where
        "stream_rel H w w4" "rw_stream w4 = Some (ms\<lparr>ms_codec_info := Some ci'\<rparr>)"
        "served (rw_queue w3) \<longrightarrow> served (rw_queue w4)" by fastforce
      from sdp_close_spec(1) [OF this(1) pl this(2) _ cl] ms sv3 this(3) show ?thesis by simp
    qed
  qed
qed

lemma make_sdp_inv:
  assumes "rtsp_inv H w" and "rw_stream w \<noteq> None" and "\<forall>st \<in> set steps. step_ok st"
    and "make_sdp env cfg steps w = Inr (Some (r, s, w'))"
  shows "rtsp_inv H w' \<and> rw_stream w' \<noteq> None"
  using make_sdp_rel [OF assms] rtsp_inv_rel [OF assms(1)] by auto

text \<open>A buffer of the playing stream, when its callback returns.\<close>

lemma play_need_data_rel:
  assumes inv: "rtsp_inv H w" and run: "play_need_data cfg nd w = Inr (Some w')"
  shows "stream_rel H w w' \<and> rw_stream w' = rw_stream w \<and> consumed ''live'' (rw_queue w) (rw_queue w')"
proof -
  have ok: "refs_ok w" and vq: "vq_inv H (rw_queue w)" using inv by (simp_all add: rtsp_inv_def)
  have upd: "stream_rel H w (w\<lparr>rw_queue := q\<rparr>)" if "vq_inv H q" "q_device_fps q = q_device_fps (rw_queue w)" for q
    using that refs_ext_refl [OF ok] by (simp add: stream_rel_def refs_ext_def)
  from run obtain c where cfg: "cfg = Some c" by (auto simp: play_need_data_def rbind_eq_Inr deref_def split: option.splits)
  show ?thesis
  proof (cases "nd_is_app_src nd")
    case False
    with run cfg stream_rel_refl [OF inv] show ?thesis by (simp add: play_need_data_def play_popped_def consumed_def)
  next
    case True
    from pop_inv [OF vq, of "''live''"] obtain r where r: "pop ''live'' (rw_queue w) = Inr r" by auto
    consider "r = None" | q where "r = Some (None, q)" | a q where "r = Some (Some a, q)"
      by (metis option.exhaust surj_pair)
    then show ?thesis
    proof cases
      case 1
      with run cfg True r show ?thesis by (simp add: play_need_data_def play_popped_def)
    next
      case 2
      with run cfg True r pop_inv [OF vq, of "''live''"] queue_fps(2) upd show ?thesis
        by (fastforce simp: play_need_data_def play_popped_def consumed_def)
    next
      case 3
      with taken_frame [OF vq] r obtain b q' where b: "read_buf a q = Inr b" "frame_ok b"
        and d: "delete_buf a q = Inr q'" "vq_inv H q'" "q_device_fps q' = q_device_fps (rw_queue w)"
        by metis
      have e1: "refs_ext w (w\<lparr>rw_queue := q\<rparr>)" using refs_ext_refl [OF ok] by (simp add: refs_ext_def)
      from push_frame_spec [OF b(2) e1, of nd "rw_frame_cnt w"] obtain p w2 where
        p: "push_frame nd b (rw_frame_cnt w) (w\<lparr>rw_queue := q\<rparr>) = Inr (p, w2)" "refs_ext w w2" "rw_queue w2 = q"
          "rw_stream w2 = rw_stream w" and pr: "p = None \<or> (\<exists>x. p = Some (x, nd_push nd) \<and> rw_refs w2 x = None)" by auto
      define inc where "inc = (case p of Some (_, True) \<Rightarrow>
          rbind (int_add (rw_frame_cnt w2) 1) (\<lambda>n. Inr (w2\<lparr>rw_frame_cnt := n\<rparr>))
        | Some (buffer, False) \<Rightarrow> gst_unref (Some buffer) w2 | None \<Rightarrow> Inr w2)"
      have "play_need_data cfg nd w = rbind inc (\<lambda>w3.
          rbind (delete_buf a (rw_queue w3)) (\<lambda>q2. Inr (Some (w3\<lparr>rw_queue := q2\<rparr>))))"
        using True r 3 b(1) p(1) cfg by (simp add: play_need_data_def play_popped_def inc_def)
      with run obtain w3 q2 where w3: "inc = Inr w3" "delete_buf a (rw_queue w3) = Inr q2" "w' = w3\<lparr>rw_queue := q2\<rparr>"
        by (auto simp: rbind_eq_Inr)
      have "w3 = w2 \<or> (\<exists>n. w3 = w2\<lparr>rw_frame_cnt := n\<rparr>)"
        using w3(1) pr by (auto simp: inc_def rbind_eq_Inr gst_unref_def split: bool.splits)
      with w3(2,3) p d have "stream_rel H w w' \<and> rw_stream w' = rw_stream w" by (auto simp: stream_rel_def refs_ext_def)
      moreover have "rw_queue w3 = q" using \<open>w3 = w2 \<or> _\<close> p(3) by auto
      with w3(2,3) r 3 have "consumed ''live'' (rw_queue w) (rw_queue w')" by (auto simp: consumed_def)
      ultimately show ?thesis by blast
    qed
  qed
qed

text \<open>
  Woken while its subscription stands, the callback does what it would do on entry; otherwise it faults.
\<close>

lemma play_resume_eq:
  assumes "rtsp_inv H w"
  shows "play_resume nd w =
    (if um_find (q_thread_info (rw_queue w)) ''live'' = None then Inl EndIterator
     else play_need_data (Some c) (nd\<lparr>nd_is_app_src := True\<rparr>) w)"
proof -
  let ?nd = "nd\<lparr>nd_is_app_src := True\<rparr>"
  have "nd_alloc ?nd = nd_alloc nd" "nd_map ?nd = nd_map nd" "nd_push ?nd = nd_push nd" by simp_all
  then have "push_frame ?nd b n v = push_frame nd b n v" for b n v by (simp only: push_frame_def)
  then have "play_popped (nd\<lparr>nd_is_app_src := True\<rparr>) w r = play_popped nd w r" for r
    by (simp only: play_popped_def)
  then have "play_popped (nd\<lparr>nd_is_app_src := True\<rparr>) w = play_popped nd w" by (rule ext)
  with pop_resume_eq [of H "rw_queue w" "''live''"] assms show ?thesis
    by (simp add: play_resume_def play_need_data_def rtsp_inv_def)
qed

lemma play_resume_rel:
  assumes inv: "rtsp_inv H w" and run: "play_resume nd w = Inr (Some w')"
  shows "stream_rel H w w' \<and> rw_stream w' = rw_stream w \<and> consumed ''live'' (rw_queue w) (rw_queue w')"
proof -
  obtain c :: "unit video_config" where "play_resume nd w =
    (if um_find (q_thread_info (rw_queue w)) ''live'' = None then Inl EndIterator
     else play_need_data (Some c) (nd\<lparr>nd_is_app_src := True\<rparr>) w)"
    using play_resume_eq [OF inv] by blast
  with run have "play_need_data (Some c) (nd\<lparr>nd_is_app_src := True\<rparr>) w = Inr (Some w')" by (simp split: if_splits)
  then show ?thesis by (rule play_need_data_rel [OF inv])
qed

text \<open>A description that exists is returned at once.\<close>

lemma make_sdp_cached:
  assumes "rw_stream w = Some ms" and "ms_sdp_str ms \<noteq> ''''" and "ms_codec_info ms = Some ci"
  shows "make_sdp env cfg steps w = Inr (Some (0, ms_sdp_str ms, w))"
proof -
  have "w\<lparr>rw_stream := Some (ms\<lparr>ms_codec_info := Some ci\<rparr>)\<rparr> = w" using assms by simp
  with assms show ?thesis by (simp add: make_sdp_def Let_def)
qed

text \<open>A first description, when nothing stands in its way.\<close>

lemma make_sdp_total:
  assumes inv: "rtsp_inv H w" and ms: "rw_stream w = Some ms" and new: "ms_sdp_str ms = ''''"
    and ci: "ms_codec_info ms = Some ci"
    and rate: "length (video_frame_rate c) < 2 ^ 64"
    and gst: "re_make env ''pipeline''" "\<forall>es. re_link_many env es" "bus_loop (re_bus env) \<noteq> None"
    and steps: "\<forall>st \<in> set steps. step_ok st"
    and cnt: "- (2 ^ 31) \<le> rw_cnt w" "rw_cnt w + int (length steps) < 2 ^ 31"
    and fps: "30 \<le> q_device_fps (rw_queue w)" "served (rw_queue w)"
  shows "\<exists>codec w'. gathered steps (Some ci) = Some codec \<and>
    make_sdp env (Some c) steps w = Inr (Some (0, live_sdp env ms codec, w')) \<and> stream_rel H w w' \<and>
    rw_stream w' = Some (ms\<lparr>ms_codec_info := Some codec, ms_sdp_str := live_sdp env ms codec\<rparr>) \<and>
    um_find (q_thread_info (rw_queue w')) ''sdp'' = None \<and> um_find (q_output (rw_queue w')) ''sdp'' = None"
proof -
  from frame_rate_parts_ok [OF rate] obtain pp where parts: "frame_rate_parts c = Inr pp" by blast
  from make_sdp_start [OF inv ms new parts, of env steps] gst(1,2) ci fps obtain es p w3 where
    rel3: "stream_rel H w w3" and ms3: "rw_stream w3 = Some (ms\<lparr>ms_codec_info := Some ci\<rparr>)"
    and cnt3: "rw_cnt w3 = rw_cnt w" "served (rw_queue w3)" and p: "hd es = Some p" "p < rw_next w3" "rw_refs w3 p = Some 1" "rw_next w \<le> p"
    and eq: "make_sdp env (Some c) steps w = rbind (rfold (sdp_step (Some c)) steps w3) (sdp_close env (hd es))"
    by (auto split: if_splits)
  have inv3: "rtsp_inv H w3" using rtsp_inv_rel [OF inv rel3] .
  have self: "stream_rel H w3 w3" using stream_rel_refl [OF inv3] .
  from sdp_steps_spec [OF self steps ms3] cnt cnt3 obtain w4 codec where
    f: "rfold (sdp_step (Some c)) steps w3 = Inr w4" and rel4: "stream_rel H w3 w4"
    and ms4: "rw_stream w4 = Some (ms\<lparr>ms_codec_info := Some codec\<rparr>)" by fastforce
  have g: "gathered steps (Some ci) = Some codec"
  proof -
    have "ms\<lparr>ms_codec_info := gathered steps (Some ci)\<rparr> = ms\<lparr>ms_codec_info := Some codec\<rparr>"
      using gathered_steps [OF self steps ms3 _ f] ms4 by simp
    from arg_cong [OF this, of ms_codec_info] show ?thesis by simp
  qed
  have p4: "rw_refs w4 p = Some 1" using rel4 p by (simp add: stream_rel_def refs_ext_def)
  have rel: "stream_rel H w w4"
    using rel3 rel4 refs_ext_trans unfolding stream_rel_def by auto
  have fresh: "\<forall>q. hd es = Some q \<longrightarrow> rw_next w \<le> q" using p by simp
  have c4: "ms_codec_info (ms\<lparr>ms_codec_info := Some codec\<rparr>) = Some codec" by simp
  note spec = sdp_close_spec [OF rel fresh ms4 c4]
  from spec(2) [OF p(1) p4 gst(3)] obtain r s w' where cl: "sdp_close env (hd es) w4 = Inr (Some (r, s, w'))"
    by auto
  have sdp: "live_sdp env (ms\<lparr>ms_codec_info := Some codec\<rparr>) codec = live_sdp env ms codec" by (simp add: live_sdp_def)
  note fin = spec(1) [OF cl, unfolded sdp]
  show ?thesis using eq f cl fin g by auto
qed

text \<open>Setting the stream up, and subscribing it.\<close>

lemma set_stream_ok:
  assumes inv: "rtsp_inv H w" and ms: "rw_stream w = Some ms" "ms_thread_info ms = None"
    and link: "\<forall>es. re_link_many env es"
  shows "\<exists>w' ti q p. set_stream env (Some c) w = Inr (0, w') \<and> refs_ok w' \<and>
    new_info \<lparr>ti_is_run = True, ti_fps = 30\<rparr> (rw_queue w) = (ti, q) \<and> rw_queue w' = q \<and>
    rw_stream w' = Some (ms\<lparr>ms_thread_info := Some ti, ms_rtp_info := (ms_rtp_info ms)\<lparr>rg_pipeline := p\<rparr>\<rparr>)"
proof -
  have ok: "refs_ok w" using inv by (simp add: rtsp_inv_def)
  obtain es w1 where mk: "gst_make_all env stream_elements w = (es, w1)" by fastforce
  note ext = gst_make_all_ext [OF ok mk] and fr = gst_make_all_frame [OF mk]
  obtain ti q where ni: "new_info \<lparr>ti_is_run = True, ti_fps = 30\<rparr> (rw_queue w) = (ti, q)" by fastforce
  define w2 where "w2 = gst_bin_add_many (tl es) (w1\<lparr>rw_queue := q, rw_stream := Some (ms\<lparr>ms_thread_info := Some ti\<rparr>)\<rparr>)"
  have len: "length es = 7" using fr(7) by (simp add: stream_elements_def)
  then have tl: "Some a \<in> set (tl es) \<Longrightarrow> Some a \<in> set es" for a by (cases es) auto
  have "refs_ext w (w1\<lparr>rw_queue := q, rw_stream := Some (ms\<lparr>ms_thread_info := Some ti\<rparr>)\<rparr>)"
    using ext(1) by (simp add: refs_ext_def)
  then have "refs_ext w w2" using bin_add_ext [of w _ "tl es"] ext(2) tl by (simp add: w2_def)
  then have ok2: "refs_ok w2" by (rule refs_ext_ok [OF ok])
  have "set_stream env (Some c) w = Inr (0, (snd (gst_set_state env (hd es) State_paused
      (gst_log (stream_wiring c ms es) w2)))\<lparr>rw_stream := Some (ms\<lparr>ms_thread_info := Some ti,
        ms_rtp_info := (ms_rtp_info ms)\<lparr>rg_pipeline := hd es\<rparr>\<rparr>)\<rparr>)" (is "_ = Inr (0, ?w')")
    using ms mk ni fr(1) link by (simp add: set_stream_def Let_def w2_def)
  moreover have "refs_ok ?w'"
    using ok2 by (rule refs_ok_cong [THEN iffD2, rotated 3]) simp_all
  moreover have "rw_queue ?w' = q" by (simp add: w2_def)
  ultimately show ?thesis using ni by auto
qed

lemma play_stream_ok:
  assumes q: "vq_inv H s" and ni: "new_info \<lparr>ti_is_run = True, ti_fps = 30\<rparr> s = (ti, q)"
    and w: "refs_ok w" "rw_queue w = q" "rw_stream w = Some ms" "ms_thread_info ms = Some ti"
  shows "\<exists>r w'. play_stream w = Inr (0, w') \<and> rtsp_inv H w' \<and> rw_stream w' = Some ms \<and>
    insert_event ''live'' (Some ti) q = Inr (r, rw_queue w')"
proof -
  have "divides_rate ''live'' 30 s" using vq_invD(1) [OF q] by (intro rate_divides) simp_all
  with insert_event_returns [OF q ni, of "''live''"] obtain r q2 where
    ie: "insert_event ''live'' (Some ti) q = Inr (r, q2)" "vq_inv H q2" by auto
  then have "rtsp_inv H (w\<lparr>rw_queue := q2\<rparr>)" using w(1) by (simp add: rtsp_inv_def refs_ok_def)
  with w ie show ?thesis by (simp add: play_stream_def)
qed

end
