(* ===== verification/Rtsp_File_Spec.thy ===== *)
theory Rtsp_File_Spec
  imports Rtsp_Spec
begin

text \<open>
  The file handler (\<open>src/rtsp/handler/gst_file/\<close>): its invariant, that every request which returns
  keeps it, what a successful SETUP leaves behind, and what follows for the requests after it.
\<close>

subsection \<open>The file handler's session object\<close>

lemma refs_ok_write:
  assumes "refs_ok w" and "rw_infos w a = Some i" and "rg_pipeline j = rg_pipeline i"
  shows "refs_ok (write_rtp_info a j w)"
  using assms unfolding refs_ok_def write_rtp_info_def by (auto split: if_splits)

lemma refs_ok_write_pipeline:
  assumes ok: "refs_ok w1" and ext: "refs_ext w1 w" and a: "rw_infos w a = Some i"
    and p: "rg_pipeline j = Some p" "rw_next w1 \<le> p" "rw_refs w p = Some 1"
  shows "refs_ok (write_rtp_info a j w)"
proof -
  have ok': "refs_ok w" using refs_ext_ok [OF ok ext] .
  have "rw_infos w = rw_infos w1" using ext by (simp add: refs_ext_def)
  then have new: "rg_pipeline k \<noteq> Some p" if "rw_infos w b = Some k" for b k
    using refs_ok_pipeline_old [OF ok, of b k p] that p(2) by auto
  have "a < rw_next w" using ok' a unfolding refs_ok_def by (metis linorder_not_le option.distinct(1))
  with ok' p new show ?thesis unfolding refs_ok_def write_rtp_info_def by auto
qed

lemma refs_ok_new_info:
  assumes "refs_ok w" and "new_info_gst i w = (a, w1)" and "rg_pipeline i = None"
  shows "refs_ok w1" and "rw_infos w1 = (rw_infos w)(a \<mapsto> i)" and "rw_queue w1 = rw_queue w"
    and "rw_stream w1 = rw_stream w" and "a < rw_next w1" and "rw_refs w1 = rw_refs w"
  using assms by (auto simp: new_info_gst_def refs_ok_def split: if_splits)

text \<open>The session object a SETUP has completed: both sockets and their peers are there.\<close>

definition sockets_there :: "rtp_session_info_gst \<Rightarrow> bool" where
  "sockets_there i \<longleftrightarrow>
     (case rg_session_info i of
        None \<Rightarrow> False
      | Some si \<Rightarrow> rs_rtp_socket si \<noteq> None \<and> rs_rtp_endpoint si \<noteq> None \<and>
          rs_rtcp_socket si \<noteq> None \<and> rs_rtcp_endpoint si \<noteq> None)"

lemma udp_setup_sockets:
  "udp_setup env addr ports si = Inr (pt, si') \<Longrightarrow> rg_session_info i = Some si' \<Longrightarrow> sockets_there i"
  by (auto simp: udp_setup_def sockets_there_def split: if_splits option.splits)

definition file_inv :: "addr set \<Rightarrow> gst_file \<Rightarrow> rtsp_world \<Rightarrow> bool" where
  "file_inv H h w \<longleftrightarrow> rtsp_inv H w \<and>
     (case gf_rtp_info h of None \<Rightarrow> True
      | Some a \<Rightarrow> \<exists>i. rw_infos w a = Some i \<and> sockets_there i)"

lemma file_invD: "file_inv H h w \<Longrightarrow> rtsp_inv H w" "file_inv H h w \<Longrightarrow> refs_ok w"
  by (simp_all add: file_inv_def rtsp_inv_def)

lemma file_info_old:
  assumes "file_inv H h w" and "gf_rtp_info h = Some a"
  shows "a < rw_next w"
proof -
  from assms obtain i where "rw_infos w a = Some i" by (auto simp: file_inv_def)
  with file_invD(2) [OF assms(1)] show ?thesis
    unfolding refs_ok_def by (metis linorder_not_le option.distinct(1))
qed

lemma gst_file_dtor_spec:
  assumes "file_inv H h w"
  shows "\<exists>w'. gst_file_dtor (h, w) = Inr w' \<and> rtsp_inv H w' \<and> rw_stream w' = rw_stream w \<and>
    rw_queue w' = rw_queue w \<and> rw_sent w' = rw_sent w \<and> fed w' = fed w \<and>
    (\<forall>a. gf_rtp_info h = Some a \<longrightarrow> rw_infos w' a = None)"
proof (cases "gf_rtp_info h")
  case None
  with assms show ?thesis by (simp add: gst_file_dtor_def file_inv_def)
next
  case (Some a)
  with assms obtain i where "rw_infos w a = Some i" by (auto simp: file_inv_def)
  from delete_info_spec [OF file_invD(2) [OF assms] this] obtain w' where
    d: "delete_info_gst a w = Inr w'" "refs_ok w'" "rw_infos w' = (rw_infos w)(a := None)"
      "w' = w\<lparr>rw_refs := rw_refs w', rw_infos := (rw_infos w)(a := None)\<rparr>" by blast
  have "rw_queue w' = rw_queue w" "rw_stream w' = rw_stream w" "rw_sent w' = rw_sent w" "fed w' = fed w"
    by (subst d(4), simp)+
  with d Some assms show ?thesis by (simp add: gst_file_dtor_def file_inv_def rtsp_inv_def)
qed

text \<open>DESCRIBE touches only objects of its own.\<close>

lemma file_describe_rel:
  assumes inv: "file_inv H h w"
    and run: "file_describe_request env path (h, w) = Inr (Some (r, s, h', w'))"
  shows "refs_ext w w' \<and> rw_queue w' = rw_queue w \<and> rw_stream w' = rw_stream w \<and> fed w' = fed w \<and>
    gf_rtp_info h' = gf_rtp_info h"
proof -
  note ok = file_invD(2) [OF inv]
  obtain sp where sp: "sdp_path_of path = Inr sp"
    using run by (auto simp: file_describe_request_def rbind_eq_Inr throw_uncaught_eq_Inr)
  show ?thesis
  proof (cases "open_in (re_can_open env) (resolve (re_cwd env) sp) (rw_fs w)")
    case (Some c)
    with run sp refs_ext_refl [OF ok] show ?thesis by (simp add: file_describe_request_def)
  next
    case None
    obtain es w1 where mk: "gst_make_all env describe_elements w = (es, w1)" by fastforce
    note ext = gst_make_all_ext [OF ok mk] and fr = gst_make_all_frame [OF mk]
    have len: "length es = 7" using fr(7) by (simp add: describe_elements_def)
    show ?thesis
    proof (cases "None \<in> set es")
      case True
      then obtain w2 where u: "rfold gst_unref es w1 = Inr w2" and eq: "w' = w2" "h' = h\<lparr>gf_codec_info := None\<rparr>"
        using run sp None mk by (auto simp: file_describe_request_def rbind_eq_Inr)
      have "rw_queue w2 = rw_queue w1 \<and> rw_stream w2 = rw_stream w1 \<and> fed w2 = fed w1"
        by (rule rfold_invariant [OF u]) (auto dest: gst_unref_frame(1,2,8))
      with unref_all_ext [OF u ext(1)] ext(2) eq fr show ?thesis by auto
    next
      case False
      define w3 where "w3 = snd (gst_set_state env (hd es) State_playing
        (gst_log (describe_wiring path (map the es)) (gst_bin_add_many (tl es) w1)))"
      have tl: "Some a \<in> set (tl es) \<Longrightarrow> Some a \<in> set es" for a using len by (cases es) auto
      have ext3: "refs_ext w w3" "rw_queue w3 = rw_queue w" "rw_stream w3 = rw_stream w" "fed w3 = fed w"
        using bin_add_ext [OF ext(1), of "tl es"] ext(2) tl fr by (simp_all add: w3_def refs_ext_def)
      define st where "st = \<lparr>ds_video_stream = es ! 3, ds_audio_stream = None\<rparr>"
      from run sp None mk False obtain w4 where pads: "rfold (demux_pad_added st) (re_pads env) w3 = Inr w4"
        and run4: "(case bus_loop (re_bus env) of None \<Rightarrow> Inr None
          | Some _ \<Rightarrow> rbind (gst_unref (hd es) w4) (\<lambda>w5.
              let codec = deliver_samples new_sample_callback (re_samples env) (Some new_codec_info);
                  (ret, sdp, w6) = describe_finish env (resolve (re_cwd env) sp) (the codec) w5 in
              Inr (Some (ret, sdp, h\<lparr>gf_codec_info := codec\<rparr>, w6)))) = Inr (Some (r, s, h', w'))"
        by (auto simp: file_describe_request_def rbind_eq_Inr Let_def w3_def st_def)
      then obtain w5 where u: "gst_unref (hd es) w4 = Inr w5"
        by (auto simp: rbind_eq_Inr split: option.splits)
      define codec where "codec = deliver_samples new_sample_callback (re_samples env) (Some new_codec_info)"
      obtain r0 s0 w6 where f0: "describe_finish env (resolve (re_cwd env) sp) (the codec) w5 = (r0, s0, w6)"
        by (cases "describe_finish env (resolve (re_cwd env) sp) (the codec) w5") auto
      with run4 u have f: "describe_finish env (resolve (re_cwd env) sp) (the codec) w5 = (r, s, w')"
        and h': "gf_rtp_info h' = gf_rtp_info h"
        by (auto simp: codec_def Let_def split: option.splits)
      note p = demux_pads_ext [OF pads ext3(1)]
      have "hd es = None \<or> (\<exists>a. hd es = Some a \<and> rw_next w \<le> a)"
        using ext(2) len by (cases es; cases "hd es") auto
      with gst_unref_ext [OF _ _ u] p have "refs_ext w w5" by blast
      moreover have "rw_queue w5 = rw_queue w" "rw_stream w5 = rw_stream w" "fed w5 = fed w"
        using gst_unref_frame(1,2,8) [OF u] p ext3(2-4) by simp_all
      moreover from f have "w' = w5 \<or> (\<exists>fs. w' = w5\<lparr>rw_fs := fs\<rparr>)"
        by (auto simp: describe_finish_def Let_def split: option.splits)
      ultimately show ?thesis using h' by (auto simp: refs_ext_def)
    qed
  qed
qed

lemma file_describe_inv:
  assumes inv: "file_inv H h w"
    and run: "file_describe_request env path (h, w) = Inr (Some (r, s, h', w'))"
  shows "file_inv H h' w'"
  using file_describe_rel [OF inv run] inv refs_ext_ok [OF file_invD(2) [OF inv]]
  by (auto simp: file_inv_def rtsp_inv_def refs_ext_def split: option.splits)

text \<open>SETUP: the new session object, the elements, and the rest of the request over them.\<close>

definition setup_finish ::
  "rtsp_env \<Rightarrow> string \<Rightarrow> string \<Rightarrow> string \<Rightarrow> gst_file \<Rightarrow> addr \<Rightarrow> addr option list \<Rightarrow> rtsp_world \<Rightarrow> gst_file reply" where
  "setup_finish env path client_addr client_port h1 a es w2 =
     (if None \<in> set es then
        rbind (rfold gst_unref es w2) (\<lambda>w3.
        rbind (delete_info_gst a w3) (\<lambda>w4. Inr (Some (1, '''', h1\<lparr>gf_rtp_info := None\<rparr>, w4))))
      else
        let pipeline = hd es;
            w3 = gst_log (setup_wiring path (map the es)) (gst_bin_add_many (tl es) w2) in
        rbind (throw_uncaught (udp_setup env client_addr (scan_ports client_port (re_junk_ports env))
                 new_session_info)) (\<lambda>(port, si).
        let i = new_rtp_info\<lparr>rg_session_info := Some si\<rparr>;
            w4 = gst_log [Set_int (the (es ! 9)) ''port'' (uint port + 1)] (write_rtp_info a i w3);
            (ok, w5) = gst_set_state env pipeline State_paused w4 in
        if \<not> ok then
          rbind (gst_unref pipeline w5) (\<lambda>w6. Inr (Some (1, server_ports port, h1, w6)))
        else
          Inr (Some (0, server_ports port, h1, write_rtp_info a (i\<lparr>rg_pipeline := pipeline\<rparr>) w5))))"

lemma file_setup_start:
  assumes inv: "file_inv H h w"
  shows "\<exists>a es w1 w2 i0. rtsp_inv H w1 \<and> refs_ext w1 w2 \<and> rw_queue w2 = rw_queue w1 \<and>
    rw_stream w2 = rw_stream w \<and> length es = 10 \<and> rw_infos w1 a = Some i0 \<and> rg_pipeline i0 = None \<and>
    ((\<forall>f. re_make env f) \<longrightarrow> None \<notin> set es) \<and> distinct [p. Some p \<leftarrow> es] \<and>
    (\<forall>p. Some p \<in> set es \<longrightarrow> rw_next w1 \<le> p \<and> rw_refs w2 p = Some 1) \<and>
    (\<forall>p. hd es = Some p \<longrightarrow> Some p \<notin> set (tl es)) \<and>
    file_setup_request env path client_addr client_port (h, w) =
      setup_finish env path client_addr client_port
        (h\<lparr>gf_rtp_info := Some a, gf_streams := Some \<lparr>ds_video_stream = es ! 3, ds_audio_stream = None\<rparr>\<rparr>) a es w2"
proof -
  from gst_file_dtor_spec [OF inv] obtain w0 where d: "gst_file_dtor (h, w) = Inr w0" "rtsp_inv H w0"
    "rw_stream w0 = rw_stream w" "rw_queue w0 = rw_queue w" by blast
  define i0 where "i0 = new_rtp_info\<lparr>rg_session_info := Some new_session_info\<rparr>"
  have i0: "rg_pipeline i0 = None" by (simp add: i0_def new_rtp_info_def)
  obtain a w1 where n: "new_info_gst i0 w0 = (a, w1)" by fastforce
  have "refs_ok w0" using d(2) by (simp add: rtsp_inv_def)
  note ni = refs_ok_new_info [OF this n i0]
  obtain es w2 where mk: "gst_make_all env setup_elements w1 = (es, w2)" by fastforce
  note ext = gst_make_all_ext [OF ni(1) mk] and fr = gst_make_all_frame [OF mk]
  have len: "length es = 10" using fr(7) by (simp add: setup_elements_def)
  have all: "(\<forall>f. re_make env f) \<Longrightarrow> gst_make_all env fs v = (es', v') \<Longrightarrow> None \<notin> set es'" for fs v es' v'
    by (induction fs arbitrary: v es' v') (auto simp: gst_make_def split: prod.splits)
  have "Some p \<notin> set (tl es)" if "hd es = Some p" for p
  proof -
    have "distinct [a. Some a \<leftarrow> es]" using gst_make_all_spec [OF mk] by blast
    moreover have "es = Some p # tl es" using that len by (cases es) auto
    ultimately have "distinct [a. Some a \<leftarrow> Some p # tl es]" by simp
    then show ?thesis by force
  qed
  moreover have "file_setup_request env path client_addr client_port (h, w) =
      setup_finish env path client_addr client_port
        (h\<lparr>gf_rtp_info := Some a, gf_streams := Some \<lparr>ds_video_stream = es ! 3, ds_audio_stream = None\<rparr>\<rparr>) a es w2"
    using d(1) n mk by (simp add: file_setup_request_def setup_finish_def i0_def Let_def)
  moreover have "rtsp_inv H w1" using d(2) ni by (simp add: rtsp_inv_def)
  moreover have "rw_infos w1 a = Some i0" using ni(2) by simp
  moreover have "rw_queue w2 = rw_queue w1" "rw_stream w2 = rw_stream w" using fr ni d by simp_all
  moreover have "(\<forall>f. re_make env f) \<longrightarrow> None \<notin> set es" using all [OF _ mk] by blast
  moreover have "distinct [p. Some p \<leftarrow> es]" using gst_make_all_spec [OF mk] by blast
  ultimately show ?thesis using ext len i0 by blast
qed

lemma file_setup_inv:
  assumes inv: "file_inv H h w"
    and run: "file_setup_request env path addr port (h, w) = Inr (Some (r, s, h', w'))"
  shows "file_inv H h' w'"
proof -
  from file_setup_start [OF inv, of env path addr port] obtain a es w1 w2 i0 where
    inv1: "rtsp_inv H w1" and ext: "refs_ext w1 w2" and q: "rw_queue w2 = rw_queue w1" and len: "length es = 10"
    and i0: "rw_infos w1 a = Some i0" "rg_pipeline i0 = None"
    and fresh: "\<forall>p. Some p \<in> set es \<longrightarrow> rw_next w1 \<le> p \<and> rw_refs w2 p = Some 1"
    and hd: "\<forall>p. hd es = Some p \<longrightarrow> Some p \<notin> set (tl es)"
    and eq: "file_setup_request env path addr port (h, w) = setup_finish env path addr port
        (h\<lparr>gf_rtp_info := Some a, gf_streams := Some \<lparr>ds_video_stream = es ! 3, ds_audio_stream = None\<rparr>\<rparr>) a es w2"
    by blast
  have ok1: "refs_ok w1" using inv1 by (simp add: rtsp_inv_def)
  have keep: "file_inv H h' w'" if "refs_ok w'" "rw_queue w' = rw_queue w1"
    "\<forall>b. gf_rtp_info h' = Some b \<longrightarrow> (\<exists>i. rw_infos w' b = Some i \<and> sockets_there i)"
    using that inv1 by (auto simp: file_inv_def rtsp_inv_def split: option.split)
  show ?thesis
  proof (cases "None \<in> set es")
    case True
    with run eq obtain w3 w4 where u: "rfold gst_unref es w2 = Inr w3" and d: "delete_info_gst a w3 = Inr w4"
      and eq': "w' = w4" "gf_rtp_info h' = None"
      by (auto simp: setup_finish_def rbind_eq_Inr)
    have ext3: "refs_ext w1 w3" using unref_all_ext [OF u ext] fresh by blast
    have q3: "rw_queue w3 = rw_queue w2" by (rule rfold_invariant [OF u]) (auto dest: gst_unref_frame(1))
    have "rw_infos w3 a = Some i0" using ext3 i0 by (simp add: refs_ext_def)
    from delete_info_spec [OF refs_ext_ok [OF ok1 ext3] this] d have "refs_ok w4" by auto
    moreover have "rw_queue w4 = rw_queue w3"
      using d \<open>rw_infos w3 a = Some i0\<close> i0(2) by (auto simp: delete_info_gst_def gst_unref_def)
    ultimately show ?thesis using eq' q q3 by (intro keep) auto
  next
    case False
    define w3 where "w3 = gst_log (setup_wiring path (map the es)) (gst_bin_add_many (tl es) w2)"
    from run eq False obtain pt si where
      udp: "udp_setup env addr (scan_ports port (re_junk_ports env)) new_session_info = Inr (pt, si)"
      by (auto simp: setup_finish_def rbind_eq_Inr throw_uncaught_eq_Inr Let_def)
    obtain p where p: "hd es = Some p" "Some p \<in> set es" using False len by (cases es; cases "hd es") auto
    have tl: "Some b \<in> set (tl es) \<Longrightarrow> Some b \<in> set es" for b using len by (cases es) auto
    have ext3: "refs_ext w1 w3" and q3: "rw_queue w3 = rw_queue w1"
      using bin_add_ext [OF ext, of "tl es"] fresh tl q by (simp_all add: w3_def)
    have p3: "rw_refs w3 p = Some 1"
      using fresh p hd by (auto simp: w3_def gst_bin_add_many_def fold_clear dest: set_takeWhileD)
    define i where "i = new_rtp_info\<lparr>rg_session_info := Some si\<rparr>"
    define w4 where "w4 = gst_log [Set_int (the (es ! 9)) ''port'' (uint pt + 1)] (write_rtp_info a i w3)"
    define w5 where "w5 = snd (gst_set_state env (hd es) State_paused w4)"
    have up: "sockets_there i" "sockets_there (i\<lparr>rg_pipeline := hd es\<rparr>)"
      by (rule udp_setup_sockets [OF udp], simp add: i_def)+
    have a3: "rw_infos w3 a = Some i0" using ext3 i0 by (simp add: refs_ext_def)
    have ok4: "refs_ok (write_rtp_info a i w3)"
      by (rule refs_ok_write [OF refs_ext_ok [OF ok1 ext3] a3]) (simp add: i_def new_rtp_info_def i0)
    have w5: "rw_refs w5 = rw_refs w3" "rw_infos w5 = (rw_infos w3)(a \<mapsto> i)" "rw_next w5 = rw_next w3"
      "rw_queue w5 = rw_queue w1"
      using q3 by (simp_all add: w5_def w4_def write_rtp_info_def)
    have ok5: "refs_ok w5" using ok4 by (rule refs_ok_cong [THEN iffD2, rotated 3]) (simp_all add: w5_def w4_def)
    show ?thesis
    proof (cases "fst (gst_set_state env (hd es) State_paused w4)")
      case False
      with run eq udp \<open>None \<notin> set es\<close> obtain w6 where u: "gst_unref (hd es) w5 = Inr w6"
        and eq': "w' = w6" "gf_rtp_info h' = Some a"
        by (auto simp: setup_finish_def rbind_eq_Inr Let_def w3_def i_def w4_def w5_def split: prod.splits)
      have "w6 = w5\<lparr>rw_refs := (rw_refs w5)(p := None)\<rparr>" using u p3 w5 p by (simp add: gst_unref_def)
      moreover have "rg_pipeline k \<noteq> Some p" if "rw_infos w5 b = Some k" for b k
      proof (cases "b = a")
        case True
        with that w5 show ?thesis by (auto simp: i_def new_rtp_info_def)
      next
        case False
        with that w5 ext3 have "rw_infos w1 b = Some k" by (simp add: refs_ext_def)
        with refs_ok_pipeline_old [OF ok1 this, of p] fresh p(2) show ?thesis by auto
      qed
      ultimately have "refs_ok w6" using ok5 unfolding refs_ok_def by auto
      then show ?thesis using eq' w5 gst_unref_frame [OF u] up
        by (intro keep) auto
    next
      case True
      with run eq udp \<open>None \<notin> set es\<close> have eq': "w' = write_rtp_info a (i\<lparr>rg_pipeline := hd es\<rparr>) w5"
        "gf_rtp_info h' = Some a"
        by (auto simp: setup_finish_def Let_def w3_def i_def w4_def w5_def split: prod.splits)
      have "refs_ok (write_rtp_info a (i\<lparr>rg_pipeline := hd es\<rparr>) w3)"
        by (rule refs_ok_write_pipeline [OF ok1 ext3 a3, of _ p]) (use p p3 fresh in auto)
      then have "refs_ok w'"
        by (rule refs_ok_cong [THEN iffD2, rotated 3]) (simp_all add: eq' w5 write_rtp_info_def)
      then show ?thesis using eq' w5 up by (intro keep) (auto simp: write_rtp_info_def)
    qed
  qed
qed

text \<open>
  What SETUP does to the other session objects: nothing, but the object of an earlier SETUP is deleted and
  its address is not used again.
\<close>

lemma file_setup_frame:
  assumes inv: "file_inv H h w"
    and run: "file_setup_request env path addr port (h, w) = Inr (Some (r, s, h', w'))"
  shows "rw_next w \<le> rw_next w' \<and> rw_stream w' = rw_stream w \<and> rw_queue w' = rw_queue w \<and> fed w' = fed w \<and>
    gf_rtp_info h' \<in> {None, Some (rw_next w)} \<and>
    (\<forall>x < rw_next w. rw_infos w' x = (if gf_rtp_info h = Some x then None else rw_infos w x))"
proof -
  define R :: "rtsp_world \<Rightarrow> bool" where "R v \<longleftrightarrow> rw_next w \<le> rw_next v \<and> rw_stream v = rw_stream w \<and> rw_queue v = rw_queue w \<and>
    fed v = fed w \<and> (\<forall>x < rw_next w. rw_infos v x = (if gf_rtp_info h = Some x then None else rw_infos w x))" for v
  have "\<exists>w0. gst_file_dtor (h, w) = Inr w0 \<and> R w0 \<and> rw_next w0 = rw_next w"
  proof (cases "gf_rtp_info h")
    case None
    then show ?thesis by (simp add: gst_file_dtor_def R_def)
  next
    case (Some a)
    then obtain i where i: "rw_infos w a = Some i" using inv by (auto simp: file_inv_def)
    from delete_info_spec [OF file_invD(2) [OF inv] i] obtain w0 where d: "delete_info_gst a w = Inr w0"
      "rw_infos w0 = (rw_infos w)(a := None)" "w0 = w\<lparr>rw_refs := rw_refs w0, rw_infos := (rw_infos w)(a := None)\<rparr>"
      by blast
    have "rw_next w0 = rw_next w" "rw_stream w0 = rw_stream w" "rw_queue w0 = rw_queue w" "fed w0 = fed w"
      by (subst d(3), simp)+
    with d(1,2) Some show ?thesis by (auto simp: gst_file_dtor_def R_def)
  qed
  then obtain w0 where d: "gst_file_dtor (h, w) = Inr w0" and R0: "R w0" "rw_next w0 = rw_next w" by blast
  define i0 where "i0 = new_rtp_info\<lparr>rg_session_info := Some new_session_info\<rparr>"
  obtain w1 where n: "new_info_gst i0 w0 = (rw_next w, w1)" using R0(2) by (simp add: new_info_gst_def)
  obtain es w2 where mk: "gst_make_all env setup_elements w1 = (es, w2)" by fastforce
  have R2: "R w2"
    using n R0 gst_make_all_frame(1,2,5,8) [OF mk] gst_make_all_spec [OF mk] by (auto simp: new_info_gst_def R_def)
  have wr: "R (write_rtp_info (rw_next w) j v) = R v" for j v by (auto simp: R_def write_rtp_info_def)
  have log: "R (gst_log cs v) = R v" for cs v by (simp add: R_def)
  have bin: "R (gst_bin_add_many fs v) = R v" for fs v by (simp add: R_def)
  have unref: "R v'" if "gst_unref obj v = Inr v'" "R v" for obj v v'
    using that(2) gst_unref_frame(1,2,5,6,8) [OF that(1)] by (simp add: R_def)
  have del: "R v'" if "delete_info_gst (rw_next w) v = Inr v'" "R v" for v v'
  proof -
    from that(1) obtain i :: rtp_session_info_gst and u where "gst_unref (rg_pipeline i) v = Inr u" and "v' = u\<lparr>rw_infos := (rw_infos u)(rw_next w := None)\<rparr>"
      by (auto simp: delete_info_gst_def rbind_eq_Inr split: option.splits)
    with unref that(2) show ?thesis by (auto simp: R_def)
  qed
  have all: "R v'" if "rfold gst_unref es w2 = Inr v'" for v'
    by (rule rfold_invariant [OF that, of R]) (use R2 unref in blast)+
  have "R w' \<and> gf_rtp_info h' \<in> {None, Some (rw_next w)}"
    using run R2
    by (cases "hd es") (auto simp: file_setup_request_def d n [unfolded i0_def] mk Let_def rbind_eq_Inr
        gst_set_state_def wr log bin dest: all del unref split: if_splits)
  then show ?thesis by (simp add: R_def)
qed

text \<open>A SETUP nothing goes wrong in.\<close>

lemma file_setup_ok:
  assumes inv: "file_inv H h w" and made: "\<forall>f. re_make env f"
    and udp: "udp_setup env addr (scan_ports port (re_junk_ports env)) new_session_info = Inr (pt, si)"
    and paused: "\<forall>p. re_set_state env p State_paused"
  shows "\<exists>a p h' w'. file_setup_request env path addr port (h, w) = Inr (Some (0, server_ports pt, h', w')) \<and>
    gf_rtp_info h' = Some a \<and> rw_refs w' p = Some 1 \<and> rw_stream w' = rw_stream w \<and>
    rw_infos w' a = Some (new_rtp_info\<lparr>rg_session_info := Some si, rg_pipeline := Some p\<rparr>)"
proof -
  from file_setup_start [OF inv, of env path addr port] obtain a es w1 w2 i0 where
    "rtsp_inv H w1" "refs_ext w1 w2" "rw_infos w1 a = Some i0"
    and len: "length es = 10" and none: "(\<forall>f. re_make env f) \<longrightarrow> None \<notin> set es"
    and st: "rw_stream w2 = rw_stream w"
    and fresh: "\<forall>p. Some p \<in> set es \<longrightarrow> rw_next w1 \<le> p \<and> rw_refs w2 p = Some 1"
    and hd: "\<forall>p. hd es = Some p \<longrightarrow> Some p \<notin> set (tl es)"
    and eq: "file_setup_request env path addr port (h, w) = setup_finish env path addr port
        (h\<lparr>gf_rtp_info := Some a, gf_streams := Some \<lparr>ds_video_stream = es ! 3, ds_audio_stream = None\<rparr>\<rparr>) a es w2"
    by blast
  have ne: "None \<notin> set es" using none made by blast
  then obtain p where p: "hd es = Some p" "Some p \<in> set es" using len by (cases es; cases "hd es") auto
  define w3 where "w3 = gst_log (setup_wiring path (map the es)) (gst_bin_add_many (tl es) w2)"
  have p3: "rw_refs w3 p = Some 1"
    using fresh p hd by (auto simp: w3_def gst_bin_add_many_def fold_clear dest: set_takeWhileD)
  have "rw_stream w3 = rw_stream w" using st by (simp add: w3_def)
  with eq p3 udp ne paused p(1) show ?thesis
    by (simp add: setup_finish_def Let_def w3_def [symmetric] gst_set_state_def write_rtp_info_def)
      (rule exI [of _ p], simp)
qed

subsection \<open>The RTP sink, PLAY, PAUSE, TEARDOWN\<close>

text \<open>A packet changes nothing but the session object it belongs to and what has been sent.\<close>

definition packet_rel :: "addr \<Rightarrow> rtsp_world \<Rightarrow> rtsp_world \<Rightarrow> bool" where
  "packet_rel a w w' \<longleftrightarrow> rw_refs w' = rw_refs w \<and> rw_next w' = rw_next w \<and> rw_queue w' = rw_queue w \<and>
     rw_stream w' = rw_stream w \<and> fed w' = fed w \<and> (\<forall>b. b \<noteq> a \<longrightarrow> rw_infos w' b = rw_infos w b) \<and>
     (\<forall>i. rw_infos w a = Some i \<and> sockets_there i \<longrightarrow>
        (\<exists>j. rw_infos w' a = Some j \<and> sockets_there j \<and> rg_pipeline j = rg_pipeline i))"

lemma packet_rel_refl: "packet_rel a w w"
  by (simp add: packet_rel_def)

lemma packet_rel_trans: "packet_rel a w w1 \<Longrightarrow> packet_rel a w1 w2 \<Longrightarrow> packet_rel a w w2"
  unfolding packet_rel_def by metis

lemma packet_rel_ok:
  assumes "packet_rel a w w'" and "refs_ok w" and "rw_infos w a = Some i" and "sockets_there i"
  shows "refs_ok w'"
proof -
  from assms obtain j where j: "rw_infos w' a = Some j" "rg_pipeline j = rg_pipeline i"
    unfolding packet_rel_def by blast
  have "refs_ok (write_rtp_info a j w)" by (rule refs_ok_write) (use assms j in auto)
  moreover have "rw_infos w' = (rw_infos w)(a \<mapsto> j)" using assms(1) j by (auto simp: packet_rel_def)
  ultimately show ?thesis
    using assms(1) refs_ok_cong [of w' "write_rtp_info a j w"] by (simp add: write_rtp_info_def packet_rel_def)
qed

lemma send_packet_frame:
  assumes "send_packet s e bytes w = Inr w'"
  shows "\<exists>out. w' = w\<lparr>rw_sent := out\<rparr>"
proof -
  have "\<exists>out. w = w\<lparr>rw_sent := out\<rparr>" by (rule exI [of _ "rw_sent w"]) simp
  with assms show ?thesis by (fastforce simp: send_packet_def rbind_eq_Inr split: if_splits)
qed

lemma record_first_spec:
  assumes "record_first buf i = Inr (Some j)"
  shows "rg_pipeline j = rg_pipeline i \<and> (sockets_there i \<longrightarrow> sockets_there j) \<and> \<not> rg_first j
    \<or> j = i"
  using assms by (auto simp: record_first_def rbind_eq_Inr sockets_there_def split: if_splits option.splits prod.splits)

lemma rtp_callback_rel:
  assumes "rtp_appsink_new_sample_callback a sample w = Inr (fl, w')"
  shows "packet_rel a w w'"
proof (cases sample)
  case None
  with assms show ?thesis by (simp add: rtp_appsink_new_sample_callback_def packet_rel_refl)
next
  case (Some buf)
  with assms obtain i r where i: "rw_infos w a = Some i" and r: "record_first buf i = Inr r"
    by (auto simp: rtp_appsink_new_sample_callback_def rbind_eq_Inr read_rtp_info_def split: option.splits)
  show ?thesis
  proof (cases r)
    case None
    with assms Some i r show ?thesis
      by (simp add: rtp_appsink_new_sample_callback_def read_rtp_info_def packet_rel_refl)
  next
    case (Some j)
    have j: "rg_pipeline j = rg_pipeline i" "sockets_there i \<longrightarrow> sockets_there j"
      using record_first_spec [of buf i j] r Some by auto
    have wj: "packet_rel a w (write_rtp_info a j w)"
      using i j by (auto simp: packet_rel_def write_rtp_info_def)
    have "w' = write_rtp_info a j w \<or> (\<exists>out. w' = (write_rtp_info a j w)\<lparr>rw_sent := out\<rparr>)"
      using assms \<open>sample = Some buf\<close> i r Some
      by (auto simp: rtp_appsink_new_sample_callback_def read_rtp_info_def rbind_eq_Inr Let_def
          dest: send_packet_frame split: option.splits)
    with wj show ?thesis by (auto simp: packet_rel_def)
  qed
qed

lemma wait_first_rel: "wait_first a bs w = Inr (Some w') \<Longrightarrow> packet_rel a w w'"
proof (induction bs arbitrary: w)
  case Nil
  then show ?case by (subst (asm) wait_first.simps) (auto simp: rbind_eq_Inr packet_rel_refl split: if_splits)
next
  case (Cons b bs)
  from Cons.prems obtain i where "w = w' \<or> (\<exists>fl w1. rtp_appsink_new_sample_callback a b w = Inr (fl, w1) \<and>
      wait_first a bs w1 = Inr (Some w'))"
    by (subst (asm) wait_first.simps) (auto simp: rbind_eq_Inr split: if_splits)
  with Cons.IH rtp_callback_rel packet_rel_trans packet_rel_refl show ?case by metis
qed

lemma file_inv_packet:
  assumes "file_inv H h w" and "gf_rtp_info h = Some a" and "packet_rel a w w'"
  shows "file_inv H h w'"
proof -
  from assms obtain i where i: "rw_infos w a = Some i" "sockets_there i" by (auto simp: file_inv_def)
  with packet_rel_ok [OF assms(3) file_invD(2) [OF assms(1)]] assms show ?thesis
    by (auto simp: file_inv_def rtsp_inv_def packet_rel_def)
qed

lemma set_state_rel: "gst_set_state env obj st w = (ok, w1) \<Longrightarrow> packet_rel a w w1"
  by (auto simp: gst_set_state_def packet_rel_def split: option.splits)

lemma file_play_rel:
  assumes run: "file_play_request env t (h, w) = Inr (Some (r, s, h', w'))"
  shows "h' = h \<and> (\<exists>a. gf_rtp_info h = Some a \<and> packet_rel a w w')"
proof -
  from run obtain a i where a: "gf_rtp_info h = Some a" and i: "rw_infos w a = Some i"
    by (auto simp: file_play_request_def rbind_eq_Inr deref_def read_rtp_info_def split: option.splits)
  obtain ok w1 where s: "gst_set_state env (rg_pipeline i) State_playing w = (ok, w1)" by fastforce
  have "h' = h \<and> (w' = w1 \<or> wait_first a (re_rtp env) w1 = Inr (Some w'))"
    using run a i s by (auto simp: file_play_request_def read_rtp_info_def rbind_eq_Inr
        split: if_splits option.splits)
  with a show ?thesis using set_state_rel [OF s] wait_first_rel packet_rel_trans by blast
qed

lemma file_pause_rel:
  assumes run: "file_pause_request env t (h, w) = Inr (Some (r, s, h', w'))"
  shows "h' = h \<and> (\<exists>a. gf_rtp_info h = Some a \<and> packet_rel a w w')"
proof -
  from run obtain a i where a: "gf_rtp_info h = Some a" and i: "rw_infos w a = Some i"
    by (auto simp: file_pause_request_def rbind_eq_Inr deref_def read_rtp_info_def split: option.splits)
  obtain ok w1 where s: "gst_set_state env (rg_pipeline i) State_paused w = (ok, w1)" by fastforce
  with run a i have "h' = h" "w' = w1" by (auto simp: file_pause_request_def read_rtp_info_def)
  with a set_state_rel [OF s] show ?thesis by blast
qed

lemma file_play_inv:
  "file_inv H h w \<Longrightarrow> file_play_request env t (h, w) = Inr (Some (r, s, h', w')) \<Longrightarrow> file_inv H h' w'"
  using file_play_rel file_inv_packet by blast

lemma file_pause_inv:
  "file_inv H h w \<Longrightarrow> file_pause_request env t (h, w) = Inr (Some (r, s, h', w')) \<Longrightarrow> file_inv H h' w'"
  using file_pause_rel file_inv_packet by blast

text \<open>
  A TEARDOWN that gets past the state change gives the pipeline up twice: the only one that returns is
  the one that fails, and it changes nothing.
\<close>

lemma file_teardown_cases:
  assumes inv: "file_inv H h w" and a: "gf_rtp_info h = Some a" and i: "rw_infos w a = Some i"
  shows "file_teardown_request env (h, w) =
    (case rg_pipeline i of
       None \<Rightarrow> Inr (Some (1, '''', h, w))
     | Some p \<Rightarrow>
        if \<not> re_set_state env p State_null then Inr (Some (1, '''', h, gst_log [Set_state p State_null] w))
        else Inl DoubleFree)"
proof (cases "rg_pipeline i")
  case None
  with a i show ?thesis by (simp add: file_teardown_request_def read_rtp_info_def gst_set_state_def)
next
  case (Some p)
  from refs_ok_pipeline_old [OF file_invD(2) [OF inv] i Some] have p: "rw_refs w p = Some (Suc 0)" by simp
  from inv a i have "sockets_there i" by (simp add: file_inv_def)
  with a i Some p show ?thesis
    by (auto simp: file_teardown_request_def read_rtp_info_def gst_set_state_def write_rtp_info_def sockets_there_def
        gst_unref_def delete_info_gst_def Let_def split: option.splits)
qed

lemma file_teardown_rel:
  assumes inv: "file_inv H h w" and run: "file_teardown_request env (h, w) = Inr (Some (r, s, h', w'))"
  shows "h' = h \<and> (\<exists>cs. w' = gst_log cs w)"
proof -
  from run obtain a i where a: "gf_rtp_info h = Some a" and i: "rw_infos w a = Some i"
    by (auto simp: file_teardown_request_def rbind_eq_Inr deref_def read_rtp_info_def split: option.splits)
  have "w = gst_log [] w" by (simp add: gst_log_def)
  with run show ?thesis unfolding file_teardown_cases [OF inv a i] by (auto split: option.splits if_splits)
qed

lemma file_teardown_inv:
  assumes inv: "file_inv H h w" and run: "file_teardown_request env (h, w) = Inr (Some (r, s, h', w'))"
  shows "file_inv H h' w'"
  using file_teardown_rel [OF inv run] inv by (auto simp: file_inv_def rtsp_inv_def split: option.splits)

end
