(* ===== verification/Rtsp_Contract.thy ===== *)
theory Rtsp_Contract
  imports Rtsp_File_Spec
begin

text \<open>
  What a session relies on in its handler (\<open>class RTSPSessionHandler\<close>), as a locale: OPTIONS answers
  the methods, a request that returns keeps the handler's invariant, and a handler can be destroyed.
  The lemmas about sessions are proved once from it; the file handler, the live handler and the virtual
  call that chooses between them are its interpretations.
\<close>

definition rtsp_methods :: string where
  "rtsp_methods = ''DESCRIBE, OPTIONS, SETUP, PLAY, TEARDOWN, PAUSE''"

locale rtsp_session_handler =
  fixes ops :: "'h handler_ops"
    and hinv :: "'h \<Rightarrow> rtsp_world \<Rightarrow> bool"
    and winv :: "rtsp_world \<Rightarrow> bool"
  assumes world_law: "hinv h w \<Longrightarrow> winv w"
    and option_law: "ho_option ops hw = Inr (Some (0, rtsp_methods, hw))"
    and describe_law: "hinv h w \<Longrightarrow> ho_describe ops p (h, w) = Inr (Some (r, s, h', w')) \<Longrightarrow> hinv h' w'"
    and setup_law: "hinv h w \<Longrightarrow> ho_setup ops p a c (h, w) = Inr (Some (r, s, h', w')) \<Longrightarrow> hinv h' w'"
    and play_law: "hinv h w \<Longrightarrow> ho_play ops t (h, w) = Inr (Some (r, s, h', w')) \<Longrightarrow> hinv h' w'"
    and pause_law: "hinv h w \<Longrightarrow> ho_pause ops t (h, w) = Inr (Some (r, s, h', w')) \<Longrightarrow> hinv h' w'"
    and teardown_law: "hinv h w \<Longrightarrow> ho_teardown ops (h, w) = Inr (Some (r, s, h', w')) \<Longrightarrow> hinv h' w'"
    and destroy_law: "hinv h w \<Longrightarrow> \<exists>w'. ho_destroy ops (h, w) = Inr (0, w') \<and> winv w'"

text \<open>A handler made for a session starts in its invariant.\<close>

locale rtsp_sessions = rtsp_session_handler +
  fixes make_handler :: "bool \<Rightarrow> rtsp_world \<Rightarrow> 'a \<times> rtsp_world"
  assumes make_law: "winv w \<Longrightarrow> make_handler live w = (h, w') \<Longrightarrow> hinv h w'"

text \<open>The invariant of a session: it is without a handler only before its first request.\<close>

definition sess_inv ::
  "('h \<Rightarrow> rtsp_world \<Rightarrow> bool) \<Rightarrow> (rtsp_world \<Rightarrow> bool) \<Rightarrow> 'h sess_state \<Rightarrow> bool" where
  "sess_inv hinv winv st \<longleftrightarrow>
     (case ss_session st of
        None \<Rightarrow> False
      | Some se \<Rightarrow>
         (case se_handler se of
            None \<Rightarrow> winv (ss_world st) \<and> se_url_path se = '''' \<and> se_file_path se = ''''
          | Some h \<Rightarrow> hinv h (ss_world st)))"

context rtsp_session_handler begin

lemma call_keeps:
  assumes "sess_inv hinv winv st"
    and law: "\<And>h w r s h' w'. hinv h w \<Longrightarrow> f (h, w) = Inr (Some (r, s, h', w')) \<Longrightarrow> hinv h' w'"
    and call: "call_handler f st = Inr (Some (r, s, st'))"
  shows "sess_inv hinv winv st' \<and> ss_path st' = ss_path st \<and> ss_sent st' = ss_sent st"
proof -
  from call obtain se h where "ss_session st = Some se" "se_handler se = Some h"
    by (auto simp: call_handler_def rbind_eq_Inr session_of_def deref_def split: option.splits)
  with assms(1) law call show ?thesis
    by (auto simp: call_handler_def session_of_def sbind_eq_Some sess_inv_def)
qed

lemma option_keeps:
  "hinv h w \<Longrightarrow> ho_option ops (h, w) = Inr (Some (r, s, h', w')) \<Longrightarrow> hinv h' w'"
  by (simp add: option_law)

lemma serve_keeps:
  assumes st: "sess_inv hinv winv st" and run: "serve ops conn req se st = Inr (Some (res, st'))"
  shows "sess_inv hinv winv st' \<and> ss_path st' = ss_path st \<and> ss_sent st' = ss_sent st"
proof (cases "rr_verb req = Verb_other")
  case True
  with assms show ?thesis by (simp add: serve_def)
next
  case False
  show ?thesis
  proof (cases "rr_verb req")
    case Verb_options
    with run obtain r s where c: "call_handler (ho_option ops) st = Inr (Some (r, s, st'))"
      by (auto simp: serve_def Let_def rbind_eq_Inr sbind_eq_Some)
    show ?thesis by (rule call_keeps [OF st _ c]) (blast intro: option_keeps)
  next
    case Verb_describe
    with run obtain r s where c: "call_handler (ho_describe ops (se_file_path se)) st = Inr (Some (r, s, st'))"
      by (auto simp: serve_def Let_def rbind_eq_Inr sbind_eq_Some)
    show ?thesis by (rule call_keeps [OF st _ c]) (blast intro: describe_law)
  next
    case Verb_setup
    with run obtain a c r s where c: "call_handler (ho_setup ops (se_file_path se) a c) st = Inr (Some (r, s, st'))"
      by (auto simp: serve_def Let_def rbind_eq_Inr sbind_eq_Some)
    show ?thesis by (rule call_keeps [OF st _ c]) (blast intro: setup_law)
  next
    case Verb_play
    with run obtain r s where c: "call_handler (ho_play ops (rr_field req ''Range'')) st = Inr (Some (r, s, st'))"
      by (auto simp: serve_def Let_def rbind_eq_Inr sbind_eq_Some)
    show ?thesis by (rule call_keeps [OF st _ c]) (blast intro: play_law)
  next
    case Verb_pause
    with run obtain r s where c: "call_handler (ho_pause ops (rr_field req ''Range'')) st = Inr (Some (r, s, st'))"
      by (auto simp: serve_def Let_def rbind_eq_Inr sbind_eq_Some)
    show ?thesis by (rule call_keeps [OF st _ c]) (blast intro: pause_law)
  next
    case Verb_teardown
    with run obtain r s where c: "call_handler (ho_teardown ops) st = Inr (Some (r, s, st'))"
      by (auto simp: serve_def Let_def rbind_eq_Inr sbind_eq_Some)
    show ?thesis by (rule call_keeps [OF st _ c]) (blast intro: teardown_law)
  qed (use False in simp)
qed

lemma destroy_returns:
  assumes "sess_inv hinv winv st"
  shows "\<exists>st'. destroy_session ops st = Inr st' \<and> ss_session st' = None \<and> winv (ss_world st') \<and>
    ss_sent st' = ss_sent st"
proof -
  from assms obtain se where se: "ss_session st = Some se" by (auto simp: sess_inv_def split: option.splits)
  show ?thesis
  proof (cases "se_handler se")
    case None
    with assms se show ?thesis by (simp add: destroy_session_def sess_inv_def)
  next
    case (Some h)
    with assms se have "hinv h (ss_world st)" by (simp add: sess_inv_def)
    from destroy_law [OF this] Some se show ?thesis by (auto simp: destroy_session_def)
  qed
qed

end

context rtsp_sessions begin

lemma open_keeps:
  assumes st: "sess_inv hinv winv st" and run: "open_session make_handler req st = Inr st'"
  shows "sess_inv hinv winv st' \<and> ss_sent st' = ss_sent st"
proof -
  from st obtain se where se: "ss_session st = Some se" by (auto simp: sess_inv_def split: option.splits)
  show ?thesis
  proof (cases "se_url_path se = '''' \<and> se_file_path se = ''''")
    case False
    with run se st show ?thesis by (simp add: open_session_def session_of_def)
  next
    case True
    from run True se obtain url where u: "url_path_of (rr_target req) = Inr url"
      by (auto simp: open_session_def session_of_def rbind_eq_Inr throw_uncaught_eq_Inr)
    obtain fl path where i: "um_index url '''' (ss_path st) = (fl, path)" by fastforce
    obtain h w where "make_handler (str_contains fl ''/dev'') (ss_world st) = (h, w)" by fastforce
    moreover from this run True se u i
    have "st' = st\<lparr>ss_session := Some (se\<lparr>se_url_path := url, se_file_path := fl, se_handler := Some h\<rparr>),
        ss_path := path, ss_world := w\<rparr>"
      by (simp add: open_session_def session_of_def)
    moreover have "winv (ss_world st)"
      using st se world_law by (auto simp: sess_inv_def split: option.splits)
    ultimately show ?thesis using make_law by (simp add: sess_inv_def)
  qed
qed

lemma read_keeps:
  assumes st: "sess_inv hinv winv st" and run: "read ops make_handler conn ret req st = Inr (Some (r, st'))"
  shows "sess_inv hinv winv st' \<and> r = ret"
proof -
  from run obtain st1 se res st2 where o: "open_session make_handler req st = Inr st1"
    and s: "serve ops conn req se st1 = Inr (Some (res, st2))" and r: "r = ret"
    and st': "st' = (case res of None \<Rightarrow> st2 | Some x \<Rightarrow> snd (write_rtsp conn x st2))"
    by (auto simp: read_def rbind_eq_Inr sbind_eq_Some)
  have "sess_inv hinv winv st2" using serve_keeps [OF _ s] open_keeps [OF st o] by blast
  then have "sess_inv hinv winv st'"
    by (cases "ss_session st2") (auto simp: st' sess_inv_def write_rtsp_def split: option.split)
  with r show ?thesis by simp
qed

lemma run_keeps:
  assumes "sess_inv hinv winv st" and "cn_open conn" and "run ops make_handler conn events st = Inr (Some st')"
  shows "sess_inv hinv winv st'"
  using assms
proof (induction events arbitrary: st)
  case Nil
  then show ?case by (simp add: run_open)
next
  case (Cons e es)
  show ?case
  proof (cases e)
    case (Request junk req)
    with Cons.prems obtain ret st1 where r: "read ops make_handler conn junk req st = Inr (Some (ret, st1))"
      and rest: "if ret = 0 then run ops make_handler conn es st1 = Inr (Some st') else st' = st1"
      by (auto simp: run_open sbind_eq_Some split: if_splits)
    have "sess_inv hinv winv st1" using read_keeps [OF Cons.prems(1) r] by blast
    with Cons.IH [of st1] Cons.prems(2) rest show ?thesis by (auto split: if_splits)
  qed (use Cons.prems in \<open>auto simp: run_open split: if_splits\<close>)
qed

text \<open>
  A session's thread, from the accepted connection on: when it returns, the connection was open, the
  session object is gone and the system is in order.
\<close>

lemma handle_session_result:
  assumes w: "winv w" and run: "handle_session ops make_handler conn uuid events (path, w) = Inr (Some st)"
  shows "cn_open conn \<and> ss_session st = None \<and> winv (ss_world st)"
proof -
  from run obtain st0 st1 where b: "build_session conn uuid path w = Inr st0"
    and r: "Rtsp_Session.run ops make_handler conn events st0 = Inr (Some st1)"
    and d: "destroy_session ops st1 = Inr st"
    by (auto simp: handle_session_def rbind_eq_Inr sbind_eq_Some)
  have i0: "sess_inv hinv winv st0" and se: "ss_session st0 = Some (new_session uuid)"
    using b w by (auto simp: build_session_def sess_inv_def new_session_def split: if_splits)
  have "cn_open conn"
  proof (rule ccontr)
    assume "\<not> cn_open conn"
    with r d se show False
      by (auto simp: run_closed rbind_eq_Inr destroy_session_def split: option.splits)
  qed
  with destroy_returns [OF run_keeps [OF i0 this r]] d show ?thesis by auto
qed

text \<open>A connection that is closed already is destroyed by \<open>run\<close> and again by its caller.\<close>

lemma closed_session:
  assumes "cn_linger_ok conn" and "\<not> cn_open conn"
  shows "handle_session ops make_handler conn uuid events (path, w) = Inl DoubleFree"
  using assms
  by (simp add: handle_session_def run_closed build_session_def new_session_def destroy_session_def)

end

subsection \<open>Virtual calls\<close>

locale two_handlers =
  f: rtsp_session_handler fops finv winv + l: rtsp_session_handler lops linv winv
  for fops :: "'f handler_ops" and finv :: "'f \<Rightarrow> rtsp_world \<Rightarrow> bool" and winv :: "rtsp_world \<Rightarrow> bool"
    and lops :: "'l handler_ops" and linv :: "'l \<Rightarrow> rtsp_world \<Rightarrow> bool"

lemma dispatch_Some:
  "dispatch f l (h, w) = Inr (Some (r, s, h', w')) \<longleftrightarrow>
    (case h of
       Inl x \<Rightarrow> (\<exists>x'. h' = Inl x' \<and> f (x, w) = Inr (Some (r, s, x', w')))
     | Inr x \<Rightarrow> (\<exists>x'. h' = Inr x' \<and> l (x, w) = Inr (Some (r, s, x', w'))))"
  by (cases h) (auto simp: dispatch_def reply_map_def sbind_eq_Some)

sublocale two_handlers \<subseteq> v: rtsp_session_handler "virtual_ops fops lops" "case_sum finv linv" winv
proof
  fix hw :: "('f + 'l) \<times> rtsp_world"
  show "ho_option (virtual_ops fops lops) hw = Inr (Some (0, rtsp_methods, hw))"
    by (cases hw; cases "fst hw")
      (auto simp: virtual_ops_def dispatch_def f.option_law l.option_law reply_map_def)
next
  fix h w and p a c t s :: string and r h' w'
  assume i: "case_sum finv linv h w"
  show "winv w" using i f.world_law l.world_law by (auto split: sum.splits)
  show "ho_describe (virtual_ops fops lops) p (h, w) = Inr (Some (r, s, h', w')) \<Longrightarrow> case_sum finv linv h' w'"
    using i f.describe_law l.describe_law by (cases h) (fastforce simp: virtual_ops_def dispatch_Some)+
  show "ho_setup (virtual_ops fops lops) p a c (h, w) = Inr (Some (r, s, h', w')) \<Longrightarrow> case_sum finv linv h' w'"
    using i f.setup_law l.setup_law by (cases h) (fastforce simp: virtual_ops_def dispatch_Some)+
  show "ho_play (virtual_ops fops lops) t (h, w) = Inr (Some (r, s, h', w')) \<Longrightarrow> case_sum finv linv h' w'"
    using i f.play_law l.play_law by (cases h) (fastforce simp: virtual_ops_def dispatch_Some)+
  show "ho_pause (virtual_ops fops lops) t (h, w) = Inr (Some (r, s, h', w')) \<Longrightarrow> case_sum finv linv h' w'"
    using i f.pause_law l.pause_law by (cases h) (fastforce simp: virtual_ops_def dispatch_Some)+
  show "ho_teardown (virtual_ops fops lops) (h, w) = Inr (Some (r, s, h', w')) \<Longrightarrow> case_sum finv linv h' w'"
    using i f.teardown_law l.teardown_law by (cases h) (fastforce simp: virtual_ops_def dispatch_Some)+
  show "\<exists>w'. ho_destroy (virtual_ops fops lops) (h, w) = Inr (0, w') \<and> winv w'"
    using i f.destroy_law l.destroy_law by (cases h) (auto simp: virtual_ops_def)
qed

subsection \<open>The program's handlers\<close>

definition live_inv :: "addr set \<Rightarrow> stream_step list \<Rightarrow> gst_live \<Rightarrow> rtsp_world \<Rightarrow> bool" where
  "live_inv H steps h w \<longleftrightarrow> rtsp_inv H w \<and> rw_stream w \<noteq> None \<and> (\<forall>st \<in> set steps. step_ok st)"

text \<open>The states a session may start in.\<close>

definition boot_inv :: "addr set \<Rightarrow> stream_step list \<Rightarrow> rtsp_world \<Rightarrow> bool" where
  "boot_inv H steps w \<longleftrightarrow> rtsp_inv H w \<and> (\<forall>st \<in> set steps. step_ok st)"

definition session_file_inv :: "addr set \<Rightarrow> stream_step list \<Rightarrow> gst_file \<Rightarrow> rtsp_world \<Rightarrow> bool" where
  "session_file_inv H steps h w \<longleftrightarrow> file_inv H h w \<and> (\<forall>st \<in> set steps. step_ok st)"

interpretation file_handler:
  rtsp_session_handler "file_ops env" "session_file_inv H steps" "boot_inv H steps" for env H steps
proof
  fix h w assume i: "session_file_inv H steps h w"
  then show "boot_inv H steps w" by (simp add: session_file_inv_def boot_inv_def file_inv_def)
  from i have fi: "file_inv H h w" by (simp add: session_file_inv_def)
  from gst_file_dtor_spec [OF fi] i show "\<exists>w'. ho_destroy (file_ops env) (h, w) = Inr (0, w') \<and> boot_inv H steps w'"
    by (auto simp: file_ops_def gst_file_destroy_def boot_inv_def session_file_inv_def)
qed (auto simp: file_ops_def file_option_request_def rtsp_methods_def session_file_inv_def
    dest: file_describe_inv file_setup_inv file_play_inv file_pause_inv file_teardown_inv)

lemma live_describe_inv:
  assumes "live_inv H steps h w" and "live_describe_request env cfg steps p (h, w) = Inr (Some (r, s, h', w'))"
  shows "live_inv H steps h' w'"
proof -
  from assms(2) have "make_sdp env cfg steps w = Inr (Some (r, s, w'))"
    by (auto simp: live_describe_request_def rbind_eq_Inr split: option.splits prod.splits)
  with make_sdp_inv assms(1) show ?thesis unfolding live_inv_def by blast
qed

interpretation live_handler:
  rtsp_session_handler "live_ops env cfg steps" "live_inv H steps" "boot_inv H steps" for env cfg H steps
proof
  fix hw show "ho_option (live_ops env cfg steps) hw = Inr (Some (0, rtsp_methods, hw))"
    by (simp add: live_ops_def live_option_request_def rtsp_methods_def)
next
  fix h w and p a c t s :: string and r h' w'
  assume i: "live_inv H steps h w"
  show "boot_inv H steps w" using i by (simp add: live_inv_def boot_inv_def)
  show "\<exists>w'. ho_destroy (live_ops env cfg steps) (h, w) = Inr (0, w') \<and> boot_inv H steps w'"
    using i by (simp add: live_ops_def gst_live_destroy_def live_inv_def boot_inv_def)
  show "ho_describe (live_ops env cfg steps) p (h, w) = Inr (Some (r, s, h', w')) \<Longrightarrow> live_inv H steps h' w'"
    using live_describe_inv [OF i] by (simp add: live_ops_def)
  show "ho_setup (live_ops env cfg steps) p a c (h, w) = Inr (Some (r, s, h', w')) \<Longrightarrow> live_inv H steps h' w'"
    using i by (auto simp: live_ops_def live_setup_request_def rbind_eq_Inr)
  show "ho_play (live_ops env cfg steps) t (h, w) = Inr (Some (r, s, h', w')) \<Longrightarrow> live_inv H steps h' w'"
    using i by (auto simp: live_ops_def live_play_request_def)
  show "ho_pause (live_ops env cfg steps) t (h, w) = Inr (Some (r, s, h', w')) \<Longrightarrow> live_inv H steps h' w'"
    using i by (auto simp: live_ops_def live_pause_request_def)
  show "ho_teardown (live_ops env cfg steps) (h, w) = Inr (Some (r, s, h', w')) \<Longrightarrow> live_inv H steps h' w'"
    using i by (auto simp: live_ops_def live_teardown_request_def)
qed

interpretation both_handlers:
  two_handlers "file_ops env" "session_file_inv H steps" "boot_inv H steps" "live_ops env cfg steps" "live_inv H steps"
  for env cfg H steps ..

lemma make_rtsp_handler_inv:
  assumes "boot_inv H steps w" and "make_rtsp_handler live w = (h, w')"
  shows "case_sum (session_file_inv H steps) (live_inv H steps) h w'"
  using assms
  by (auto simp: make_rtsp_handler_def gst_file_ctor_def gst_live_ctor_def multicast_get_instance_def boot_inv_def
      session_file_inv_def file_inv_def live_inv_def rtsp_inv_def refs_ok_def split: if_splits option.splits)

interpretation rtsp: rtsp_sessions "rtsp_ops env cfg steps"
    "case_sum (session_file_inv H steps) (live_inv H steps)" "boot_inv H steps" make_rtsp_handler
  for env cfg H steps
  unfolding rtsp_ops_def
  by unfold_locales (rule make_rtsp_handler_inv)

end
