(* ===== verification/Rtsp_System.thy ===== *)
theory Rtsp_System
  imports Rtsp_Contract
begin

text \<open>
  All RTSP sessions at once: a step relation whose steps are any session's next request, new and ending
  connections, the packets of any recording, the live stream's feeding, the camera and the
  distributor, and the invariant of its reachable states.

  A handler owns the session object it set up.  That a request leaves other handlers' objects alone is a
  second contract, the locale \<open>owned_sessions\<close>, which extends the one of \<open>Rtsp_Contract\<close>.
\<close>

subsection \<open>Ownership\<close>

text \<open>A step of the owner of \<open>A\<close>, after which it owns \<open>A'\<close>.\<close>

definition touches :: "addr set \<Rightarrow> rtsp_world \<Rightarrow> addr set \<Rightarrow> rtsp_world \<Rightarrow> bool" where
  "touches A w A' w' \<longleftrightarrow> rw_next w \<le> rw_next w' \<and> (rw_stream w \<noteq> None \<longrightarrow> rw_stream w' \<noteq> None) \<and>
     (\<forall>x < rw_next w. x \<notin> A \<longrightarrow> rw_infos w' x = rw_infos w x) \<and> (\<forall>x \<in> A'. x \<in> A \<or> rw_next w \<le> x)"

lemma touches_refl: "touches A w A w"
  by (simp add: touches_def)

lemma touches_trans:
  assumes "touches A w A1 w1" and "touches A1 w1 A2 w2"
  shows "touches A w A2 w2"
  using assms unfolding touches_def by (metis order.strict_trans2 order.trans linorder_not_le)

lemma touches_log [simp]: "touches A w A' (gst_log cs w') = touches A w A' w'"
  by (simp add: touches_def)

lemma touches_ext: "refs_ext w w' \<Longrightarrow> rw_stream w' = rw_stream w \<or> rw_stream w' \<noteq> None \<Longrightarrow> touches A w A w'"
  by (auto simp: touches_def refs_ext_def)

lemma touches_packet: "packet_rel a w w' \<Longrightarrow> touches {a} w {a} w'"
  by (auto simp: touches_def packet_rel_def)

locale owned_sessions =
  rtsp_sessions ops hinv winv make_handler
  for ops :: "'h handler_ops" and hinv :: "'h \<Rightarrow> rtsp_world \<Rightarrow> bool" and winv :: "rtsp_world \<Rightarrow> bool"
    and make_handler :: "bool \<Rightarrow> rtsp_world \<Rightarrow> 'h \<times> rtsp_world" +
  fixes own :: "'h \<Rightarrow> addr set"
  assumes own_old: "hinv h w \<Longrightarrow> x \<in> own h \<Longrightarrow> x < rw_next w"
    and stable: "hinv h w \<Longrightarrow> winv w' \<Longrightarrow> touches A w A' w' \<Longrightarrow> own h \<inter> A = {} \<Longrightarrow> hinv h w'"
    and make_frame: "winv w \<Longrightarrow> make_handler live w = (h, w') \<Longrightarrow> touches {} w (own h) w'"
    and option_frame: "hinv h w \<Longrightarrow> ho_option ops (h, w) = Inr (Some (r, s, h', w')) \<Longrightarrow> touches (own h) w (own h') w'"
    and describe_frame: "hinv h w \<Longrightarrow> ho_describe ops p (h, w) = Inr (Some (r, s, h', w')) \<Longrightarrow> touches (own h) w (own h') w'"
    and setup_frame: "hinv h w \<Longrightarrow> ho_setup ops p a c (h, w) = Inr (Some (r, s, h', w')) \<Longrightarrow> touches (own h) w (own h') w'"
    and play_frame: "hinv h w \<Longrightarrow> ho_play ops t (h, w) = Inr (Some (r, s, h', w')) \<Longrightarrow> touches (own h) w (own h') w'"
    and pause_frame: "hinv h w \<Longrightarrow> ho_pause ops t (h, w) = Inr (Some (r, s, h', w')) \<Longrightarrow> touches (own h) w (own h') w'"
    and teardown_frame: "hinv h w \<Longrightarrow> ho_teardown ops (h, w) = Inr (Some (r, s, h', w')) \<Longrightarrow> touches (own h) w (own h') w'"
    and destroy_frame: "hinv h w \<Longrightarrow> ho_destroy ops (h, w) = Inr (n, w') \<Longrightarrow> touches (own h) w {} w'"

text \<open>What a session owns through its handler.\<close>

definition sess_own :: "('h \<Rightarrow> addr set) \<Rightarrow> 'h rtsp_session option \<Rightarrow> addr set" where
  "sess_own own se = (case se of None \<Rightarrow> {} | Some s \<Rightarrow> (case se_handler s of None \<Rightarrow> {} | Some h \<Rightarrow> own h))"

context owned_sessions begin

lemma call_frame:
  assumes st: "sess_inv hinv winv st"
    and law: "\<And>h w r s h' w'. hinv h w \<Longrightarrow> f (h, w) = Inr (Some (r, s, h', w')) \<Longrightarrow> touches (own h) w (own h') w'"
    and call: "call_handler f st = Inr (Some (r, s, st'))"
  shows "touches (sess_own own (ss_session st)) (ss_world st) (sess_own own (ss_session st')) (ss_world st')"
proof -
  from call obtain se h where "ss_session st = Some se" "se_handler se = Some h"
    by (auto simp: call_handler_def rbind_eq_Inr session_of_def deref_def split: option.splits)
  with st law call show ?thesis
    by (auto simp: call_handler_def session_of_def sbind_eq_Some sess_inv_def sess_own_def)
qed

lemma serve_frame:
  assumes st: "sess_inv hinv winv st" and run: "serve ops conn req se st = Inr (Some (res, st'))"
  shows "touches (sess_own own (ss_session st)) (ss_world st) (sess_own own (ss_session st')) (ss_world st')"
proof -
  consider "st' = st" | r s where "call_handler (ho_option ops) st = Inr (Some (r, s, st'))"
    | r s p where "call_handler (ho_describe ops p) st = Inr (Some (r, s, st'))"
    | r s p a c where "call_handler (ho_setup ops p a c) st = Inr (Some (r, s, st'))"
    | r s t where "call_handler (ho_play ops t) st = Inr (Some (r, s, st'))"
    | r s t where "call_handler (ho_pause ops t) st = Inr (Some (r, s, st'))"
    | r s where "call_handler (ho_teardown ops) st = Inr (Some (r, s, st'))"
    using run by (cases "rr_verb req") (auto simp: serve_def Let_def rbind_eq_Inr sbind_eq_Some)
  then show ?thesis
  proof cases
    case 2 show ?thesis by (rule call_frame [OF st _ 2]) (rule option_frame)
  next
    case 3 show ?thesis by (rule call_frame [OF st _ 3]) (rule describe_frame)
  next
    case 4 show ?thesis by (rule call_frame [OF st _ 4]) (rule setup_frame)
  next
    case 5 show ?thesis by (rule call_frame [OF st _ 5]) (rule play_frame)
  next
    case 6 show ?thesis by (rule call_frame [OF st _ 6]) (rule pause_frame)
  next
    case 7 show ?thesis by (rule call_frame [OF st _ 7]) (rule teardown_frame)
  qed (simp add: touches_refl)
qed

lemma open_frame:
  assumes st: "sess_inv hinv winv st" and run: "open_session make_handler req st = Inr st'"
  shows "touches (sess_own own (ss_session st)) (ss_world st) (sess_own own (ss_session st')) (ss_world st')"
proof -
  from st obtain se where se: "ss_session st = Some se" by (auto simp: sess_inv_def split: option.splits)
  show ?thesis
  proof (cases "se_url_path se = '''' \<and> se_file_path se = ''''")
    case False
    with run se show ?thesis by (simp add: open_session_def session_of_def touches_refl)
  next
    case True
    from run True se obtain url where u: "url_path_of (rr_target req) = Inr url"
      by (auto simp: open_session_def session_of_def rbind_eq_Inr throw_uncaught_eq_Inr)
    obtain fl path where i: "um_index url '''' (ss_path st) = (fl, path)" by fastforce
    obtain h w where mk: "make_handler (str_contains fl ''/dev'') (ss_world st) = (h, w)" by fastforce
    have "winv (ss_world st)" using st se world_law by (auto simp: sess_inv_def split: option.splits)
    from make_frame [OF this mk] mk run True se u i show ?thesis
      by (auto simp: open_session_def session_of_def sess_own_def touches_def split: option.splits)
  qed
qed

lemma read_frame:
  assumes st: "sess_inv hinv winv st" and run: "read ops make_handler conn ret req st = Inr (Some (r, st'))"
  shows "touches (sess_own own (ss_session st)) (ss_world st) (sess_own own (ss_session st')) (ss_world st')"
proof -
  from run obtain st1 se res st2 where o: "open_session make_handler req st = Inr st1"
    and s: "serve ops conn req se st1 = Inr (Some (res, st2))"
    and st': "st' = (case res of None \<Rightarrow> st2 | Some x \<Rightarrow> snd (write_rtsp conn x st2))"
    by (auto simp: read_def rbind_eq_Inr sbind_eq_Some)
  have "sess_inv hinv winv st1" using open_keeps [OF st o] by blast
  from touches_trans [OF open_frame [OF st o] serve_frame [OF this s]]
  show ?thesis by (simp add: st' write_rtsp_def split: option.split)
qed

lemma destroy_session_frame:
  assumes st: "sess_inv hinv winv st" and run: "destroy_session ops st = Inr st'"
  shows "touches (sess_own own (ss_session st)) (ss_world st) {} (ss_world st')"
proof -
  from st obtain se where se: "ss_session st = Some se" by (auto simp: sess_inv_def split: option.splits)
  show ?thesis
  proof (cases "se_handler se")
    case None
    with run se show ?thesis by (auto simp: destroy_session_def touches_def)
  next
    case (Some h)
    with st se have "hinv h (ss_world st)" by (simp add: sess_inv_def)
    with destroy_frame Some run se show ?thesis
      by (fastforce simp: destroy_session_def rbind_eq_Inr sess_own_def)
  qed
qed

text \<open>A session nobody else's step touches keeps its invariant.\<close>

lemma other_session:
  assumes "sess_inv hinv winv st" and "ss_session st' = ss_session st" and "winv (ss_world st')"
    and "touches A (ss_world st) A' (ss_world st')" and "sess_own own (ss_session st) \<inter> A = {}"
  shows "sess_inv hinv winv st'"
proof -
  from assms(1) obtain se where "ss_session st = Some se" by (auto simp: sess_inv_def split: option.splits)
  with assms show ?thesis by (auto simp: sess_inv_def sess_own_def intro: stable split: option.splits)
qed

lemma sess_own_old: "sess_inv hinv winv st \<Longrightarrow> x \<in> sess_own own (ss_session st) \<Longrightarrow> x < rw_next (ss_world st)"
  by (auto simp: sess_inv_def sess_own_def intro: own_old split: option.splits)

lemma sess_inv_world: "sess_inv hinv winv st \<Longrightarrow> winv (ss_world st)"
  by (auto simp: sess_inv_def dest: world_law split: option.splits)

end

subsection \<open>The program's handlers\<close>

definition handler_own :: "gst_file + gst_live \<Rightarrow> addr set" where
  "handler_own = case_sum (\<lambda>h. set_option (gf_rtp_info h)) (\<lambda>_. {})"

lemma describe_touches:
  assumes "file_inv H h w" and "file_describe_request env path (h, w) = Inr (Some (r, s, h', w'))"
  shows "touches (set_option (gf_rtp_info h)) w (set_option (gf_rtp_info h')) w'"
  using file_describe_rel [OF assms] by (auto intro: touches_ext)

lemma setup_touches:
  assumes "file_inv H h w" and "file_setup_request env path addr port (h, w) = Inr (Some (r, s, h', w'))"
  shows "touches (set_option (gf_rtp_info h)) w (set_option (gf_rtp_info h')) w'"
  using file_setup_frame [OF assms] by (auto simp: touches_def split: if_splits)

lemma dtor_touches:
  assumes inv: "file_inv H h w" and run: "gst_file_dtor (h, w) = Inr w'"
  shows "touches (set_option (gf_rtp_info h)) w {} w'"
proof (cases "gf_rtp_info h")
  case None
  with run show ?thesis by (simp add: gst_file_dtor_def touches_def)
next
  case (Some a)
  then obtain i where i: "rw_infos w a = Some i" using inv by (auto simp: file_inv_def)
  from delete_info_spec [OF file_invD(2) [OF inv] i] run Some have
    "rw_infos w' = (rw_infos w)(a := None)" and e: "w' = w\<lparr>rw_refs := rw_refs w', rw_infos := (rw_infos w)(a := None)\<rparr>"
    by (auto simp: gst_file_dtor_def)
  moreover have "rw_next w' = rw_next w" "rw_stream w' = rw_stream w" by (subst e, simp)+
  ultimately show ?thesis using Some by (simp add: touches_def)
qed

lemma file_stable:
  assumes inv: "file_inv H h w" and w': "rtsp_inv H w'" and t: "touches A w A' w'"
    and own: "set_option (gf_rtp_info h) \<inter> A = {}"
  shows "file_inv H h w'"
proof (cases "gf_rtp_info h")
  case None
  with w' show ?thesis by (simp add: file_inv_def)
next
  case (Some a)
  with own have "a \<notin> A" by simp
  with t file_info_old [OF inv Some] have "rw_infos w' a = rw_infos w a" by (simp add: touches_def)
  with inv w' Some show ?thesis by (simp add: file_inv_def)
qed

lemma live_describe_touches:
  assumes "live_inv H steps h w" and "live_describe_request env cfg steps p (h, w) = Inr (Some (r, s, h', w'))"
  shows "touches {} w {} w'"
proof -
  from assms(2) have "make_sdp env cfg steps w = Inr (Some (r, s, w'))"
    by (auto simp: live_describe_request_def rbind_eq_Inr split: option.splits prod.splits)
  with assms(1) make_sdp_rel [of H w steps env cfg r s w'] show ?thesis
    by (auto simp: live_inv_def stream_rel_def intro: touches_ext)
qed

interpretation prog: owned_sessions "rtsp_ops env cfg steps"
    "case_sum (session_file_inv H steps) (live_inv H steps)" "boot_inv H steps" make_rtsp_handler handler_own
  for env cfg H steps
proof (unfold_locales, goal_cases)
  case (1 h w x)
  then show ?case by (auto simp: handler_own_def session_file_inv_def intro: file_info_old split: sum.splits)
next
  case (2 h w w' A A')
  then show ?case
  proof (cases h)
    case (Inl f)
    with 2 file_stable [of H f w w' A A'] show ?thesis
      by (simp add: handler_own_def session_file_inv_def boot_inv_def)
  next
    case (Inr l)
    with 2 show ?thesis by (auto simp: live_inv_def boot_inv_def touches_def)
  qed
next
  case (3 w live h w')
  then show ?case
    by (auto simp: make_rtsp_handler_def gst_live_ctor_def multicast_get_instance_def gst_file_ctor_def handler_own_def
        touches_def split: if_splits option.splits)
next
  case (4 h w r s h' w')
  then show ?case by (auto simp: rtsp.option_law touches_refl)
next
  case (5 h w p r s h' w')
  then show ?case
    by (auto simp: rtsp_ops_def virtual_ops_def dispatch_Some file_ops_def live_ops_def handler_own_def session_file_inv_def
        dest: describe_touches live_describe_touches split: sum.splits)
next
  case (6 h w p a c r s h' w')
  then show ?case
    by (auto simp: rtsp_ops_def virtual_ops_def dispatch_Some file_ops_def live_ops_def handler_own_def session_file_inv_def
        live_setup_request_def rbind_eq_Inr touches_refl dest: setup_touches split: sum.splits)
next
  case (7 h w t r s h' w')
  then show ?case
    by (auto simp: rtsp_ops_def virtual_ops_def dispatch_Some file_ops_def live_ops_def handler_own_def
        live_play_request_def touches_refl dest!: file_play_rel intro: touches_packet split: sum.splits)
next
  case (8 h w t r s h' w')
  then show ?case
    by (auto simp: rtsp_ops_def virtual_ops_def dispatch_Some file_ops_def live_ops_def handler_own_def
        live_pause_request_def touches_refl dest!: file_pause_rel intro: touches_packet split: sum.splits)
next
  case (9 h w r s h' w')
  then show ?case
    by (auto simp: rtsp_ops_def virtual_ops_def dispatch_Some file_ops_def live_ops_def handler_own_def session_file_inv_def
        live_teardown_request_def touches_refl dest: file_teardown_rel split: sum.splits)
next
  case (10 h w n w')
  then show ?case
    by (auto simp: rtsp_ops_def virtual_ops_def file_ops_def live_ops_def handler_own_def session_file_inv_def
        gst_file_destroy_def gst_live_destroy_def rbind_eq_Inr touches_refl dest: dtor_touches split: sum.splits)
qed

subsection \<open>The system\<close>

text \<open>The sessions by their numbers, and what they share.\<close>

record rtsp_system =
  sy_sessions :: "nat \<Rightarrow> (gst_file + gst_live) rtsp_session option"
  sy_path :: "(string, string) umap"
  sy_world :: rtsp_world
  sy_sent :: "rtsp_response list"

definition view :: "nat \<Rightarrow> rtsp_system \<Rightarrow> (gst_file + gst_live) sess_state" where
  "view k s = \<lparr>ss_session = sy_sessions s k, ss_path = sy_path s, ss_world = sy_world s, ss_sent = sy_sent s\<rparr>"

definition put_view :: "nat \<Rightarrow> (gst_file + gst_live) sess_state \<Rightarrow> rtsp_system \<Rightarrow> rtsp_system" where
  "put_view k st s =
     s\<lparr>sy_sessions := (sy_sessions s)(k := ss_session st), sy_path := ss_path st, sy_world := ss_world st,
       sy_sent := ss_sent st\<rparr>"

definition info_of :: "nat \<Rightarrow> rtsp_system \<Rightarrow> addr option" where
  "info_of k s =
     (case sy_sessions s k of
        None \<Rightarrow> None
      | Some se \<Rightarrow> (case se_handler se of Some (Inl h) \<Rightarrow> gf_rtp_info h | _ \<Rightarrow> None))"

text \<open>
  One step of some thread, if it returns: a connection is accepted, a session serves a request (with the
  connection and the value of \<open>ret\<close> it happens to have) or is destroyed, a packet of a recording arrives,
  the playing stream asks for a frame or resumes its wait for one, the camera pushes one, the distributor
  makes a round.
\<close>

inductive rtsp_step ::
  "rtsp_env \<Rightarrow> 'p video_config option \<Rightarrow> stream_step list \<Rightarrow> rtsp_system \<Rightarrow> rtsp_system \<Rightarrow> bool"
  for env cfg steps where
  Accept: "sy_sessions s k = None \<Longrightarrow>
    rtsp_step env cfg steps s (s\<lparr>sy_sessions := (sy_sessions s)(k \<mapsto> new_session uuid)\<rparr>)"
| Serve: "sy_sessions s k \<noteq> None \<Longrightarrow>
    read (rtsp_ops env cfg steps) make_rtsp_handler conn j req (view k s) = Inr (Some (r, st)) \<Longrightarrow>
    rtsp_step env cfg steps s (put_view k st s)"
| Destroy: "sy_sessions s k \<noteq> None \<Longrightarrow>
    destroy_session (rtsp_ops env cfg steps) (view k s) = Inr st \<Longrightarrow>
    rtsp_step env cfg steps s (put_view k st s)"
| Packet: "info_of k s = Some a \<Longrightarrow>
    rtp_appsink_new_sample_callback a sample (sy_world s) = Inr (fl, w) \<Longrightarrow>
    rtsp_step env cfg steps s (s\<lparr>sy_world := w\<rparr>)"
| Control: "info_of k s = Some a \<Longrightarrow>
    rtcp_appsink_new_sample_callback a sample (sy_world s) = Inr (fl, w) \<Longrightarrow>
    rtsp_step env cfg steps s (s\<lparr>sy_world := w\<rparr>)"
| Feed: "play_need_data cfg nd (sy_world s) = Inr (Some w) \<Longrightarrow>
    rtsp_step env cfg steps s (s\<lparr>sy_world := w\<rparr>)"
| Wake: "play_resume nd (sy_world s) = Inr (Some w) \<Longrightarrow>
    rtsp_step env cfg steps s (s\<lparr>sy_world := w\<rparr>)"
| Camera: "frame_ok b \<Longrightarrow> new_buf b (rw_queue (sy_world s)) = (a, q) \<Longrightarrow>
    rtsp_step env cfg steps s (s\<lparr>sy_world := (sy_world s)\<lparr>rw_queue := snd (push a q)\<rparr>\<rparr>)"
| Distributor: "distribute_round t (rw_queue (sy_world s)) = Inr q \<Longrightarrow>
    rtsp_step env cfg steps s (s\<lparr>sy_world := (sy_world s)\<lparr>rw_queue := q\<rparr>\<rparr>)"

inductive rtsp_reachable ::
  "rtsp_env \<Rightarrow> 'p video_config option \<Rightarrow> stream_step list \<Rightarrow> rtsp_system \<Rightarrow> rtsp_system \<Rightarrow> bool"
  for env cfg steps s0 where
  Start: "rtsp_reachable env cfg steps s0 s0"
| Step: "rtsp_reachable env cfg steps s0 s \<Longrightarrow> rtsp_step env cfg steps s s' \<Longrightarrow> rtsp_reachable env cfg steps s0 s'"

definition prog_inv :: "addr set \<Rightarrow> stream_step list \<Rightarrow> (gst_file + gst_live) sess_state \<Rightarrow> bool" where
  "prog_inv H steps = sess_inv (case_sum (session_file_inv H steps) (live_inv H steps)) (boot_inv H steps)"

definition system_inv :: "addr set \<Rightarrow> stream_step list \<Rightarrow> rtsp_system \<Rightarrow> bool" where
  "system_inv H steps s \<longleftrightarrow> boot_inv H steps (sy_world s) \<and>
     (\<forall>k. sy_sessions s k \<noteq> None \<longrightarrow> prog_inv H steps (view k s)) \<and>
     (\<forall>j k. j \<noteq> k \<longrightarrow> sess_own handler_own (sy_sessions s j) \<inter> sess_own handler_own (sy_sessions s k) = {})"

lemma view_simps [simp]:
  "ss_session (view k s) = sy_sessions s k" "ss_world (view k s) = sy_world s"
  by (simp_all add: view_def)

lemma info_of_own: "info_of k s = Some a \<Longrightarrow> a \<in> sess_own handler_own (sy_sessions s k)"
  by (auto simp: info_of_def sess_own_def handler_own_def split: option.splits sum.splits)

text \<open>A step of session \<open>k\<close>, or of the owner of one of its objects.\<close>

lemma session_step_inv:
  assumes inv: "system_inv H steps s"
    and t: "touches (sess_own handler_own (sy_sessions s k)) (sy_world s) (sess_own handler_own se) (sy_world s')"
    and se: "sy_sessions s' = (sy_sessions s)(k := se)" and w: "boot_inv H steps (sy_world s')"
    and k: "se \<noteq> None \<longrightarrow> prog_inv H steps (view k s')"
  shows "system_inv H steps s'"
proof -
  let ?own = "\<lambda>j. sess_own handler_own (sy_sessions s j)"
  have disj: "?own j \<inter> ?own k = {}" if "j \<noteq> k" for j using inv that by (simp add: system_inv_def)
  have other: "prog_inv H steps (view j s')" if j: "j \<noteq> k" "sy_sessions s j \<noteq> None" for j
  proof -
    have "prog_inv H steps (view j s)" using inv j(2) by (simp add: system_inv_def)
    then show ?thesis
      unfolding prog_inv_def by (rule prog.other_session) (use t w se j(1) disj in simp_all)
  qed
  have old: "x < rw_next (sy_world s)" if "x \<in> ?own j" for x j
  proof -
    from that have "sy_sessions s j \<noteq> None" by (auto simp: sess_own_def split: option.splits)
    with inv have "prog_inv H steps (view j s)" by (simp add: system_inv_def)
    from prog.sess_own_old [OF this [unfolded prog_inv_def]] that show ?thesis by simp
  qed
  have new: "?own j \<inter> sess_own handler_own se = {}" if "j \<noteq> k" for j
    using disj [OF that] t old by (force simp: touches_def)
  show ?thesis
    unfolding system_inv_def
  proof (intro conjI allI impI)
    show "boot_inv H steps (sy_world s')" by (rule w)
  next
    fix j assume "sy_sessions s' j \<noteq> None"
    then show "prog_inv H steps (view j s')" using k other se by (cases "j = k") auto
  next
    fix i j :: nat assume "i \<noteq> j"
    then show "sess_own handler_own (sy_sessions s' i) \<inter> sess_own handler_own (sy_sessions s' j) = {}"
      using new [of i] new [of j] inv by (cases "i = k"; cases "j = k") (simp_all add: se system_inv_def Int_commute)
  qed
qed

text \<open>A step of the threads that own no session object.\<close>

lemma shared_step_inv:
  assumes inv: "system_inv H steps s" and t: "touches {} (sy_world s) {} w" and w: "rtsp_inv H w"
  shows "system_inv H steps (s\<lparr>sy_world := w\<rparr>)"
proof -
  have b: "boot_inv H steps w" using inv w by (simp add: system_inv_def boot_inv_def)
  have "prog_inv H steps (view k (s\<lparr>sy_world := w\<rparr>))" if "sy_sessions s k \<noteq> None" for k
  proof -
    have "prog_inv H steps (view k s)" using inv that by (simp add: system_inv_def)
    then show ?thesis
      unfolding prog_inv_def by (rule prog.other_session [where A = "{}" and A' = "{}"]) (use t b in simp_all)
  qed
  with inv b show ?thesis by (simp add: system_inv_def)
qed

lemma packet_step_inv:
  assumes inv: "system_inv H steps s" and k: "info_of k s = Some a" and p: "packet_rel a (sy_world s) w"
  shows "system_inv H steps (s\<lparr>sy_world := w\<rparr>)"
proof -
  from k obtain se h where se: "sy_sessions s k = Some se" and h: "se_handler se = Some (Inl h)" "gf_rtp_info h = Some a"
    by (auto simp: info_of_def split: option.splits sum.splits)
  have pi: "prog_inv H steps (view k s)" using inv se by (simp add: system_inv_def)
  with se h have f: "file_inv H h (sy_world s)" by (simp add: prog_inv_def sess_inv_def session_file_inv_def)
  from file_inv_packet [OF f h(2) p] have f': "file_inv H h w" .
  have st: "\<forall>st \<in> set steps. step_ok st" using inv by (simp add: system_inv_def boot_inv_def)
  have own: "sess_own handler_own (sy_sessions s k) = {a}" using se h by (simp add: sess_own_def handler_own_def)
  show ?thesis
  proof (rule session_step_inv [OF inv])
    show "touches (sess_own handler_own (sy_sessions s k)) (sy_world s) (sess_own handler_own (sy_sessions s k))
        (sy_world (s\<lparr>sy_world := w\<rparr>))"
      using touches_packet [OF p] by (simp add: own)
    show "boot_inv H steps (sy_world (s\<lparr>sy_world := w\<rparr>))" using f' st by (simp add: boot_inv_def file_inv_def)
    show "sy_sessions s k \<noteq> None \<longrightarrow> prog_inv H steps (view k (s\<lparr>sy_world := w\<rparr>))"
      using se h f' st by (simp add: prog_inv_def sess_inv_def session_file_inv_def)
  qed simp
qed

lemma rtcp_callback_rel:
  assumes "rtcp_appsink_new_sample_callback a sample w = Inr (fl, w')"
  shows "packet_rel a w w'"
  using assms packet_rel_refl
  by (fastforce simp: rtcp_appsink_new_sample_callback_def rbind_eq_Inr packet_rel_def dest!: send_packet_frame
      split: option.splits)

lemma accept_step_inv:
  assumes inv: "system_inv H steps s" and k: "sy_sessions s k = None"
  shows "system_inv H steps (s\<lparr>sy_sessions := (sy_sessions s)(k \<mapsto> new_session uuid)\<rparr>)"
proof (rule session_step_inv [OF inv])
  let ?s = "s\<lparr>sy_sessions := (sy_sessions s)(k \<mapsto> new_session uuid)\<rparr>"
  show b: "boot_inv H steps (sy_world ?s)" using inv by (simp add: system_inv_def)
  then show "Some (new_session uuid) \<noteq> None \<longrightarrow> prog_inv H steps (view k ?s)"
    by (simp add: prog_inv_def sess_inv_def new_session_def)
  show "touches (sess_own handler_own (sy_sessions s k)) (sy_world s) (sess_own handler_own (Some (new_session uuid))) (sy_world ?s)"
    using k by (simp add: sess_own_def new_session_def touches_def)
qed simp

lemma rtsp_step_inv:
  assumes step: "rtsp_step env cfg steps s s'" and inv: "system_inv H steps s"
  shows "system_inv H steps s'"
  using step
proof cases
  case (Accept k uuid)
  then show ?thesis using accept_step_inv [OF inv] by simp
next
  case (Serve k conn j req r st)
  have pi: "prog_inv H steps (view k s)" using inv Serve(2) by (simp add: system_inv_def)
  note keep = rtsp.read_keeps [OF pi [unfolded prog_inv_def] Serve(3)]
    and frame = prog.read_frame [OF pi [unfolded prog_inv_def] Serve(3)]
  have st: "sy_sessions s' k = ss_session st" "sy_world s' = ss_world st" by (simp_all add: Serve(1) put_view_def)
  show ?thesis
  proof (rule session_step_inv [OF inv, where k = k and se = "ss_session st"])
    show "touches (sess_own handler_own (sy_sessions s k)) (sy_world s) (sess_own handler_own (ss_session st)) (sy_world s')"
      using frame by (simp add: st)
    show "sy_sessions s' = (sy_sessions s)(k := ss_session st)" by (simp add: Serve(1) put_view_def)
    show "boot_inv H steps (sy_world s')" using prog.sess_inv_world keep by (simp add: st)
    have "view k s' = st" by (simp add: view_def Serve(1) put_view_def)
    then show "ss_session st \<noteq> None \<longrightarrow> prog_inv H steps (view k s')" using keep by (simp add: prog_inv_def)
  qed
next
  case (Destroy k st)
  have pi: "prog_inv H steps (view k s)" using inv Destroy(2) by (simp add: system_inv_def)
  from rtsp.destroy_returns [OF pi [unfolded prog_inv_def], of env cfg] Destroy(3)
  have gone: "ss_session st = None" "boot_inv H steps (ss_world st)" by auto
  have st: "sy_sessions s' = (sy_sessions s)(k := ss_session st)" "sy_world s' = ss_world st"
    by (simp_all add: Destroy(1) put_view_def)
  show ?thesis
  proof (rule session_step_inv [OF inv _ st(1)])
    show "touches (sess_own handler_own (sy_sessions s k)) (sy_world s) (sess_own handler_own (ss_session st)) (sy_world s')"
      using prog.destroy_session_frame [OF pi [unfolded prog_inv_def] Destroy(3)] gone by (simp add: st sess_own_def)
  qed (use gone st in simp_all)
next
  case (Packet k a sample fl w)
  then show ?thesis using packet_step_inv [OF inv] rtp_callback_rel by blast
next
  case (Control k a sample fl w)
  then show ?thesis using packet_step_inv [OF inv] rtcp_callback_rel by blast
next
  case (Feed nd w)
  have r: "rtsp_inv H (sy_world s)" using inv by (simp add: system_inv_def boot_inv_def)
  from play_need_data_rel [OF r Feed(2)] have rel: "stream_rel H (sy_world s) w" "rw_stream w = rw_stream (sy_world s)"
    by simp_all
  then have "touches {} (sy_world s) {} w" by (auto simp: stream_rel_def intro: touches_ext)
  with shared_step_inv [OF inv] rtsp_inv_rel [OF r rel(1)] Feed(1) show ?thesis by simp
next
  case (Wake nd w)
  have r: "rtsp_inv H (sy_world s)" using inv by (simp add: system_inv_def boot_inv_def)
  from play_resume_rel [OF r Wake(2)] have rel: "stream_rel H (sy_world s) w" "rw_stream w = rw_stream (sy_world s)"
    by simp_all
  then have "touches {} (sy_world s) {} w" by (auto simp: stream_rel_def intro: touches_ext)
  with shared_step_inv [OF inv] rtsp_inv_rel [OF r rel(1)] Wake(1) show ?thesis by simp
next
  case (Camera b a q)
  have r: "rtsp_inv H (sy_world s)" using inv by (simp add: system_inv_def boot_inv_def)
  then have "vq_inv H (rw_queue (sy_world s))" by (simp add: rtsp_inv_def)
  note nb = new_buf_inv [OF this Camera(2,3)]
  from nb(2) have "insert a H - {a} = H" by simp
  with push_inv [OF nb(1), of a] have "vq_inv H (snd (push a q))" by simp
  moreover have "q_device_fps (snd (push a q)) = q_device_fps (rw_queue (sy_world s))"
    using Camera(3) by (auto simp: push_def new_buf_def)
  ultimately have "rtsp_inv H ((sy_world s)\<lparr>rw_queue := snd (push a q)\<rparr>)"
    using r by (simp add: rtsp_inv_def refs_ok_def)
  then show ?thesis using shared_step_inv [OF inv] Camera(1) by (simp add: touches_def)
next
  case (Distributor t q)
  have r: "rtsp_inv H (sy_world s)" using inv by (simp add: system_inv_def boot_inv_def)
  then have v: "vq_inv H (rw_queue (sy_world s))" by (simp add: rtsp_inv_def)
  from distribute_round_inv [OF this Distributor(2)] have "vq_inv H q" .
  with distribute_round_fps [OF Distributor(2)] v r have "rtsp_inv H ((sy_world s)\<lparr>rw_queue := q\<rparr>)"
    by (simp add: rtsp_inv_def refs_ok_def)
  then show ?thesis using shared_step_inv [OF inv] Distributor(1) by (simp add: touches_def)
qed

lemma rtsp_reachable_inv:
  assumes "rtsp_reachable env cfg steps s0 s" and "system_inv H steps s0"
  shows "system_inv H steps s"
  using assms by (induction rule: rtsp_reachable.induct) (auto intro: rtsp_step_inv)

end
