(* ===== verification/Rtsp_Quiet.thy ===== *)
theory Rtsp_Quiet
  imports Rtsp_System
begin

text \<open>
  What RTSP sessions do to the rest of the program: once the live stream is described, nothing.  The
  locale \<open>quiet_sessions\<close> lifts any reflexive and transitive relation that the operations of a handler keep to
  the requests and the end of a session; its interpretation \<open>quiet\<close> is about the frame queue.
\<close>

locale quiet_sessions =
  rtsp_sessions ops hinv winv make_handler
  for ops :: "'h handler_ops" and hinv :: "'h \<Rightarrow> rtsp_world \<Rightarrow> bool" and winv :: "rtsp_world \<Rightarrow> bool"
    and make_handler :: "bool \<Rightarrow> rtsp_world \<Rightarrow> 'h \<times> rtsp_world" +
  fixes rel :: "rtsp_world \<Rightarrow> rtsp_world \<Rightarrow> bool"
  assumes rel_refl: "rel w w"
    and rel_trans: "rel w w1 \<Longrightarrow> rel w1 w2 \<Longrightarrow> rel w w2"
    and make_rel: "make_handler live w = (h, w') \<Longrightarrow> rel w w'"
    and describe_rel: "hinv h w \<Longrightarrow> ho_describe ops p (h, w) = Inr (Some (r, s, h', w')) \<Longrightarrow> rel w w'"
    and setup_rel: "hinv h w \<Longrightarrow> ho_setup ops p a c (h, w) = Inr (Some (r, s, h', w')) \<Longrightarrow> rel w w'"
    and play_rel: "hinv h w \<Longrightarrow> ho_play ops t (h, w) = Inr (Some (r, s, h', w')) \<Longrightarrow> rel w w'"
    and pause_rel: "hinv h w \<Longrightarrow> ho_pause ops t (h, w) = Inr (Some (r, s, h', w')) \<Longrightarrow> rel w w'"
    and teardown_rel: "hinv h w \<Longrightarrow> ho_teardown ops (h, w) = Inr (Some (r, s, h', w')) \<Longrightarrow> rel w w'"
    and destroy_rel: "hinv h w \<Longrightarrow> ho_destroy ops (h, w) = Inr (n, w') \<Longrightarrow> rel w w'"

context quiet_sessions begin

lemma option_rel: "ho_option ops (h, w) = Inr (Some (r, s, h', w')) \<Longrightarrow> rel w w'"
  by (simp add: option_law rel_refl)

lemma call_rel:
  assumes st: "sess_inv hinv winv st"
    and law: "\<And>h w r s h' w'. hinv h w \<Longrightarrow> f (h, w) = Inr (Some (r, s, h', w')) \<Longrightarrow> rel w w'"
    and call: "call_handler f st = Inr (Some (r, s, st'))"
  shows "rel (ss_world st) (ss_world st')"
proof -
  from call obtain se h where "ss_session st = Some se" "se_handler se = Some h"
    by (auto simp: call_handler_def rbind_eq_Inr session_of_def deref_def split: option.splits)
  with st law call show ?thesis
    by (auto simp: call_handler_def session_of_def sbind_eq_Some sess_inv_def)
qed

lemma serve_rel:
  assumes st: "sess_inv hinv winv st" and run: "serve ops conn req se st = Inr (Some (res, st'))"
  shows "rel (ss_world st) (ss_world st')"
proof -
  consider "st' = st" | r s where "call_handler (ho_option ops) st = Inr (Some (r, s, st'))"
    | r s p where "call_handler (ho_describe ops p) st = Inr (Some (r, s, st'))"
    | r s p a c where "call_handler (ho_setup ops p a c) st = Inr (Some (r, s, st'))"
    | r s t where "call_handler (ho_play ops t) st = Inr (Some (r, s, st'))"
    | r s t where "call_handler (ho_pause ops t) st = Inr (Some (r, s, st'))"
    | r s where "call_handler (ho_teardown ops) st = Inr (Some (r, s, st'))"
    using run by (cases "rr_verb req") (auto simp: serve_def Let_def rbind_eq_Inr sbind_eq_Some)
  then show ?thesis
  proof cases
    case 2 show ?thesis by (rule call_rel [OF st _ 2]) (rule option_rel)
  next
    case 3 show ?thesis by (rule call_rel [OF st _ 3]) (rule describe_rel)
  next
    case 4 show ?thesis by (rule call_rel [OF st _ 4]) (rule setup_rel)
  next
    case 5 show ?thesis by (rule call_rel [OF st _ 5]) (rule play_rel)
  next
    case 6 show ?thesis by (rule call_rel [OF st _ 6]) (rule pause_rel)
  next
    case 7 show ?thesis by (rule call_rel [OF st _ 7]) (rule teardown_rel)
  qed (simp add: rel_refl)
qed

lemma open_rel:
  assumes "open_session make_handler req st = Inr st'"
  shows "rel (ss_world st) (ss_world st')"
proof -
  from assms obtain se where se: "session_of st = Inr se" by (auto simp: open_session_def rbind_eq_Inr)
  show ?thesis
  proof (cases "se_url_path se = '''' \<and> se_file_path se = ''''")
    case False
    with assms se show ?thesis by (simp add: open_session_def rel_refl)
  next
    case True
    with assms se obtain url where u: "url_path_of (rr_target req) = Inr url"
      by (auto simp: open_session_def rbind_eq_Inr throw_uncaught_eq_Inr)
    obtain fl path where i: "um_index url '''' (ss_path st) = (fl, path)" by fastforce
    obtain h w where mk: "make_handler (str_contains fl ''/dev'') (ss_world st) = (h, w)" by fastforce
    from make_rel [OF mk] assms se True u i mk show ?thesis by (auto simp: open_session_def)
  qed
qed

lemma read_rel:
  assumes st: "sess_inv hinv winv st" and run: "read ops make_handler conn ret req st = Inr (Some (r, st'))"
  shows "rel (ss_world st) (ss_world st')"
proof -
  from run obtain st1 se res st2 where o: "open_session make_handler req st = Inr st1"
    and s: "serve ops conn req se st1 = Inr (Some (res, st2))"
    and st': "st' = (case res of None \<Rightarrow> st2 | Some x \<Rightarrow> snd (write_rtsp conn x st2))"
    by (auto simp: read_def rbind_eq_Inr sbind_eq_Some)
  have "sess_inv hinv winv st1" using open_keeps [OF st o] by blast
  from rel_trans [OF open_rel [OF o] serve_rel [OF this s]]
  show ?thesis by (simp add: st' write_rtsp_def split: option.split)
qed

lemma destroy_session_rel:
  assumes st: "sess_inv hinv winv st" and run: "destroy_session ops st = Inr st'"
  shows "rel (ss_world st) (ss_world st')"
proof -
  from st obtain se where se: "ss_session st = Some se" by (auto simp: sess_inv_def split: option.splits)
  show ?thesis
  proof (cases "se_handler se")
    case None
    with run se show ?thesis by (auto simp: destroy_session_def rel_refl)
  next
    case (Some h)
    with st se have "hinv h (ss_world st)" by (simp add: sess_inv_def)
    with destroy_rel Some run se show ?thesis by (fastforce simp: destroy_session_def rbind_eq_Inr)
  qed
qed

end

text \<open>The stream has a description: \<open>make_sdp\<close> answers from it and does not subscribe again.\<close>

definition described :: "rtsp_world \<Rightarrow> bool" where
  "described w \<longleftrightarrow> (case rw_stream w of None \<Rightarrow> False | Some ms \<Rightarrow> ms_sdp_str ms \<noteq> '''')"

text \<open>The live stream subscribes at 30 frames per second, which a device at that rate or above can serve.\<close>

definition live_served :: "vqueue \<Rightarrow> bool" where
  "live_served q \<longleftrightarrow> 30 \<le> q_device_fps q \<and> served q"

definition undisturbed :: "rtsp_world \<Rightarrow> rtsp_world \<Rightarrow> bool" where
  "undisturbed w w' \<longleftrightarrow> (described w \<longrightarrow> described w' \<and> rw_queue w' = rw_queue w \<and> fed w' = fed w) \<and>
     (live_served (rw_queue w) \<longrightarrow> live_served (rw_queue w'))"

lemma undisturbed_same:
  "rw_stream w' = rw_stream w \<Longrightarrow> rw_queue w' = rw_queue w \<Longrightarrow> fed w' = fed w \<Longrightarrow> undisturbed w w'"
  by (simp add: undisturbed_def described_def)

lemma make_sdp_undisturbed:
  assumes run: "make_sdp env cfg steps w = Inr (Some (r, s, w'))"
    and inv: "rtsp_inv H w" "rw_stream w \<noteq> None" "\<forall>st \<in> set steps. step_ok st"
  shows "undisturbed w w'"
proof -
  from make_sdp_rel [OF inv run] have "live_served (rw_queue w) \<longrightarrow> live_served (rw_queue w')"
    by (auto simp: live_served_def stream_rel_def)
  moreover have "described w \<longrightarrow> described w' \<and> rw_queue w' = rw_queue w \<and> fed w' = fed w"
  proof
    assume "described w"
    then obtain ms where "rw_stream w = Some ms" "ms_sdp_str ms \<noteq> ''''"
      by (auto simp: described_def split: option.splits)
    with run show "described w' \<and> rw_queue w' = rw_queue w \<and> fed w' = fed w"
      by (auto simp: make_sdp_def Let_def described_def)
  qed
  ultimately show ?thesis by (simp add: undisturbed_def)
qed

interpretation quiet: quiet_sessions "rtsp_ops env cfg steps"
    "case_sum (session_file_inv H steps) (live_inv H steps)" "boot_inv H steps" make_rtsp_handler undisturbed
  for env cfg H steps
proof (unfold_locales, goal_cases)
  case (3 live w h w')
  then show ?case
    by (auto simp: make_rtsp_handler_def gst_live_ctor_def multicast_get_instance_def undisturbed_def described_def
        split: if_splits option.splits)
next
  case (4 h w p r s h' w')
  then show ?case
  proof (cases h)
    case (Inl f)
    with 4 obtain f' where "file_inv H f w" "file_describe_request env p (f, w) = Inr (Some (r, s, f', w'))"
      by (auto simp: rtsp_ops_def virtual_ops_def dispatch_Some file_ops_def session_file_inv_def)
    from file_describe_rel [OF this] show ?thesis by (auto intro: undisturbed_same)
  next
    case (Inr l)
    with 4 have "make_sdp env cfg steps w = Inr (Some (r, s, w'))"
      by (auto simp: rtsp_ops_def virtual_ops_def dispatch_Some live_ops_def live_describe_request_def rbind_eq_Inr
          split: option.splits prod.splits)
    moreover from 4 Inr have "rtsp_inv H w" "rw_stream w \<noteq> None" "\<forall>st \<in> set steps. step_ok st"
      by (auto simp: live_inv_def boot_inv_def)
    ultimately show ?thesis by (rule make_sdp_undisturbed)
  qed
next
  case (5 h w p a c r s h' w')
  then show ?case
    by (auto simp: rtsp_ops_def virtual_ops_def dispatch_Some file_ops_def live_ops_def session_file_inv_def
        live_setup_request_def rbind_eq_Inr dest: file_setup_frame intro!: undisturbed_same split: sum.splits)
next
  case (6 h w t r s h' w')
  then show ?case
    by (auto simp: rtsp_ops_def virtual_ops_def dispatch_Some file_ops_def live_ops_def live_play_request_def
        packet_rel_def dest!: file_play_rel intro!: undisturbed_same split: sum.splits)
next
  case (7 h w t r s h' w')
  then show ?case
    by (auto simp: rtsp_ops_def virtual_ops_def dispatch_Some file_ops_def live_ops_def live_pause_request_def
        packet_rel_def dest!: file_pause_rel intro!: undisturbed_same split: sum.splits)
next
  case (8 h w r s h' w')
  then show ?case
    by (auto simp: rtsp_ops_def virtual_ops_def dispatch_Some file_ops_def live_ops_def session_file_inv_def
        live_teardown_request_def dest: file_teardown_rel intro!: undisturbed_same split: sum.splits)
next
  case (9 h w n w')
  then show ?case
    by (auto simp: rtsp_ops_def virtual_ops_def file_ops_def live_ops_def session_file_inv_def gst_file_destroy_def
        gst_live_destroy_def rbind_eq_Inr dest: gst_file_dtor_spec intro!: undisturbed_same split: sum.splits)
qed (auto simp: undisturbed_def)

text \<open>No step of the RTSP system takes from the distributor what it needs.\<close>

lemma consumed_served:
  assumes inv: "vq_inv H q" and c: "consumed name q q'" and rates: "served q"
  shows "served q'"
  using c unfolding consumed_def
proof (elim disjE exE conjE)
  assume "pop name q = Inr (Some (None, q'))"
  with served_within [OF pop_within [OF inv]] rates show ?thesis by blast
next
  fix a q1 assume p: "pop name q = Inr (Some (Some a, q1))" and d: "delete_buf a q1 = Inr q'"
  from taken_frame [OF inv p] d rates show ?thesis by auto
qed (use rates in simp)

lemma rtsp_step_served:
  assumes inv: "system_inv H steps s" and st: "rtsp_step env cfg steps s s'" and rates: "live_served (rw_queue (sy_world s))"
  shows "live_served (rw_queue (sy_world s'))"
proof -
  have r: "rtsp_inv H (sy_world s)" using inv by (simp add: system_inv_def boot_inv_def)
  then have vq: "vq_inv H (rw_queue (sy_world s))" by (simp add: rtsp_inv_def)
  have sess: "sess_inv (case_sum (session_file_inv H steps) (live_inv H steps)) (boot_inv H steps) (view k s)"
    if "sy_sessions s k \<noteq> None" for k
    using inv that by (simp add: system_inv_def prog_inv_def)
  have fed: "live_served (rw_queue w)" if "stream_rel H (sy_world s) w \<and> rw_stream w = rw_stream (sy_world s) \<and>
    consumed ''live'' (rw_queue (sy_world s)) (rw_queue w)" for w
    using that consumed_served [OF vq] rates by (auto simp: live_served_def stream_rel_def)
  from st show ?thesis
  proof cases
    case (Accept k uuid)
    with rates show ?thesis by simp
  next
    case (Serve k conn j req r st)
    from quiet.read_rel [OF sess [OF Serve(2)] Serve(3)] rates show ?thesis
      by (simp add: Serve(1) undisturbed_def put_view_def)
  next
    case (Destroy k st)
    from quiet.destroy_session_rel [OF sess [OF Destroy(2)] Destroy(3)] rates show ?thesis
      by (simp add: Destroy(1) undisturbed_def put_view_def)
  next
    case (Packet k a sample fl w)
    with rtp_callback_rel [OF Packet(3)] rates show ?thesis by (simp add: packet_rel_def)
  next
    case (Control k a sample fl w)
    with rtcp_callback_rel [OF Control(3)] rates show ?thesis by (simp add: packet_rel_def)
  next
    case (Feed nd w)
    with fed play_need_data_rel [OF r Feed(2)] show ?thesis by simp
  next
    case (Wake nd w)
    with fed play_resume_rel [OF r Wake(2)] show ?thesis by simp
  next
    case (Camera b a q)
    then have "subs_within (rw_queue (sy_world s)) (snd (push a q))" by (auto simp: push_def new_buf_def within_same)
    with served_within rates Camera(1) show ?thesis by (auto simp: live_served_def subs_within_def)
  next
    case (Distributor t q)
    with distribute_served [OF vq _ Distributor(2)] distribute_round_fps [OF Distributor(2)] rates
    show ?thesis by (simp add: live_served_def)
  qed
qed

lemma rtsp_reachable_served:
  assumes "rtsp_reachable env cfg steps s0 s" and "system_inv H steps s0" and "live_served (rw_queue (sy_world s0))"
  shows "live_served (rw_queue (sy_world s))"
  using assms
proof (induction rule: rtsp_reachable.induct)
  case (Step s s')
  then show ?case using rtsp_step_served rtsp_reachable_inv by blast
qed simp

end
