(* ===== verification/Rtsp_Props.thy ===== *)
theory Rtsp_Props
  imports Rtsp_Quiet
begin

text \<open>
  Properties of the RTSP sessions and their handlers: what a session answers, which handler it gets,
  how its life ends, and what the requests of the two handlers do and leave behind.
\<close>

subsection \<open>A concrete system for the witnesses\<close>

definition demo_rtsp_env :: rtsp_env where
  "demo_rtsp_env =
     \<lparr>re_make = (\<lambda>_. True), re_set_state = (\<lambda>_ _. True), re_link_many = (\<lambda>_. True), re_bus = [None, Some Msg_eos],
      re_samples = [], re_pads = [],
      re_rtp = [Some \<lparr>rb_header = Some (7, 90), rb_bytes = Some [1, 2]\<rparr>],
      re_sdp_text = sm_session_name, re_time = 0, re_ip_addr = ''10.0.0.2'', re_can_open = (\<lambda>_. True),
      re_cwd = [], re_address_ok = (\<lambda>_. True), re_udp_open = True, re_udp_bind = Some 40000,
      re_junk_ports = (0, 0)\<rparr>"

definition demo_stream :: multicast_stream where
  "demo_stream =
     \<lparr>ms_rtp_info = new_rtp_info, ms_codec_info = Some new_codec_info, ms_is_sdp = False, ms_sdp_str = ''v=0'',
      ms_ip_addr = ''239.255.1.1'', ms_port = 5004, ms_thread_info = None\<rparr>"

definition demo_rtsp_world :: "multicast_stream option \<Rightarrow> rtsp_world" where
  "demo_rtsp_world ms =
     \<lparr>rw_refs = (\<lambda>_. None), rw_infos = (\<lambda>_. None), rw_next = 0, rw_calls = [], rw_sent = [], rw_pushed = [],
      rw_fs = [], rw_queue = new_vqueue 30, rw_stream = ms, rw_cnt = 0, rw_frame_cnt = 0\<rparr>"

lemma demo_rtsp_world_inv: "rtsp_inv {} (demo_rtsp_world ms)"
proof -
  have "vq_inv {} (new_vqueue 30)" by (rule new_vqueue_inv) (simp_all add: in_int32_def)
  then show ?thesis by (simp add: rtsp_inv_def refs_ok_def demo_rtsp_world_def new_vqueue_def)
qed

lemma demo_rtsp_world_served:
  "30 \<le> q_device_fps (rw_queue (demo_rtsp_world ms))" "served (rw_queue (demo_rtsp_world ms))"
  by (simp_all add: demo_rtsp_world_def new_vqueue_def served_def periods_ok_def in_int32_def)

definition demo_conn :: rtsp_conn where
  "demo_conn =
     \<lparr>cn_open = True, cn_linger_ok = True, cn_remote = Some ''10.0.0.9'', cn_prepare_payload = (\<lambda>r. r),
      cn_write_ok = (\<lambda>_. True), cn_shutdown_ok = True\<rparr>"

definition demo_request :: "rtsp_verb \<Rightarrow> string \<Rightarrow> rtsp_request" where
  "demo_request v target =
     \<lparr>rr_verb = v, rr_target = target,
      rr_field = (\<lambda>k. if k = ''Transport'' then ''RTP/AVP;unicast;client_port=5000-5001'' else ''1'')\<rparr>"

subsection \<open>Sessions of the live stream\<close>

text \<open>The answer to a request on the live stream, once it has a description: a function of the request.\<close>

definition live_answer :: "rtsp_conn \<Rightarrow> string \<Rightarrow> multicast_stream \<Rightarrow> rtsp_request \<Rightarrow> rtsp_response option" where
  "live_answer conn uuid ms req =
     (let res = base_response req; ok = res\<lparr>rp_status := Some Status_ok\<rparr>;
          with_session = set_field ''Session'' uuid; range = set_field ''Range'' (rr_field req ''Range'') in
      case rr_verb req of
        Verb_options \<Rightarrow> Some (set_field ''Public'' rtsp_methods ok)
      | Verb_describe \<Rightarrow> Some (body_response conn req Status_ok ''application/sdp'' (ms_sdp_str ms) res)
      | Verb_setup \<Rightarrow> Some (with_session (set_field ''Transport''
          (''destination='' @ ms_ip_addr ms @ '';port='' @ to_string (ms_port ms) @ '';ttl=32'') ok))
      | Verb_play \<Rightarrow> Some (range (with_session (set_field ''RTP-Info'' (''url='' @ rr_target req @ '';'') ok)))
      | Verb_pause \<Rightarrow> Some (range (with_session ok))
      | Verb_teardown \<Rightarrow> Some ((with_session ok)\<lparr>rp_keep_alive := False\<rparr>)
      | Verb_other \<Rightarrow> None)"

lemma call_handler_same:
  assumes "ss_session st = Some se" and "se_handler se = Some h" and "f (h, ss_world st) = Inr (Some (r, s, h, ss_world st))"
  shows "call_handler f st = Inr (Some (r, s, st))"
  using assms by (cases st; cases se) (simp add: call_handler_def session_of_def deref_def)

lemma live_serve:
  assumes se: "ss_session st = Some se" and h: "se_handler se = Some (Inr hl)"
    and ms: "rw_stream (ss_world st) = Some ms" "ms_sdp_str ms \<noteq> ''''" "ms_codec_info ms = Some ci"
    and remote: "cn_remote conn = Some addr"
    and ports: "rr_verb req = Verb_setup \<longrightarrow> (\<exists>p. client_ports_of (rr_field req ''Transport'') = Inr p)"
  shows "serve (rtsp_ops env cfg steps) conn req se st = Inr (Some (live_answer conn (se_uuid se) ms req, st))"
proof -
  let ?w = "ss_world st"
  note sdp = make_sdp_cached [OF ms, of env cfg steps]
  note call = call_handler_same [OF se h]
  note ops = rtsp_ops_def virtual_ops_def live_ops_def file_ops_def dispatch_def reply_map_def
    live_option_request_def live_describe_request_def live_setup_request_def live_play_request_def
    live_pause_request_def live_teardown_request_def sdp ms(1) get_ip_addr_def get_port_def
  let ?ops = "rtsp_ops env cfg steps"
  have "call_handler (ho_option ?ops) st = Inr (Some (0, rtsp_methods, st))"
    by (rule call) (simp add: ops rtsp_methods_def)
  moreover have "call_handler (ho_describe ?ops p) st = Inr (Some (0, ms_sdp_str ms, st))" for p
    by (rule call) (simp add: ops)
  moreover have "call_handler (ho_setup ?ops p a c) st =
      Inr (Some (0, ''destination='' @ ms_ip_addr ms @ '';port='' @ to_string (ms_port ms) @ '';ttl=32'', st))" for p a c
    by (rule call) (simp add: ops)
  moreover have "call_handler (ho_play ?ops t) st = Inr (Some (0, '''', st))" for t
    by (rule call) (simp add: ops)
  moreover have "call_handler (ho_pause ?ops t) st = Inr (Some (0, '''', st))" for t
    by (rule call) (simp add: ops)
  moreover have "call_handler (ho_teardown ?ops) st = Inr (Some (0, '''', st))"
    by (rule call) (simp add: ops)
  ultimately show ?thesis
    using ports remote
    by (cases "rr_verb req")
      (auto simp: serve_def live_answer_def Let_def remote_address_def describe_response_def)
qed

text \<open>
  The requests a session reaches: \<open>read\<close> returns a \<open>ret\<close> that was never set, and the session goes on after a
  request only when it happens to be 0.
\<close>

definition reached :: "(int \<times> rtsp_request) list \<Rightarrow> rtsp_request list" where
  "reached evs = map snd (takeWhile (\<lambda>(ret, _). ret = 0) evs @ take 1 (dropWhile (\<lambda>(ret, _). ret = 0) evs))"

lemma reached_simps [simp]:
  "reached [] = []" "reached ((ret, req) # evs) = req # (if ret = 0 then reached evs else [])"
  by (simp_all add: reached_def)

text \<open>
  A SETUP that throws: its transport names no ports and is shorter than the 11 characters the search skips then.
\<close>

definition setup_cut_short :: "rtsp_request \<Rightarrow> bool" where
  "setup_cut_short req \<longleftrightarrow> rr_verb req = Verb_setup \<and> (case client_ports_of (rr_field req ''Transport'') of Inl _ \<Rightarrow> True | Inr _ \<Rightarrow> False)"

lemma serve_cut_short:
  assumes "setup_cut_short req" and "cn_remote conn = Some addr"
  shows "serve ops conn req se st = Inl (Uncaught Out_of_range)"
proof -
  from assms(1) obtain e where v: "rr_verb req = Verb_setup" and e: "client_ports_of (rr_field req ''Transport'') = Inl e"
    by (auto simp: setup_cut_short_def split: sum.splits)
  from e have "e = Out_of_range" by (auto simp: client_ports_of_def Let_def str_substr_def split: if_splits)
  with v e assms(2) show ?thesis by (simp add: serve_def remote_address_def)
qed

text \<open>An opened session of the live stream, at its \<open>n\<close>-th request.\<close>

lemma live_run:
  assumes conn: "cn_open conn" and remote: "cn_remote conn = Some addr"
    and se: "ss_session st = Some se" "se_handler se = Some (Inr hl)" "se_file_path se \<noteq> ''''"
    and ms: "rw_stream (ss_world st) = Some ms" "ms_sdp_str ms \<noteq> ''''" "ms_codec_info ms = Some ci"
  shows "run (rtsp_ops env cfg steps) make_rtsp_handler conn (map (\<lambda>(ret, req). Request ret req) evs @ [End_of_stream]) st =
    (if list_ex setup_cut_short (reached evs) then Inl (Uncaught Out_of_range)
     else Inr (Some (st\<lparr>ss_sent := ss_sent st @
       filter (cn_write_ok conn) (List.map_filter (live_answer conn (se_uuid se) ms) (reached evs))\<rparr>)))"
  using se(1) ms(1)
proof (induction evs arbitrary: st)
  case Nil
  then show ?case by (simp add: run_open [OF conn] map_filter_simps)
next
  case (Cons ev evs)
  obtain ret r where ev: "ev = (ret, r)" by fastforce
  have o: "open_session make_rtsp_handler r st = Inr st"
    using Cons.prems(1) se(3) by (simp add: open_session_def session_of_def)
  show ?case
  proof (cases "setup_cut_short r")
    case True
    with o Cons.prems(1) have "read (rtsp_ops env cfg steps) make_rtsp_handler conn ret r st = Inl (Uncaught Out_of_range)"
      by (simp add: read_def session_of_def serve_cut_short [OF True remote])
    with True ev show ?thesis by (simp add: run_open [OF conn])
  next
    case False
    define st1 where "st1 = (case live_answer conn (se_uuid se) ms r of None \<Rightarrow> st | Some res \<Rightarrow> snd (write_rtsp conn res st))"
    from False have "rr_verb r = Verb_setup \<longrightarrow> (\<exists>p. client_ports_of (rr_field r ''Transport'') = Inr p)"
      by (auto simp: setup_cut_short_def split: sum.splits)
    from live_serve [where env = env and cfg = cfg and steps = steps, OF Cons.prems(1) se(2) Cons.prems(2) ms(2,3) remote this] o Cons.prems(1)
    have "read (rtsp_ops env cfg steps) make_rtsp_handler conn ret r st = Inr (Some (ret, st1))"
      by (simp add: read_def session_of_def st1_def)
    moreover have "ss_session st1 = Some se" "ss_world st1 = ss_world st"
      using Cons.prems(1) by (simp_all add: st1_def write_rtsp_def split: option.split)
    moreover have sent: "st1 = st\<lparr>ss_sent := ss_sent st @
        filter (cn_write_ok conn) (List.map_filter (live_answer conn (se_uuid se) ms) [r])\<rparr>"
      by (simp add: st1_def write_rtsp_def map_filter_simps split: option.split)
    ultimately show ?thesis
      using Cons.IH [of st1] Cons.prems(2) False ev
      by (simp add: run_open [OF conn] map_filter_simps split: option.split)
  qed
qed

lemma live_open:
  assumes url: "url_path_of (rr_target req) = Inr url" and path: "um_find path url = Some fl" "str_contains fl ''/dev''"
    and ms: "rw_stream w = Some ms" and st: "ss_session st = Some (new_session uuid)" "ss_path st = path" "ss_world st = w"
  shows "open_session make_rtsp_handler req st = Inr (st\<lparr>ss_session :=
    Some \<lparr>se_uuid = uuid, se_url_path = url, se_file_path = fl, se_handler = Some (Inr \<lparr>gl_keep_alive = True\<rparr>)\<rparr>\<rparr>)"
  using assms
  by (cases st) (simp add: open_session_def session_of_def new_session_def um_index_def make_rtsp_handler_def
      gst_live_ctor_def multicast_get_instance_def)

lemma read_opened:
  assumes "open_session mk req st = Inr st1" and "ss_session st1 = Some se" and "se_file_path se \<noteq> ''''"
  shows "read ops mk conn j req st = read ops mk conn j req st1"
proof -
  have "open_session mk req st1 = Inr st1" using assms(2,3) by (simp add: open_session_def session_of_def)
  with assms(1) show ?thesis by (simp add: read_def)
qed

text \<open>
  C28: A session of the live stream, once the stream has its description, answers from each request alone.  On an
  open connection whose peer is there and whose first request names a path mapped to a device, any sequence of
  requests up to the end of the stream gets exactly the answers \<open>live_answer\<close> computes, in order, for the requests
  that are reached, requests after a TEARDOWN included; then the session is gone, and neither the path map nor
  the system's state has changed.  Reached are the requests up to the first after which the value \<open>read\<close> returns,
  which nothing sets, happens not to be 0 (\<open>reached\<close>): all of them, or as little as one.  If one of those is a
  SETUP whose short transport has no client ports (\<open>setup_cut_short\<close>), its exception leaves the thread instead.
\<close>
theorem live_session_answers:
  assumes conn: "cn_open conn" "cn_linger_ok conn" "cn_remote conn = Some addr"
    and ms: "rw_stream w = Some ms" "ms_sdp_str ms \<noteq> ''''" "ms_codec_info ms = Some ci"
    and first: "evs \<noteq> []" "url_path_of (rr_target (snd (hd evs))) = Inr url"
    and path: "um_find path url = Some fl" "str_contains fl ''/dev''"
  shows "handle_session (rtsp_ops env cfg steps) make_rtsp_handler conn uuid
      (map (\<lambda>(ret, req). Request ret req) evs @ [End_of_stream]) (path, w) =
    (if list_ex setup_cut_short (reached evs) then Inl (Uncaught Out_of_range)
     else Inr (Some \<lparr>ss_session = None, ss_path = path, ss_world = w,
       ss_sent = filter (cn_write_ok conn) (List.map_filter (live_answer conn uuid ms) (reached evs))\<rparr>))"
proof -
  obtain ret r rs where reqs: "evs = (ret, r) # rs" using first(1) by (cases evs) auto
  define st :: "(gst_file + gst_live) sess_state" where
    "st = \<lparr>ss_session = Some (new_session uuid), ss_path = path, ss_world = w, ss_sent = []\<rparr>"
  define se :: "(gst_file + gst_live) rtsp_session" where
    "se = \<lparr>se_uuid = uuid, se_url_path = url, se_file_path = fl, se_handler = Some (Inr \<lparr>gl_keep_alive = True\<rparr>)\<rparr>"
  define st1 where "st1 = st\<lparr>ss_session := Some se\<rparr>"
  have "url_path_of (rr_target r) = Inr url" using first reqs by simp
  then have o: "open_session make_rtsp_handler r st = Inr st1"
    using live_open [OF _ path ms(1)] by (simp add: st_def st1_def se_def)
  have se1: "ss_session st1 = Some se" "se_handler se = Some (Inr \<lparr>gl_keep_alive = True\<rparr>)" "se_file_path se \<noteq> ''''"
    "rw_stream (ss_world st1) = Some ms"
    using path(2) ms by (auto simp: st1_def st_def se_def str_contains_def str_find_def)
  let ?events = "map (\<lambda>(ret, req). Request ret req) evs @ [End_of_stream]"
  have "run (rtsp_ops env cfg steps) make_rtsp_handler conn ?events st =
      run (rtsp_ops env cfg steps) make_rtsp_handler conn ?events st1"
    using read_opened [OF o se1(1,3)] by (simp add: reqs run_open [OF conn(1)])
  also have "\<dots> = (if list_ex setup_cut_short (reached evs) then Inl (Uncaught Out_of_range)
     else Inr (Some (st1\<lparr>ss_sent := filter (cn_write_ok conn) (List.map_filter (live_answer conn uuid ms) (reached evs))\<rparr>)))"
    unfolding live_run [OF conn(1,3) se1(1,2,3,4) ms(2,3)] by (simp add: st1_def st_def se_def)
  finally show ?thesis
    using conn(2)
    by (simp add: handle_session_def build_session_def st_def [symmetric] destroy_session_def st1_def se_def
        rtsp_ops_def virtual_ops_def live_ops_def gst_live_destroy_def) (simp add: st_def)
qed

text \<open>Three requests, of which the value of \<open>ret\<close> lets the session answer two.\<close>

abbreviation demo_requests :: "(int \<times> rtsp_request) list" where
  "demo_requests \<equiv> [(0, demo_request Verb_teardown ''rtsp://cam/live''), (32767, demo_request Verb_options ''*''),
     (0, demo_request Verb_setup ''*'')]"

definition demo_bare_setup :: rtsp_request where
  "demo_bare_setup = (demo_request Verb_setup ''rtsp://cam/live'')\<lparr>rr_field := \<lambda>_. ''RTP/AVP''\<rparr>"

theorem live_session_answers_witness:
  "(\<exists>st. handle_session (rtsp_ops demo_rtsp_env (None :: unit video_config option) []) make_rtsp_handler demo_conn ''id''
      (map (\<lambda>(ret, req). Request ret req) demo_requests @ [End_of_stream])
      ([(''/live'', ''/dev/video'')], demo_rtsp_world (Some demo_stream)) = Inr (Some st) \<and>
    map rp_keep_alive (ss_sent st) = [False, True]) \<and>
   handle_session (rtsp_ops demo_rtsp_env (None :: unit video_config option) []) make_rtsp_handler demo_conn ''id''
      (map (\<lambda>(ret, req). Request ret req) [(0, demo_bare_setup)] @ [End_of_stream])
      ([(''/live'', ''/dev/video'')], demo_rtsp_world (Some demo_stream)) = Inl (Uncaught Out_of_range)"
proof
  have h: "cn_open demo_conn" "cn_linger_ok demo_conn" "cn_remote demo_conn = Some ''10.0.0.9''"
    "rw_stream (demo_rtsp_world (Some demo_stream)) = Some demo_stream" "ms_sdp_str demo_stream \<noteq> ''''"
    "ms_codec_info demo_stream = Some new_codec_info" "evs \<noteq> []"
    "url_path_of (rr_target (snd (hd evs))) = Inr ''/live''"
    "um_find [(''/live'', ''/dev/video'')] ''/live'' = Some ''/dev/video''" "str_contains ''/dev/video'' ''/dev''"
    if "rr_target (snd (hd evs)) = ''rtsp://cam/live'' \<and> evs \<noteq> []" for evs
    using that by (simp_all add: demo_conn_def demo_rtsp_world_def demo_stream_def um_find_def)
      (simp_all add: url_path_of_def str_find_def str_substr_def str_contains_def npos_def)
  have t: "rr_target (snd (hd demo_requests)) = ''rtsp://cam/live'' \<and> demo_requests \<noteq> []"
    "rr_target (snd (hd [(0, demo_bare_setup)])) = ''rtsp://cam/live'' \<and> [(0, demo_bare_setup)] \<noteq> []"
    by (simp_all add: demo_request_def demo_bare_setup_def)
  have p: "\<not> list_ex setup_cut_short (reached demo_requests)"
    "list_ex setup_cut_short (reached [(0, demo_bare_setup)])"
    by (simp_all add: setup_cut_short_def demo_request_def demo_bare_setup_def client_ports_of_def str_find_def str_substr_def npos_def)
  show "\<exists>st. handle_session (rtsp_ops demo_rtsp_env (None :: unit video_config option) []) make_rtsp_handler demo_conn ''id''
      (map (\<lambda>(ret, req). Request ret req) demo_requests @ [End_of_stream])
      ([(''/live'', ''/dev/video'')], demo_rtsp_world (Some demo_stream)) = Inr (Some st) \<and>
    map rp_keep_alive (ss_sent st) = [False, True]"
    unfolding live_session_answers [OF h [OF t(1)]] using p(1)
    by (simp add: map_filter_simps live_answer_def demo_request_def demo_conn_def base_response_def)
  show "handle_session (rtsp_ops demo_rtsp_env (None :: unit video_config option) []) make_rtsp_handler demo_conn ''id''
      (map (\<lambda>(ret, req). Request ret req) [(0, demo_bare_setup)] @ [End_of_stream])
      ([(''/live'', ''/dev/video'')], demo_rtsp_world (Some demo_stream)) = Inl (Uncaught Out_of_range)"
    unfolding live_session_answers [OF h [OF t(2)]] using p(2) by simp
qed

subsection \<open>The life of a session\<close>

text \<open>
  C30: Whatever requests arrive, a session that ends leaves the system in order: its object is gone, every
  pipeline a session object still owns has exactly one reference, and the queue's frames are accounted
  for.  Only a session whose connection was open when its thread began can end: on a closed one \<open>run\<close>
  deletes the session and its caller deletes it again.
\<close>
theorem session_lifecycle:
  assumes w: "rtsp_inv H w" and steps: "\<forall>st \<in> set steps. step_ok st"
  shows "(\<forall>st. handle_session (rtsp_ops env cfg steps) make_rtsp_handler conn uuid events (path, w) = Inr (Some st) \<longrightarrow>
      cn_open conn \<and> ss_session st = None \<and> rtsp_inv H (ss_world st)) \<and>
    (cn_linger_ok conn \<and> \<not> cn_open conn \<longrightarrow>
      handle_session (rtsp_ops env cfg steps) make_rtsp_handler conn uuid events (path, w) = Inl DoubleFree)"
proof -
  have b: "boot_inv H steps w" using w steps by (simp add: boot_inv_def)
  have "cn_open conn \<and> ss_session st = None \<and> boot_inv H steps (ss_world st)"
    if "handle_session (rtsp_ops env cfg steps) make_rtsp_handler conn uuid events (path, w) = Inr (Some st)" for st
    using rtsp.handle_session_result [OF b that] .
  then show ?thesis using rtsp.closed_session by (auto simp: boot_inv_def)
qed

theorem session_lifecycle_witness:
  "\<exists>st. handle_session (rtsp_ops demo_rtsp_env (None :: unit video_config option) []) make_rtsp_handler
     demo_conn ''id'' [Request 0 (demo_request Verb_play ''rtsp://cam/live''), End_of_stream]
     ([(''/live'', ''/dev/video'')], demo_rtsp_world None) = Inr (Some st) \<and>
   ss_session st = None \<and> rtsp_inv {} (ss_world st)"
proof -
  let ?run = "handle_session (rtsp_ops demo_rtsp_env (None :: unit video_config option) []) make_rtsp_handler
     demo_conn ''id'' [Request 0 (demo_request Verb_play ''rtsp://cam/live''), End_of_stream]
     ([(''/live'', ''/dev/video'')], demo_rtsp_world None)"
  have "url_path_of ''rtsp://cam/live'' = Inr ''/live''" "str_contains ''/dev/video'' ''/dev''"
    by (simp_all add: url_path_of_def str_find_def str_substr_def str_contains_def npos_def)
  then have "\<exists>st. ?run = Inr (Some st)"
    by (simp add: handle_session_def build_session_def demo_conn_def run_open read_def open_session_def session_of_def
        new_session_def demo_request_def um_index_def um_find_def make_rtsp_handler_def gst_live_ctor_def
        multicast_get_instance_def demo_rtsp_world_def serve_def remote_address_def call_handler_def deref_def
        rtsp_ops_def virtual_ops_def live_ops_def dispatch_def reply_map_def live_play_request_def write_rtsp_def
        destroy_session_def gst_live_destroy_def Let_def)
  with session_lifecycle [OF demo_rtsp_world_inv [of None], of "[]" demo_rtsp_env "None :: unit video_config option" demo_conn "''id''"
      "[Request 0 (demo_request Verb_play ''rtsp://cam/live''), End_of_stream]" "[(''/live'', ''/dev/video'')]"]
  show ?thesis by auto
qed

text \<open>
  C27: Sessions do not disturb each other.  In every state that accepted, served and ended connections, packets,
  the playing stream, the camera and the distributor reach from one without sessions by any interleaving
  of their steps, at a camera of 30 frames per second or more and with subscriptions it can serve: every session can be ended without a fault, the distributor's next round succeeds, no two
  sessions share a session object, and every session's object is there and owns the only reference to its
  pipeline.
\<close>
theorem rtsp_reachable_safe:
  assumes start: "sy_sessions s0 = (\<lambda>_. None)" "rtsp_inv H (sy_world s0)" "\<forall>st \<in> set steps. step_ok st"
    and rates: "30 \<le> q_device_fps (rw_queue (sy_world s0))" "served (rw_queue (sy_world s0))"
    and reach: "rtsp_reachable env cfg steps s0 s"
  shows "(\<forall>k. sy_sessions s k \<noteq> None \<longrightarrow>
      (\<exists>st. destroy_session (rtsp_ops env cfg steps) (view k s) = Inr st \<and> ss_session st = None)) \<and>
    (\<exists>q. distribute_round t (rw_queue (sy_world s)) = Inr q) \<and>
    (\<forall>j k a. info_of j s = Some a \<and> info_of k s = Some a \<longrightarrow> j = k) \<and>
    (\<forall>k a. info_of k s = Some a \<longrightarrow> (\<exists>i. rw_infos (sy_world s) a = Some i \<and>
       (\<forall>p. rg_pipeline i = Some p \<longrightarrow> rw_refs (sy_world s) p = Some 1)))"
proof -
  have inv0: "system_inv H steps s0" using start by (simp add: system_inv_def boot_inv_def sess_own_def)
  with reach have inv: "system_inv H steps s" by (rule rtsp_reachable_inv)
  from rtsp_reachable_served [OF reach inv0] rates have rates: "served (rw_queue (sy_world s))" by (simp add: live_served_def)
  from inv have w: "rtsp_inv H (sy_world s)" by (simp add: system_inv_def boot_inv_def)
  have pi: "prog_inv H steps (view k s)" if "sy_sessions s k \<noteq> None" for k
    using inv that by (simp add: system_inv_def)
  show ?thesis
  proof (intro conjI allI impI)
    fix k assume "sy_sessions s k \<noteq> None"
    from rtsp.destroy_returns [OF pi [OF this, unfolded prog_inv_def], of env cfg]
    show "\<exists>st. destroy_session (rtsp_ops env cfg steps) (view k s) = Inr st \<and> ss_session st = None" by blast
  next
    show "\<exists>q. distribute_round t (rw_queue (sy_world s)) = Inr q"
      using distribute_round_returns [of H "rw_queue (sy_world s)" t] served_can_distribute [OF vq_invD(1) rates] w
      by (auto simp: rtsp_inv_def)
  next
    fix j k a assume "info_of j s = Some a \<and> info_of k s = Some a"
    then have "a \<in> sess_own handler_own (sy_sessions s j)" "a \<in> sess_own handler_own (sy_sessions s k)"
      using info_of_own by blast+
    moreover have "j \<noteq> k \<longrightarrow> sess_own handler_own (sy_sessions s j) \<inter> sess_own handler_own (sy_sessions s k) = {}"
      using inv by (simp add: system_inv_def)
    ultimately show "j = k" by blast
  next
    fix k a assume a: "info_of k s = Some a"
    then obtain se h where se: "sy_sessions s k = Some se" "se_handler se = Some (Inl h)" "gf_rtp_info h = Some a"
      by (auto simp: info_of_def split: option.splits sum.splits)
    with pi [of k] have "file_inv H h (sy_world s)" by (simp add: prog_inv_def sess_inv_def session_file_inv_def)
    with se(3) obtain i where i: "rw_infos (sy_world s) a = Some i" by (auto simp: file_inv_def)
    moreover have "refs_ok (sy_world s)" using w by (simp add: rtsp_inv_def)
    ultimately show "\<exists>i. rw_infos (sy_world s) a = Some i \<and>
       (\<forall>p. rg_pipeline i = Some p \<longrightarrow> rw_refs (sy_world s) p = Some 1)"
      using refs_ok_pipeline_old by blast
  qed
qed

theorem rtsp_reachable_safe_witness:
  "\<exists>s st. rtsp_reachable demo_rtsp_env (None :: unit video_config option) []
     \<lparr>sy_sessions = (\<lambda>_. None), sy_path = [], sy_world = demo_rtsp_world None, sy_sent = []\<rparr> s \<and>
     destroy_session (rtsp_ops demo_rtsp_env (None :: unit video_config option) []) (view 3 s) = Inr st"
proof -
  let ?s0 = "\<lparr>sy_sessions = (\<lambda>_. None), sy_path = [], sy_world = demo_rtsp_world None, sy_sent = []\<rparr>"
  let ?s1 = "?s0\<lparr>sy_sessions := (sy_sessions ?s0)(3 \<mapsto> new_session ''id'')\<rparr>"
  have "rtsp_step demo_rtsp_env (None :: unit video_config option) [] ?s0 ?s1" by (rule rtsp_step.Accept) simp
  with rtsp_reachable.Start have r: "rtsp_reachable demo_rtsp_env (None :: unit video_config option) [] ?s0 ?s1"
    by (rule rtsp_reachable.Step)
  have "sy_sessions ?s0 = (\<lambda>_. None)" "rtsp_inv {} (sy_world ?s0)" "\<forall>st \<in> set []. step_ok st"
    "30 \<le> q_device_fps (rw_queue (sy_world ?s0))" "served (rw_queue (sy_world ?s0))"
    using demo_rtsp_world_inv demo_rtsp_world_served by simp_all
  from rtsp_reachable_safe [OF this r, THEN conjunct1, THEN spec, of 3] obtain st where
    "destroy_session (rtsp_ops demo_rtsp_env (None :: unit video_config option) []) (view 3 ?s1) = Inr st" by auto
  with r show ?thesis by blast
qed

text \<open>
  What a session's handler reports is lost.  Every request other than DESCRIBE is answered with status
  200, whatever the handler returned, and \<open>read\<close> returns the indeterminate value it found in its
  uninitialised \<open>ret\<close>, whatever the request: also a TEARDOWN does not end the session.
\<close>
theorem answers_hide_failures:
  shows "(serve ops conn req se st = Inr (Some (Some res, st')) \<and> rr_verb req \<noteq> Verb_describe \<longrightarrow>
      rp_status res = Some Status_ok) \<and>
    (read ops mk conn j req st = Inr (Some (r, st'')) \<longrightarrow> r = j)"
proof (intro conjI impI; (elim conjE)?)
  assume "serve ops conn req se st = Inr (Some (Some res, st'))" and "rr_verb req \<noteq> Verb_describe"
  then show "rp_status res = Some Status_ok"
    by (cases "rr_verb req") (auto simp: serve_def rbind_eq_Inr sbind_eq_Some Let_def)
next
  assume "read ops mk conn j req st = Inr (Some (r, st''))"
  then show "r = j" by (auto simp: read_def rbind_eq_Inr sbind_eq_Some)
qed

text \<open>A session object of the file handler that has been set up, on a system that refuses to play.\<close>

definition demo_info_gst :: rtp_session_info_gst where
  "demo_info_gst =
     \<lparr>rg_session_info = Some \<lparr>rs_rtp_socket = Some \<lparr>us_open = True, us_local_port = Some 40000\<rparr>,
        rs_rtp_endpoint = Some (''10.0.0.9'', 5000), rs_rtcp_socket = Some \<lparr>us_open = True, us_local_port = None\<rparr>,
        rs_rtcp_endpoint = Some (''10.0.0.9'', 5001), rs_init_seq = 0, rs_init_rtptime = 0\<rparr>,
      rg_pipeline = Some 1, rg_first = True, rg_bus_enable = True\<rparr>"

definition demo_file_world :: rtsp_world where
  "demo_file_world = (demo_rtsp_world None)\<lparr>rw_refs := [1 \<mapsto> 1], rw_infos := [0 \<mapsto> demo_info_gst], rw_next := 2\<rparr>"

definition demo_file :: gst_file where
  "demo_file = \<lparr>gf_keep_alive = True, gf_rtp_info = Some 0, gf_codec_info = None, gf_streams = None\<rparr>"

lemma demo_file_inv: "file_inv {} demo_file demo_file_world"
  using demo_rtsp_world_inv [of None]
  by (simp add: file_inv_def sockets_there_def rtsp_inv_def refs_ok_def demo_file_world_def demo_file_def demo_info_gst_def)

definition demo_file_session :: "(gst_file + gst_live) rtsp_session" where
  "demo_file_session = \<lparr>se_uuid = ''id'', se_url_path = ''/a'', se_file_path = ''a.mp4'', se_handler = Some (Inl demo_file)\<rparr>"

definition demo_file_state :: "(gst_file + gst_live) sess_state" where
  "demo_file_state = \<lparr>ss_session = Some demo_file_session, ss_path = [], ss_world = demo_file_world, ss_sent = []\<rparr>"

theorem answers_hide_failures_witness:
  "fst (snd (the (projr (file_play_request (demo_rtsp_env\<lparr>re_set_state := \<lambda>_ _. False\<rparr>) ''1'' (demo_file, demo_file_world))))) = '''' \<and>
   (\<exists>res st. serve (rtsp_ops (demo_rtsp_env\<lparr>re_set_state := \<lambda>_ _. False\<rparr>) (None :: unit video_config option) []) demo_conn
      (demo_request Verb_play ''rtsp://cam/a'') demo_file_session demo_file_state = Inr (Some (Some res, st)) \<and>
    rp_status res = Some Status_ok)"
proof -
  let ?env = "demo_rtsp_env\<lparr>re_set_state := \<lambda>_ _. False\<rparr>"
  let ?ops = "rtsp_ops ?env (None :: unit video_config option) []"
  have play: "file_play_request ?env ''1'' (demo_file, demo_file_world) =
      Inr (Some (1, '''', demo_file, gst_log [Set_state 1 State_playing] demo_file_world))"
    by (simp add: file_play_request_def demo_file_def read_rtp_info_def demo_file_world_def demo_info_gst_def
        gst_set_state_def deref_def)
  then have "\<exists>res st. serve ?ops demo_conn (demo_request Verb_play ''rtsp://cam/a'') demo_file_session demo_file_state =
      Inr (Some (Some res, st))"
    by (simp add: serve_def remote_address_def demo_conn_def demo_request_def call_handler_def session_of_def
        demo_file_session_def demo_file_state_def deref_def rtsp_ops_def virtual_ops_def dispatch_def file_ops_def reply_map_def)
  then obtain res st where r: "serve ?ops demo_conn (demo_request Verb_play ''rtsp://cam/a'') demo_file_session demo_file_state =
      Inr (Some (Some res, st))" by blast
  moreover have "rr_verb (demo_request Verb_play ''rtsp://cam/a'') \<noteq> Verb_describe" by (simp add: demo_request_def)
  with r answers_hide_failures [of ?ops demo_conn "demo_request Verb_play ''rtsp://cam/a''" demo_file_session demo_file_state res st]
  have "rp_status res = Some Status_ok" by blast
  ultimately show ?thesis using play by auto
qed

subsection \<open>The first request\<close>

lemma find_authority: "str_find (''rtsp://'' @ s) ''//'' 0 = 5"
  by (simp add: str_find_def)

lemma find_after_authority:
  assumes "length s < 2 ^ 63"
  shows "str_find (''rtsp://'' @ s) ''/'' 7 =
    (if CHR ''/'' \<in> set s then of_nat (7 + length (takeWhile (\<lambda>d. d \<noteq> CHR ''/'') s)) else npos)"
  by (simp add: str_find_def find_from_char)

lemma str_substr_tail:
  assumes "n \<le> length s" and "length s < 2 ^ 64"
  shows "str_substr s (of_nat n) (of_nat (length s) - of_nat n) = Inr (drop n s)"
proof -
  have sub: "(of_nat (length s) - of_nat n :: 64 word) = of_nat (length s - n)" using assms(1) by simp
  have u: "unat (of_nat k :: 64 word) = k" if "k \<le> length s" for k
    using assms(2) that by (simp only: unsigned_of_nat) (simp add: take_bit_nat_eq_self)
  show ?thesis
    unfolding sub str_substr_def u [OF assms(1)] u [OF diff_le_self] using assms(1) by simp
qed

lemma url_path_of_rtsp:
  assumes "CHR ''/'' \<notin> set host" and "length host + length rest < 2 ^ 62"
  shows "url_path_of (''rtsp://'' @ host @ ''/'' @ rest) = Inr (''/'' @ rest)"
    and "url_path_of (''rtsp://'' @ host) = Inl Out_of_range"
proof -
  have tw: "takeWhile (\<lambda>d. d \<noteq> CHR ''/'') (host @ ''/'' @ rest) = host"
    using assms(1) by (induction host) auto
  let ?t = "''rtsp://'' @ host @ ''/'' @ rest" and ?i = "of_nat (7 + length host) :: 64 word"
  have i: "str_find ?t ''/'' 7 = ?i"
    using find_after_authority [of "host @ ''/'' @ rest"] assms(2) tw by simp
  have "drop (length host) (drop 7 ?t) = ''/'' @ rest" by simp
  then have d: "drop (7 + length host) ?t = ''/'' @ rest" by (simp only: drop_drop add.commute)
  have "str_substr ?t ?i (of_nat (length ?t) - ?i) = Inr (drop (7 + length host) ?t)"
    by (rule str_substr_tail) (use assms(2) in simp_all)
  then show "url_path_of ?t = Inr (''/'' @ rest)"
    unfolding url_path_of_def find_authority Let_def by (simp only: i d) (simp add: i [simplified] d [simplified])
  have "str_find (''rtsp://'' @ host) ''/'' 7 = npos" using find_after_authority [of host] assms by simp
  moreover have "unat npos = 2 ^ 64 - 1" by (simp add: npos_def unsigned_minus_1_eq_mask mask_eq_exp_minus_1)
  ultimately show "url_path_of (''rtsp://'' @ host) = Inl Out_of_range"
    unfolding url_path_of_def find_authority Let_def using assms(2) by (simp add: str_substr_def)
qed

lemma url_path_of_star: "url_path_of ''*'' = Inl Out_of_range"
  by (simp add: url_path_of_def str_find_def str_substr_def npos_def Let_def unsigned_minus_1_eq_mask
      mask_eq_exp_minus_1)

text \<open>
  C32: The first request of a session chooses its handler.  A target \<open>rtsp://host/rest\<close> selects the path
  \<open>/rest\<close>: the live handler if the file mapped to it names a device, the file handler otherwise, also
  when the path is unknown.  A target without a path, or the \<open>*\<close> of an OPTIONS request, ends the
  program: the exception of \<open>substr\<close> leaves the session's thread.
\<close>
theorem first_request_path:
  assumes host: "CHR ''/'' \<notin> set host" and len: "length host + length rest < 2 ^ 62"
    and st: "ss_session st = Some (new_session uuid)"
  shows "(rr_target req = ''rtsp://'' @ host @ ''/'' @ rest \<longrightarrow>
      (\<exists>st' se h fl. open_session make_rtsp_handler req st = Inr st' \<and> ss_session st' = Some se \<and>
        se_url_path se = ''/'' @ rest \<and> se_file_path se = fl \<and>
        fl = (case um_find (ss_path st) (''/'' @ rest) of None \<Rightarrow> '''' | Some f \<Rightarrow> f) \<and>
        se_handler se = Some h \<and> (isl h \<longleftrightarrow> \<not> str_contains fl ''/dev''))) \<and>
    (rr_target req \<in> {''rtsp://'' @ host, ''*''} \<and> cn_open conn \<longrightarrow>
      run ops make_rtsp_handler conn (Request j req # events) st = Inl (Uncaught Out_of_range))"
proof (intro conjI impI)
  assume t: "rr_target req = ''rtsp://'' @ host @ ''/'' @ rest"
  let ?fl = "case um_find (ss_path st) (''/'' @ rest) of None \<Rightarrow> '''' | Some f \<Rightarrow> f"
  obtain fl path where i: "um_index (''/'' @ rest) '''' (ss_path st) = (fl, path)" by fastforce
  then have fl: "fl = ?fl" by (auto simp: um_index_def split: option.splits)
  obtain h w where h: "make_rtsp_handler (str_contains fl ''/dev'') (ss_world st) = (h, w)" by fastforce
  then have "isl h \<longleftrightarrow> \<not> str_contains fl ''/dev''"
    by (auto simp: make_rtsp_handler_def split: if_splits prod.splits)
  with fl show "\<exists>st' se h fl. open_session make_rtsp_handler req st = Inr st' \<and> ss_session st' = Some se \<and>
        se_url_path se = ''/'' @ rest \<and> se_file_path se = fl \<and> fl = ?fl \<and>
        se_handler se = Some h \<and> (isl h \<longleftrightarrow> \<not> str_contains fl ''/dev'')"
    using st t url_path_of_rtsp(1) [OF host len] i h by (simp add: open_session_def session_of_def new_session_def)
next
  assume "rr_target req \<in> {''rtsp://'' @ host, ''*''} \<and> cn_open conn"
  then have "url_path_of (rr_target req) = Inl Out_of_range" "cn_open conn"
    using url_path_of_rtsp(2) [OF host len] url_path_of_star by auto
  with st show "run ops make_rtsp_handler conn (Request j req # events) st = Inl (Uncaught Out_of_range)"
    by (simp add: run_open read_def open_session_def session_of_def new_session_def)
qed

theorem first_request_path_witness:
  "run (rtsp_ops demo_rtsp_env (None :: unit video_config option) []) make_rtsp_handler demo_conn
     [Request 0 (demo_request Verb_options ''*'')]
     \<lparr>ss_session = Some (new_session ''id''), ss_path = [], ss_world = demo_rtsp_world None, ss_sent = []\<rparr> =
   Inl (Uncaught Out_of_range)"
proof -
  let ?st = "\<lparr>ss_session = Some (new_session ''id''), ss_path = [], ss_world = demo_rtsp_world None, ss_sent = []\<rparr> ::
    (gst_file + gst_live) sess_state"
  have "CHR ''/'' \<notin> set ''cam''" "length ''cam'' + length ''live'' < 2 ^ 62" "ss_session ?st = Some (new_session ''id'')"
    by simp_all
  from first_request_path [OF this, of "demo_request Verb_options ''*''" demo_conn] show ?thesis
    by (simp add: demo_request_def demo_conn_def)
qed

subsection \<open>The file handler\<close>

lemma scan_int_digits:
  assumes "n < 2 ^ 31" and "rest = [] \<or> \<not> is_digit (hd rest)"
  shows "scan_int (nat_to_string n @ rest) = Some (int n, rest)"
proof -
  let ?s = "nat_to_string n @ rest"
  obtain c cs where c: "nat_to_string n = c # cs" "is_digit c"
    using nat_to_string_digits [of n] by (cases "nat_to_string n") auto
  have tw: "takeWhile is_digit ?s = nat_to_string n"
    using assms(2) nat_to_string_digits [of n] by (cases rest) (auto simp: takeWhile_eq_all)
  have "dropWhile is_space ?s = ?s" "parse_sign ?s = (False, ?s)"
    using c digit_not_sign [OF c(2)] by (simp_all add: digit_not_space parse_sign_def)
  moreover have "to_int32 (clamp64 (int n)) = int n" using assms(1) by (simp add: clamp64_def to_int32_def)
  ultimately show ?thesis by (simp add: scan_int_def tw)
qed

lemma scan_ports_pair:
  assumes "a < 2 ^ 31" and "b < 2 ^ 31" and "rest = [] \<or> \<not> is_digit (hd rest)"
  shows "scan_ports (nat_to_string a @ ''-'' @ nat_to_string b @ rest) junk = (int a, int b)"
proof -
  have "scan_int (nat_to_string a @ ''-'' @ nat_to_string b @ rest) = Some (int a, ''-'' @ nat_to_string b @ rest)"
    by (rule scan_int_digits) (use assms(1) in \<open>simp_all add: is_digit_def\<close>)
  with scan_int_digits [OF assms(2,3)] show ?thesis by (simp add: scan_ports_def)
qed

text \<open>The first packet of a session that plays.\<close>

lemma first_packet:
  assumes i: "rw_infos w a = Some i" "rg_first i" "rg_session_info i = Some si"
    and out: "rs_rtp_socket si = Some sock" "us_open sock" "rs_rtp_endpoint si = Some e"
  shows "wait_first a (Some \<lparr>rb_header = Some (seq, time), rb_bytes = Some bytes\<rparr> # packets) w =
    Inr (Some ((write_rtp_info a (i\<lparr>rg_session_info := Some (si\<lparr>rs_init_seq := seq, rs_init_rtptime := time\<rparr>),
      rg_first := False\<rparr>) w)\<lparr>rw_sent := rw_sent w @ [(e, bytes)]\<rparr>))"
proof -
  have cb: "rtp_appsink_new_sample_callback a (Some \<lparr>rb_header = Some (seq, time), rb_bytes = Some bytes\<rparr>) w =
      Inr (Flow_ok, (write_rtp_info a (i\<lparr>rg_session_info := Some (si\<lparr>rs_init_seq := seq, rs_init_rtptime := time\<rparr>),
        rg_first := False\<rparr>) w)\<lparr>rw_sent := rw_sent w @ [(e, bytes)]\<rparr>)" (is "_ = Inr (_, ?w1)")
    using assms by (simp add: rtp_appsink_new_sample_callback_def read_rtp_info_def record_first_def deref_def
        send_packet_def write_rtp_info_def)
  have "wait_first a packets ?w1 = Inr (Some ?w1)"
    by (subst wait_first.simps) (simp add: read_rtp_info_def write_rtp_info_def)
  with i show ?thesis by (subst wait_first.simps) (simp add: cb read_rtp_info_def)
qed

text \<open>
  C31: SETUP and PLAY of a recording.  When nothing fails, SETUP answers with the port the RTP socket was
  bound to and the next one, and PLAY answers with the sequence number and timestamp of the first packet,
  which has been sent to the client's address and the first of the two ports its Transport header named.
\<close>
theorem setup_then_play:
  assumes inv: "file_inv H h w" and made: "\<forall>f. re_make env f"
    and states: "\<forall>p. re_set_state env p State_paused \<and> re_set_state env p State_playing"
    and udp: "re_address_ok env addr" "re_udp_open env" "re_udp_bind env = Some pt"
    and ports: "a < 2 ^ 16" "b < 2 ^ 16" "rest = [] \<or> \<not> is_digit (hd rest)"
    and rtp: "re_rtp env = Some \<lparr>rb_header = Some (seq, time), rb_bytes = Some bytes\<rparr> # packets"
  shows "\<exists>h1 w1 w2.
    file_setup_request env path addr (nat_to_string a @ ''-'' @ nat_to_string b @ rest) (h, w) =
      Inr (Some (0, ''server_port='' @ to_string (uint pt) @ ''-'' @ to_string (uint pt + 1), h1, w1)) \<and>
    file_play_request env t (h1, w1) =
      Inr (Some (0, ''seq='' @ to_string (uint seq) @ '';rtptime='' @ to_string (uint time), h1, w2)) \<and>
    rw_sent w2 = rw_sent w1 @ [((addr, of_nat a), bytes)]"
proof -
  let ?port = "nat_to_string a @ ''-'' @ nat_to_string b @ rest"
  have sp: "scan_ports ?port (re_junk_ports env) = (int a, int b)"
    by (rule scan_ports_pair) (use ports in simp_all)
  define si where "si = new_session_info\<lparr>rs_rtp_socket := Some \<lparr>us_open = True, us_local_port = Some pt\<rparr>,
    rs_rtp_endpoint := Some (addr, word_of_int (int a)),
    rs_rtcp_socket := Some \<lparr>us_open = True, us_local_port = None\<rparr>,
    rs_rtcp_endpoint := Some (addr, word_of_int (int b))\<rparr>"
  have "udp_setup env addr (scan_ports ?port (re_junk_ports env)) new_session_info = Inr (pt, si)"
    unfolding sp using udp by (simp add: udp_setup_def si_def)
  from file_setup_ok [OF inv made this, of path] states obtain x p h1 w1 where
    req: "file_setup_request env path addr ?port (h, w) = Inr (Some (0, server_ports pt, h1, w1))"
    and h1: "gf_rtp_info h1 = Some x"
    and i: "rw_infos w1 x = Some (new_rtp_info\<lparr>rg_session_info := Some si, rg_pipeline := Some p\<rparr>)"
    by blast
  let ?i = "new_rtp_info\<lparr>rg_session_info := Some si, rg_pipeline := Some p\<rparr>"
  let ?wp = "gst_log [Set_state p State_playing] w1"
  define w2 where "w2 = (write_rtp_info x (?i\<lparr>rg_session_info := Some (si\<lparr>rs_init_seq := seq, rs_init_rtptime := time\<rparr>),
      rg_first := False\<rparr>) ?wp)\<lparr>rw_sent := rw_sent w1 @ [((addr, of_nat a), bytes)]\<rparr>"
  have j: "rw_infos ?wp x = Some ?i" "rg_first ?i" "rg_session_info ?i = Some si"
    "rs_rtp_socket si = Some \<lparr>us_open = True, us_local_port = Some pt\<rparr>"
    "us_open \<lparr>us_open = True, us_local_port = Some pt\<rparr>" "rs_rtp_endpoint si = Some (addr, of_nat a)"
    using i by (simp_all add: new_rtp_info_def si_def)
  have "wait_first x (re_rtp env) ?wp = Inr (Some w2)"
    unfolding rtp w2_def using first_packet [OF j] by simp
  moreover have "rw_infos w2 x = Some (?i\<lparr>rg_session_info := Some (si\<lparr>rs_init_seq := seq, rs_init_rtptime := time\<rparr>), rg_first := False\<rparr>)"
    by (simp add: w2_def write_rtp_info_def)
  ultimately have "file_play_request env t (h1, w1) =
      Inr (Some (0, ''seq='' @ to_string (uint seq) @ '';rtptime='' @ to_string (uint time), h1, w2))"
    using h1 i states by (simp add: file_play_request_def deref_def read_rtp_info_def gst_set_state_def new_rtp_info_def)
  with req show ?thesis
    by (intro exI [of _ h1] exI [of _ w1] exI [of _ w2]) (simp add: server_ports_def w2_def)
qed

theorem setup_then_play_witness:
  "\<exists>h w. file_setup_request demo_rtsp_env ''a.mp4'' ''10.0.0.9'' (nat_to_string 5000 @ ''-'' @ nat_to_string 5001 @ '''')
      (gst_file_ctor, demo_rtsp_world None) = Inr (Some (0, ''server_port=40000-40001'', h, w))"
proof -
  have "file_inv {} gst_file_ctor (demo_rtsp_world None)"
    by (simp add: file_inv_def demo_rtsp_world_inv gst_file_ctor_def)
  moreover have "\<forall>f. re_make demo_rtsp_env f"
    "\<forall>p. re_set_state demo_rtsp_env p State_paused \<and> re_set_state demo_rtsp_env p State_playing"
    "re_address_ok demo_rtsp_env ''10.0.0.9''" "re_udp_open demo_rtsp_env" "re_udp_bind demo_rtsp_env = Some 40000"
    "(5000 :: nat) < 2 ^ 16" "(5001 :: nat) < 2 ^ 16" "'''' = [] \<or> \<not> is_digit (hd '''')"
    "re_rtp demo_rtsp_env = Some \<lparr>rb_header = Some (7, 90), rb_bytes = Some [1, 2]\<rparr> # []"
    by (simp_all add: demo_rtsp_env_def)
  ultimately have "\<exists>h w. file_setup_request demo_rtsp_env ''a.mp4'' ''10.0.0.9'' (nat_to_string 5000 @ ''-'' @ nat_to_string 5001 @ '''')
      (gst_file_ctor, demo_rtsp_world None) =
      Inr (Some (0, ''server_port='' @ to_string (uint (40000 :: 16 word)) @ ''-'' @ to_string (uint (40000 :: 16 word) + 1), h, w))"
    using setup_then_play [of "{}" gst_file_ctor "demo_rtsp_world None" demo_rtsp_env "''10.0.0.9''" 40000 5000 5001 "''''" 7 90 "[1, 2]" "[]" "''a.mp4''"]
    by blast
  moreover have "to_string (uint (40000 :: 16 word)) = ''40000''" "to_string (uint (40000 :: 16 word) + 1) = ''40001''"
    by (simp_all add: to_string_def nat_to_string.simps digit_char_def char_of_def bit_0)
  ultimately show ?thesis by (simp only: append.simps)
qed

text \<open>
  C34: TEARDOWN of a recording never succeeds.  Before SETUP it follows a null pointer; after it, it
  answers 1 and changes nothing when the pipeline cannot be stopped, and otherwise gives the pipeline's
  only reference up itself and again through the session object's destructor.
\<close>
theorem teardown_never_succeeds:
  assumes inv: "file_inv H h w"
  shows "(case gf_rtp_info h of
      None \<Rightarrow> file_teardown_request env (h, w) = Inl NullDeref
    | Some a \<Rightarrow> \<exists>i. rw_infos w a = Some i \<and>
       (case rg_pipeline i of
          None \<Rightarrow> file_teardown_request env (h, w) = Inr (Some (1, '''', h, w))
        | Some p \<Rightarrow>
           if \<not> re_set_state env p State_null
           then file_teardown_request env (h, w) = Inr (Some (1, '''', h, gst_log [Set_state p State_null] w))
           else file_teardown_request env (h, w) = Inl DoubleFree))"
proof (cases "gf_rtp_info h")
  case None
  then show ?thesis by (simp add: file_teardown_request_def deref_def)
next
  case (Some a)
  then obtain i where i: "rw_infos w a = Some i" using inv by (auto simp: file_inv_def)
  from file_teardown_cases [OF inv Some i, of env] Some i show ?thesis by (auto split: option.splits)
qed

theorem teardown_never_succeeds_witness:
  "file_teardown_request demo_rtsp_env (demo_file, demo_file_world) = Inl DoubleFree"
  using teardown_never_succeeds [OF demo_file_inv, of demo_rtsp_env]
  by (simp add: demo_file_def demo_file_world_def demo_info_gst_def demo_rtsp_env_def)

text \<open>
  C35: The threads SETUP leaves behind outlive the session object.  Once the handler is destroyed, or a
  second SETUP has replaced the object, the packet callbacks registered with its address read freed
  memory, and so does the thread that watches the pipeline's bus once the handler is gone.
\<close>
theorem callbacks_after_destroy:
  assumes inv: "file_inv H h w" and a: "gf_rtp_info h = Some a"
  shows "(\<exists>w'. gst_file_destroy (h, w) = Inr (0, w') \<and>
      rtp_appsink_new_sample_callback a (Some buf) w' = Inl UseAfterFree \<and>
      (rb_bytes buf \<noteq> None \<longrightarrow> rtcp_appsink_new_sample_callback a (Some buf) w' = Inl UseAfterFree) \<and>
      (\<forall>i p. rw_infos w a = Some i \<and> rg_pipeline i = Some p \<longrightarrow>
         bus_thread_round p failure msg w' = Inl UseAfterFree)) \<and>
    (\<forall>r s h' w'. file_setup_request env path addr port (h, w) = Inr (Some (r, s, h', w')) \<longrightarrow>
      rtp_appsink_new_sample_callback a (Some buf) w' = Inl UseAfterFree)"
proof (intro conjI allI impI)
  from inv a obtain i where i: "rw_infos w a = Some i" by (auto simp: file_inv_def)
  from delete_info_spec [OF file_invD(2) [OF inv] i] obtain w' where
    d: "delete_info_gst a w = Inr w'" "rw_infos w' = (rw_infos w)(a := None)" by blast
  have "rw_refs w' p = None" if "rg_pipeline i = Some p" for p
    using d(1) i that refs_ok_pipeline_old [OF file_invD(2) [OF inv] i that]
    by (auto simp: delete_info_gst_def gst_unref_def)
  with d a i show "\<exists>w'. gst_file_destroy (h, w) = Inr (0, w') \<and>
      rtp_appsink_new_sample_callback a (Some buf) w' = Inl UseAfterFree \<and>
      (rb_bytes buf \<noteq> None \<longrightarrow> rtcp_appsink_new_sample_callback a (Some buf) w' = Inl UseAfterFree) \<and>
      (\<forall>i p. rw_infos w a = Some i \<and> rg_pipeline i = Some p \<longrightarrow>
         bus_thread_round p failure msg w' = Inl UseAfterFree)"
    by (auto simp: gst_file_destroy_def gst_file_dtor_def rtp_appsink_new_sample_callback_def read_rtp_info_def
        rtcp_appsink_new_sample_callback_def bus_thread_round_def)
next
  fix r s h' w' assume run: "file_setup_request env path addr port (h, w) = Inr (Some (r, s, h', w'))"
  from file_setup_frame [OF inv run] file_info_old [OF inv a] a
  show "rtp_appsink_new_sample_callback a (Some buf) w' = Inl UseAfterFree"
    by (simp add: rtp_appsink_new_sample_callback_def read_rtp_info_def)
qed

theorem callbacks_after_destroy_witness:
  "\<exists>w'. gst_file_destroy (demo_file, demo_file_world) = Inr (0, w') \<and>
     rtp_appsink_new_sample_callback 0 (Some \<lparr>rb_header = Some (7, 90), rb_bytes = Some [1, 2]\<rparr>) w' = Inl UseAfterFree \<and>
     bus_thread_round 1 False None w' = Inl UseAfterFree"
proof -
  have a: "gf_rtp_info demo_file = Some 0" by (simp add: demo_file_def)
  from callbacks_after_destroy [OF demo_file_inv a] show ?thesis
    by (fastforce simp: demo_file_world_def demo_info_gst_def)
qed

lemma sdp_path_upto_dot:
  "length path < 2 ^ 64 \<Longrightarrow> sdp_path_of path = Inr (takeWhile (\<lambda>d. d \<noteq> CHR ''.'') path @ ''.sdp'')"
  by (simp add: sdp_path_of_def str_substr_upto_char)

lemma open_in_saved:
  assumes "open_out can_open False p fs = Some fs1"
  shows "open_in can_open p (append_file p s fs1) = Some s"
proof -
  from assms have p: "p \<noteq> []" "can_open p" and l: "fs1 = fs_put p (File []) fs"
    by (auto simp: open_out_def is_directory_def fs_lookup_def split: if_splits option.splits node.splits)
  have "fs_lookup fs1 p = Some (File [])" unfolding l using p(1) by (simp add: fs_lookup_put)
  then show ?thesis using p by (simp add: append_file_def open_in_def fs_lookup_put)
qed

text \<open>A description that succeeds is in its cache file afterwards.\<close>

lemma describe_saved:
  assumes run: "file_describe_request env path (h, w) = Inr (Some (0, s, h', w'))" and sp: "sdp_path_of path = Inr sp"
  shows "open_in (re_can_open env) (resolve (re_cwd env) sp) (rw_fs w') = Some s"
proof (cases "open_in (re_can_open env) (resolve (re_cwd env) sp) (rw_fs w)")
  case (Some c)
  with run sp show ?thesis by (simp add: file_describe_request_def)
next
  case None
  define p where "p = resolve (re_cwd env) sp"
  from None run sp obtain codec w5 where "fst (describe_finish env p codec w5) = 0"
    "fst (snd (describe_finish env p codec w5)) = s" "snd (snd (describe_finish env p codec w5)) = w'"
    by (auto simp: file_describe_request_def rbind_eq_Inr Let_def case_prod_beta p_def
        split: if_splits option.splits)
  then have f: "describe_finish env (resolve (re_cwd env) sp) codec w5 = (0, s, w')" by (simp add: p_def prod_eq_iff)
  then obtain fs where "open_out (re_can_open env) False (resolve (re_cwd env) sp) (rw_fs w5) = Some fs"
    and "rw_fs w' = append_file (resolve (re_cwd env) sp) s fs"
    by (auto simp: describe_finish_def Let_def split: option.splits)
  with open_in_saved show ?thesis by simp
qed

text \<open>
  C33: A description is computed once and kept in a file beside the recording; later requests get that text
  without touching anything.  The file's name is the path up to its first dot: recordings that agree up
  to there (in particular all paths that begin with a dot) share one description.
\<close>
theorem describe_cached:
  assumes run: "file_describe_request env path (h, w) = Inr (Some (0, s, h1, w1))"
    and len: "length path < 2 ^ 64" "length other < 2 ^ 64"
    and same: "takeWhile (\<lambda>d. d \<noteq> CHR ''.'') other = takeWhile (\<lambda>d. d \<noteq> CHR ''.'') path"
    and env: "re_can_open env2 = re_can_open env" "re_cwd env2 = re_cwd env"
  shows "file_describe_request env2 other (h2, w1) = Inr (Some (0, s, h2, w1))"
  using describe_saved [OF run sdp_path_upto_dot [OF len(1)]] sdp_path_upto_dot [OF len(2)] same env
  by (simp add: file_describe_request_def)

theorem describe_cached_witness:
  "\<exists>s h w. file_describe_request demo_rtsp_env ''./a.mp4'' (gst_file_ctor, demo_rtsp_world None) = Inr (Some (0, s, h, w)) \<and>
     file_describe_request demo_rtsp_env ''./b.mp4'' (gst_file_ctor, w) = Inr (Some (0, s, gst_file_ctor, w))"
proof -
  have tw: "takeWhile (\<lambda>d. d \<noteq> CHR ''.'') ''./b.mp4'' = takeWhile (\<lambda>d. d \<noteq> CHR ''.'') ''./a.mp4''" by simp
  have "sdp_path_of ''./a.mp4'' = Inr ''.sdp''" using sdp_path_upto_dot [of "''./a.mp4''"] by simp
  then have "\<exists>s h w. file_describe_request demo_rtsp_env ''./a.mp4'' (gst_file_ctor, demo_rtsp_world None) = Inr (Some (0, s, h, w))"
    by (simp add: file_describe_request_def demo_rtsp_env_def demo_rtsp_world_def open_in_def open_out_def fs_lookup_def
        is_directory_def resolve_def describe_elements_def gst_make_def describe_wiring_def gst_set_state_def
        gst_bin_add_many_def gst_log_def gst_unref_def describe_finish_def Let_def)
  then obtain s h w where d: "file_describe_request demo_rtsp_env ''./a.mp4'' (gst_file_ctor, demo_rtsp_world None) =
      Inr (Some (0, s, h, w))" by blast
  have "file_describe_request demo_rtsp_env ''./b.mp4'' (gst_file_ctor, w) = Inr (Some (0, s, gst_file_ctor, w))"
    by (rule describe_cached [OF d _ _ tw]) simp_all
  with d show ?thesis by blast
qed

subsection \<open>The live stream\<close>

text \<open>
  C29: Describing the live stream ends.  At a camera of 30 frames per second or more whose rate can be counted past,
  with no subscription of period 0, with a pipeline that can be made and linked, a bus that reports in
  the end, and any interleaving of the encoder's callbacks with the camera and the distributor short of
  overflowing the frame counter, \<open>make_sdp\<close> returns 0 and the text of the codec information read from the
  caps of the delivered samples, in order; its subscription \<open>sdp\<close> is gone, all references and frames are accounted for, and
  every later call returns the same text at once and changes nothing.
\<close>
theorem make_sdp_returns:
  assumes inv: "rtsp_inv H w" and ms: "rw_stream w = Some ms" and new: "ms_sdp_str ms = ''''"
    and ci: "ms_codec_info ms = Some ci"
    and rate: "length (video_frame_rate c) < 2 ^ 64"
    and gst: "re_make env ''pipeline''" "\<forall>es. re_link_many env es" "bus_loop (re_bus env) \<noteq> None"
    and steps: "\<forall>st \<in> set steps. step_ok st"
    and cnt: "- (2 ^ 31) \<le> rw_cnt w" "rw_cnt w + int (length steps) < 2 ^ 31"
    and rates: "30 \<le> q_device_fps (rw_queue w)" "served (rw_queue w)"
  shows "\<exists>codec w'. gathered steps (Some ci) = Some codec \<and>
    make_sdp env (Some c) steps w = Inr (Some (0, live_sdp env ms codec, w')) \<and> rtsp_inv H w' \<and>
    um_find (q_thread_info (rw_queue w')) ''sdp'' = None \<and> um_find (q_output (rw_queue w')) ''sdp'' = None \<and>
    (live_sdp env ms codec \<noteq> '''' \<longrightarrow>
      make_sdp env2 cfg2 steps2 w' = Inr (Some (0, live_sdp env ms codec, w')))"
  using make_sdp_total [OF assms] rtsp_inv_rel [OF inv] make_sdp_cached [of _ "ms\<lparr>ms_codec_info := Some _, ms_sdp_str := _\<rparr>"]
  by fastforce

definition demo_rtsp_config :: "unit video_config" where
  "demo_rtsp_config =
     \<lparr>vc_props = (), vc_width = 640, vc_height = 480, vc_frame_rate = ''30/1'', vc_format = ''YUY2'',
      vc_split_time = 1, vc_duration = 10, vc_vid_path = ''video'', vc_maintain_sec = 60\<rparr>"

theorem make_sdp_returns_witness:
  "\<exists>w. make_sdp demo_rtsp_env (Some demo_rtsp_config)
      [New_sample (Some (Some [(''encoding-name'', G_string (Some ''H264''))])), Distribute 0,
       Need_data \<lparr>nd_is_app_src = True, nd_alloc = True, nd_map = True, nd_push = True\<rparr>]
      (demo_rtsp_world (Some (new_multicast_stream ''239.255.1.1'' 5004))) =
    Inr (Some (0, ''Hydra RTSP Session'', w))"
proof -
  let ?steps = "[New_sample (Some (Some [(''encoding-name'', G_string (Some ''H264''))])), Distribute 0,
       Need_data \<lparr>nd_is_app_src = True, nd_alloc = True, nd_map = True, nd_push = True\<rparr>]"
  let ?ms = "new_multicast_stream ''239.255.1.1'' 5004"
  have h: "rw_stream (demo_rtsp_world (Some ?ms)) = Some ?ms" "ms_sdp_str ?ms = ''''"
    "ms_codec_info ?ms = Some new_codec_info" "length (video_frame_rate demo_rtsp_config) < 2 ^ 64"
    "re_make demo_rtsp_env ''pipeline''" "\<forall>es. re_link_many demo_rtsp_env es" "bus_loop (re_bus demo_rtsp_env) \<noteq> None"
    "\<forall>st \<in> set ?steps. step_ok st" "- (2 ^ 31) \<le> rw_cnt (demo_rtsp_world (Some ?ms))"
    "rw_cnt (demo_rtsp_world (Some ?ms)) + int (length ?steps) < 2 ^ 31"
    by (simp_all add: demo_rtsp_world_def new_multicast_stream_def demo_rtsp_config_def video_frame_rate_def
        demo_rtsp_env_def step_ok_def)
  have "live_sdp demo_rtsp_env ?ms codec = ''Hydra RTSP Session''" for codec
    by (simp add: live_sdp_def demo_rtsp_env_def sdp_message_of_def)
  with make_sdp_returns [OF demo_rtsp_world_inv h demo_rtsp_world_served] show ?thesis by metis
qed

end
