(* ===== verification/Main_Props.thy ===== *)
theory Main_Props
  imports Main_Program Rtsp_Props
begin

text \<open>
  Properties of \<open>VideoInitializer\<close> and \<open>main\<close>: what the start of the video part leaves behind for the
  RTSP sessions, how the program can end, and what stopping it does.
\<close>

subsection \<open>Starting the video part\<close>

lemma insert_event_subscribed:
  "insert_event e ti s = Inr (r, s') \<Longrightarrow> um_find (q_thread_info s') e \<noteq> None"
  by (auto simp: insert_event_def rbind_eq_Inr um_find_emplace split: option.splits if_splits)

text \<open>
  On a fresh system with a camera of at least 30 frames per second, no subscription of period 0, GStreamer elements that link and a
  bus that reports, whatever the interleaving of the description's callbacks.
\<close>

lemma live_start_serves:
  assumes inv: "rtsp_inv H w" and fresh: "rw_stream w = None" and rate: "length (video_frame_rate c) < 2 ^ 64"
    and gst: "re_make env ''pipeline''" "\<forall>es. re_link_many env es" "bus_loop (re_bus env) \<noteq> None"
    and steps: "\<forall>st \<in> set steps. step_ok st"
    and cnt: "- (2 ^ 31) \<le> rw_cnt w" "rw_cnt w + int (length steps) < 2 ^ 31"
    and rates: "30 \<le> q_device_fps (rw_queue w)" "served (rw_queue w)"
  shows "\<exists>w1 ms codec. live_start env ac (Some c) steps w =
      Inr (Some (rtsp_listener_ctor ac [(''/live'', ''/dev/video'')], w1)) \<and>
    rtsp_inv H w1 \<and> rw_stream w1 = Some ms \<and> ms_ip_addr ms = ''239.255.1.1'' \<and> ms_port ms = 5004 \<and>
    gathered steps (Some new_codec_info) = Some codec \<and> ms_codec_info ms = Some codec \<and>
    ms_sdp_str ms = live_sdp env ms codec \<and> um_find (q_thread_info (rw_queue w1)) ''live'' \<noteq> None"
proof -
  let ?ms = "new_multicast_stream ''239.255.1.1'' 5004"
  define w0 where "w0 = w\<lparr>rw_stream := Some ?ms\<rparr>"
  have w0: "rtsp_inv H w0" "rw_stream w0 = Some ?ms" "rw_cnt w0 = rw_cnt w" "rw_queue w0 = rw_queue w"
    using inv by (simp_all add: w0_def rtsp_inv_def refs_ok_def)
  have ms: "ms_sdp_str ?ms = ''''" "ms_codec_info ?ms = Some new_codec_info" "ms_thread_info ?ms = None"
    by (simp_all add: new_multicast_stream_def)
  from make_sdp_total [OF w0(1,2) ms(1,2) rate gst steps] cnt rates w0(3,4) obtain codec w2 where
    g: "gathered steps (Some new_codec_info) = Some codec"
    and sdp: "make_sdp env (Some c) steps w0 = Inr (Some (0, live_sdp env ?ms codec, w2))"
    and rel: "stream_rel H w0 w2"
    and st2: "rw_stream w2 = Some (?ms\<lparr>ms_codec_info := Some codec, ms_sdp_str := live_sdp env ?ms codec\<rparr>)"
    by auto
  have inv2: "rtsp_inv H w2" using rtsp_inv_rel [OF w0(1) rel] .
  from set_stream_ok [OF inv2 st2 _ gst(2), of c] ms(3) obtain w3 ti q p where
    ss: "set_stream env (Some c) w2 = Inr (0, w3)" and ok3: "refs_ok w3"
    and ni: "new_info \<lparr>ti_is_run = True, ti_fps = 30\<rparr> (rw_queue w2) = (ti, q)" and q: "rw_queue w3 = q"
    and st3: "rw_stream w3 = Some (?ms\<lparr>ms_codec_info := Some codec, ms_sdp_str := live_sdp env ?ms codec,
      ms_thread_info := Some ti, ms_rtp_info := (ms_rtp_info ?ms)\<lparr>rg_pipeline := p\<rparr>\<rparr>)"
    by auto
  have "vq_inv H (rw_queue w2)" using inv2 by (simp add: rtsp_inv_def)
  from play_stream_ok [OF this ni ok3 q st3] obtain r w4 where
    ps: "play_stream w3 = Inr (0, w4)" and inv4: "rtsp_inv H w4" and st4: "rw_stream w4 = rw_stream w3"
    and ie: "insert_event ''live'' (Some ti) q = Inr (r, rw_queue w4)" using st3 by auto
  have "live_start env ac (Some c) steps w = Inr (Some (rtsp_listener_ctor ac [(''/live'', ''/dev/video'')], w4))"
    using sdp ss ps fresh by (simp add: live_start_def multicast_get_instance_def w0_def [symmetric])
  then show ?thesis
    using inv4 st4 st3 g insert_event_subscribed [OF ie]
    by (intro exI [of _ w4] exI [of _ "the (rw_stream w4)"] exI [of _ codec])
      (simp add: new_multicast_stream_def live_sdp_def)
qed

text \<open>
  C36: \<open>VideoInitializer::start\<close> reaches its accept loop with the live stream described and subscribed.
  On a fresh system with a camera of at least 30 frames per second, no subscription of period 0, GStreamer elements that link and a
  bus that reports, whatever the interleaving of the description's callbacks: the listener maps only
  \<open>/live\<close>, to a device; the stream singleton has the multicast group of \<open>start\<close> and the description of
  the samples seen; the queue feeds \<open>live\<close>; and references and frames are in order.
\<close>
theorem start_serves_live:
  assumes inv: "rtsp_inv H w" and fresh: "rw_stream w = None" and cfg: "vi_vid_config vi = Some c"
    and rate: "length (video_frame_rate c) < 2 ^ 64"
    and gst: "re_make env ''pipeline''" "\<forall>es. re_link_many env es" "bus_loop (re_bus env) \<noteq> None"
    and steps: "\<forall>st \<in> set steps. step_ok st"
    and cnt: "- (2 ^ 31) \<le> rw_cnt w" "rw_cnt w + int (length steps) < 2 ^ 31"
    and rates: "30 \<le> q_device_fps (rw_queue w)" "served (rw_queue w)"
  shows "\<exists>w1 ms codec. video_start env ac steps vi w =
      Inr (Some (Serving (rtsp_listener_ctor ac [(''/live'', ''/dev/video'')]) w1,
        vi\<lparr>vi_remove_enable := True, vi_remove_thread := Some Detached\<rparr>)) \<and>
    rtsp_inv H w1 \<and> rw_stream w1 = Some ms \<and> ms_ip_addr ms = ''239.255.1.1'' \<and> ms_port ms = 5004 \<and>
    gathered steps (Some new_codec_info) = Some codec \<and> ms_codec_info ms = Some codec \<and>
    ms_sdp_str ms = live_sdp env ms codec \<and> um_find (q_thread_info (rw_queue w1)) ''live'' \<noteq> None"
proof -
  from live_start_serves [OF inv fresh rate gst steps cnt rates, of ac] obtain w1 ms codec where
    "live_start env ac (Some c) steps w = Inr (Some (rtsp_listener_ctor ac [(''/live'', ''/dev/video'')], w1))"
    and r: "rtsp_inv H w1" "rw_stream w1 = Some ms" "ms_ip_addr ms = ''239.255.1.1''" "ms_port ms = 5004"
      "gathered steps (Some new_codec_info) = Some codec" "ms_codec_info ms = Some codec"
      "ms_sdp_str ms = live_sdp env ms codec" "um_find (q_thread_info (rw_queue w1)) ''live'' \<noteq> None" by blast
  then have "video_start env ac steps vi w =
      Inr (Some (Serving (rtsp_listener_ctor ac [(''/live'', ''/dev/video'')]) w1,
        vi\<lparr>vi_remove_enable := True, vi_remove_thread := Some Detached\<rparr>))"
    using cfg by (simp add: video_start_def)
  with r show ?thesis by blast
qed

definition demo_video_initializer :: "unit video_initializer" where
  "demo_video_initializer =
     \<lparr>vi_vid_config = Some demo_rtsp_config,
      vi_handler = \<lparr>vh_video_config = Some demo_rtsp_config, vh_file_lock = False\<rparr>,
      vi_remove_thread = None, vi_remove_enable = False\<rparr>"

theorem start_serves_live_witness:
  "\<exists>l w vi. video_start demo_rtsp_env \<lparr>ac_open = True, ac_reuse = True, ac_bind = True, ac_listen = True\<rparr>
     [New_sample (Some (Some [(''encoding-name'', G_string (Some ''H264''))]))] demo_video_initializer (demo_rtsp_world None) =
     Inr (Some (Serving l w, vi)) \<and> li_listening l \<and> um_find (q_thread_info (rw_queue w)) ''live'' \<noteq> None"
proof -
  let ?ac = "\<lparr>ac_open = True, ac_reuse = True, ac_bind = True, ac_listen = True\<rparr>"
  let ?steps = "[New_sample (Some (Some [(''encoding-name'', G_string (Some ''H264''))]))]"
  have "rw_stream (demo_rtsp_world None) = None" "vi_vid_config demo_video_initializer = Some demo_rtsp_config"
    "length (video_frame_rate demo_rtsp_config) < 2 ^ 64" "re_make demo_rtsp_env ''pipeline''"
    "\<forall>es. re_link_many demo_rtsp_env es" "bus_loop (re_bus demo_rtsp_env) \<noteq> None" "\<forall>st \<in> set ?steps. step_ok st"
    "- (2 ^ 31) \<le> rw_cnt (demo_rtsp_world None)" "rw_cnt (demo_rtsp_world None) + int (length ?steps) < 2 ^ 31"
    by (simp_all add: demo_rtsp_world_def demo_video_initializer_def demo_rtsp_config_def video_frame_rate_def
        demo_rtsp_env_def step_ok_def)
  from start_serves_live [OF demo_rtsp_world_inv this demo_rtsp_world_served, of ?ac]
  show ?thesis by (auto simp: rtsp_listener_ctor_def)
qed

subsection \<open>The end of the program\<close>

text \<open>
  \<open>main\<close> has three ends: 1 without an address, changing nothing; 0 when an exception left the accept
  loop; or it serves, with an address and exactly the path \<open>/live\<close>.
\<close>

lemma main_result:
  assumes "main_program e argv g = Inr (Some (r, g'))"
  shows "(case r of
      Returned n \<Rightarrow> n = (if length argv = 2 then 0 else 1) \<and> (length argv \<noteq> 2 \<longrightarrow> g' = g)
    | Serving l w \<Rightarrow> length argv = 2 \<and> li_path l = [(''/live'', ''/dev/video'')])"
proof (cases "\<exists>a ip. argv = [a, ip]")
  case False
  then have "main_program e argv g = Inr (Some (Returned 1, g))" and "length argv \<noteq> 2"
    by (auto simp: main_program_def length_Suc_conv numeral_2_eq_2 split: list.splits)
  with assms show ?thesis by auto
next
  case True
  then obtain a ip where argv: "argv = [a, ip]" by blast
  have start: "li_path l = [(''/live'', ''/dev/video'')]" if "video_start env ac steps vi w = Inr (Some (Serving l w1, vi1))"
    for env ac steps vi w l w1 vi1
    using that by (auto simp: video_start_def live_start_def rtsp_listener_ctor_def rbind_eq_Inr sbind_eq_Some Let_def
        case_prod_beta split: sum.splits fault.splits option.splits)
  from assms argv obtain e1 g1 s x where v: "main_video e1 g1 = Inr (Some (s, x, g'))"
    and r: "r = (case s of Serving l w \<Rightarrow> s | Returned n \<Rightarrow> Returned 0)"
    by (auto simp: main_program_def rbind_eq_Inr sbind_eq_Some Let_def)
  have "li_path l = [(''/live'', ''/dev/video'')]" if "s = Serving l w" for l w
    using v that by (auto simp: main_video_def rbind_eq_Inr sbind_eq_Some Let_def split: prod.splits dest!: start)
  with r argv show ?thesis by (cases s) auto
qed

text \<open>\<open>stop\<close> after \<open>start\<close>: joining the thread that \<open>start\<close> detached throws.\<close>

lemma video_stop_throws:
  "video_start env ac steps vi w = Inr (Some (r, vi1)) \<Longrightarrow> video_stop vi1 = Inl (Uncaught System_error)"
  by (auto simp: video_start_def video_stop_def Let_def split: sum.splits fault.splits option.splits)

end
