(* ===== verification/Program_System.thy ===== *)
theory Program_System
  imports Main_Program Rtsp_System
begin

text \<open>
  The program as a whole, from the moment \<open>main\<close> serves: the camera's thread, the distributor, the
  threads of the event programs, the HTTP requests in progress, the threads that send clips, the one that
  removes old recordings, the RTSP sessions with their packets, and the playing live stream, all on
  one frame queue and one file system.

  \<open>system_step\<close> is one step of one thread, chosen by an \<open>action\<close> that also carries what its environment
  answers; \<open>None\<close> when that thread cannot go on in this state.  Threads share data only through the
  operations of \<open>VideoQueue\<close>, the file system and the handlers' tables, so a frame a thread has popped
  is used and freed in the same step.
\<close>

subsection \<open>State\<close>

text \<open>
  A thread of an event program: before it subscribes, in its loop, waiting inside \<open>pop\<close> for a frame of
  the name it passed, or done.  A request in progress
  keeps what libmicrohttpd passes to every call of its handler, and \<open>*con_cls\<close>.
\<close>

datatype thread_phase = Starting | Looping | Waiting string | Finished

record 'pp http_request =
  hr_url :: string
  hr_method :: string
  hr_headers :: "(string \<times> string) list"
  hr_con :: "'pp connection_info option"

record ('p, 'h, 'pp, 'd) camera_system =
  cs_config :: "'p video_config option"
  cs_camera :: "('p, 'd) camera"
  cs_capturing :: bool
  cs_live_waiting :: bool
  cs_rtsp :: rtsp_system
  cs_http :: event_http
  cs_video :: "'p video_handler"
  cs_events :: "'h event_handler"
  cs_phase :: "addr \<Rightarrow> thread_phase"
  cs_requests :: "nat \<Rightarrow> 'pp http_request option"
  cs_responses :: "(int \<times> string) list"
  cs_clips :: "(string \<times> string) list"
  cs_leaks :: "'pp leak list"
  cs_net :: "curl_request list"

record ('p, 'h, 'd) system_env = "('p, 'h) main_env" +
  sv_driver :: "'d v4l2"
  sv_gst :: gst_env

definition world_of :: "('p, 'h, 'pp, 'd) camera_system \<Rightarrow> rtsp_world" where
  "world_of s = sy_world (cs_rtsp s)"

definition put_world :: "rtsp_world \<Rightarrow> ('p, 'h, 'pp, 'd) camera_system \<Rightarrow> ('p, 'h, 'pp, 'd) camera_system" where
  "put_world w s = s\<lparr>cs_rtsp := (cs_rtsp s)\<lparr>sy_world := w\<rparr>\<rparr>"

definition queue_of :: "('p, 'h, 'pp, 'd) camera_system \<Rightarrow> vqueue" where
  "queue_of s = rw_queue (world_of s)"

definition put_queue :: "vqueue \<Rightarrow> ('p, 'h, 'pp, 'd) camera_system \<Rightarrow> ('p, 'h, 'pp, 'd) camera_system" where
  "put_queue q s = put_world ((world_of s)\<lparr>rw_queue := q\<rparr>) s"

text \<open>What the HTTP handlers see of the system, and the system after one of them.\<close>

definition http_view :: "('p, 'h, 'pp, 'd) camera_system \<Rightarrow> ('p, 'h) http_world" where
  "http_view s =
     \<lparr>w_fs = rw_fs (world_of s), w_http = cs_http s, w_video = cs_video s, w_events = cs_events s,
      w_queue = queue_of s, w_responses = cs_responses s, w_video_threads = cs_clips s\<rparr>"

definition put_http ::
  "('p, 'h) http_world \<Rightarrow> ('p, 'h, 'pp, 'd) camera_system \<Rightarrow> ('p, 'h, 'pp, 'd) camera_system" where
  "put_http v s =
     (put_world ((world_of s)\<lparr>rw_fs := w_fs v, rw_queue := w_queue v\<rparr>) s)
       \<lparr>cs_http := w_http v, cs_video := w_video v, cs_events := w_events v, cs_responses := w_responses v,
        cs_clips := w_video_threads v\<rparr>"

subsection \<open>Threads\<close>

text \<open>The thread of the camera, once \<open>start\<close> has turned the stream on.\<close>

definition capture_step ::
  "('p, 'h, 'd) system_env \<Rightarrow> ('p, 'h, 'pp, 'd) camera_system \<Rightarrow> ('p, 'h, 'pp, 'd) camera_system option res" where
  "capture_step e s =
     (if \<not> cs_capturing s then Inr None
      else
        rbind (loop_round (sv_driver e) (cs_camera s, queue_of s)) (\<lambda>(r, c, q).
        Inr (Some ((put_queue q s)\<lparr>cs_camera := c, cs_capturing := (r = None)\<rparr>))))"

definition distribute_step ::
  "int \<Rightarrow> ('p, 'h, 'pp, 'd) camera_system \<Rightarrow> ('p, 'h, 'pp, 'd) camera_system option res" where
  "distribute_step t s = rbind (distribute_round t (queue_of s)) (\<lambda>q. Inr (Some (put_queue q s)))"

text \<open>
  The thread on the processor at an address: its subscription, then its rounds.  A round that finds nothing
  stays inside \<open>pop\<close>: the thread's next turn tries the wait again, and no longer the checks at the entry.
\<close>

definition thread_enters ::
  "addr \<Rightarrow> ('p, 'h, 'pp, 'd) camera_system \<Rightarrow> ('p, 'h, 'pp, 'd) camera_system option res" where
  "thread_enters a s =
     (if a \<notin> set (h_running (cs_events s)) \<or> cs_phase s a \<noteq> Starting then Inr None
      else
        case h_processors (cs_events s) a of
          None \<Rightarrow> Inl UseAfterFree
        | Some p \<Rightarrow> rbind (event_enter p (queue_of s)) (\<lambda>q.
            Inr (Some ((put_queue q s)\<lparr>cs_phase := (cs_phase s)(a := Looping)\<rparr>))))"

definition thread_turn ::
  "('p, 'h, 'd) system_env \<Rightarrow> addr \<Rightarrow> ('p, 'h, 'pp, 'd) camera_system \<Rightarrow>
     (thread_status \<times> vqueue \<times> curl_request list) res" where
  "thread_turn e a s =
     (case cs_phase s a of
        Waiting name \<Rightarrow> thread_resume (mn_net e) (cs_http s) a name (cs_events s) (queue_of s, cs_net s)
      | _ \<Rightarrow> thread_round (mn_net e) (cs_http s) a (cs_events s) (queue_of s, cs_net s))"

text \<open>The name a turn takes its frame by: the thread's copy of it, or the processor's.\<close>

definition turn_name :: "addr \<Rightarrow> ('p, 'h, 'pp, 'd) camera_system \<Rightarrow> string option" where
  "turn_name a s =
     (case cs_phase s a of
        Waiting name \<Rightarrow> Some name
      | _ \<Rightarrow> map_option ep_event_name (h_processors (cs_events s) a))"

definition phase_after :: "addr \<Rightarrow> ('p, 'h, 'pp, 'd) camera_system \<Rightarrow> thread_status \<Rightarrow> thread_phase" where
  "phase_after a s status =
     (case status of
        Running \<Rightarrow> Looping
      | Ended \<Rightarrow> Finished
      | Blocked \<Rightarrow> (case turn_name a s of None \<Rightarrow> cs_phase s a | Some name \<Rightarrow> Waiting name))"

definition thread_turns ::
  "('p, 'h, 'd) system_env \<Rightarrow> addr \<Rightarrow> ('p, 'h, 'pp, 'd) camera_system \<Rightarrow> ('p, 'h, 'pp, 'd) camera_system option res" where
  "thread_turns e a s =
     (if a \<notin> set (h_running (cs_events s)) \<or> cs_phase s a = Starting \<or> cs_phase s a = Finished then Inr None
      else
        rbind (thread_turn e a s) (\<lambda>(status, q, net).
        Inr (Some ((put_queue q s)\<lparr>cs_net := net, cs_phase := (cs_phase s)(a := phase_after a s status)\<rparr>))))"

text \<open>The thread that sends a clip, and a round of the one that removes recordings.\<close>

definition clip_step ::
  "('p, 'h, 'd) system_env \<Rightarrow> nat \<Rightarrow> ('p, 'h, 'pp, 'd) camera_system \<Rightarrow> ('p, 'h, 'pp, 'd) camera_system option res" where
  "clip_step e i s =
     (if i < length (cs_clips s) then
        let (clip, event_id) = cs_clips s ! i in
        Inr (Some (s\<lparr>cs_clips := take i (cs_clips s) @ drop (Suc i) (cs_clips s),
                     cs_net := snd (video_send (mn_net e) (cs_http s) clip event_id (cs_net s))\<rparr>))
      else Inr None)"

definition clean_step ::
  "('p, 'h, 'd) system_env \<Rightarrow> int \<Rightarrow> ('p, 'h, 'pp, 'd) camera_system \<Rightarrow> ('p, 'h, 'pp, 'd) camera_system option res" where
  "clean_step e now s =
     rbind (deref (cs_config s)) (\<lambda>c.
     sbind (remove_video (mn_cwd e) now (to_int32 (maintain c)) (save_path c) (cs_video s, rw_fs (world_of s)))
       (\<lambda>(_, vh, fs). Inr (Some ((put_world ((world_of s)\<lparr>rw_fs := fs\<rparr>) s)\<lparr>cs_video := vh\<rparr>))))"

subsection \<open>Requests\<close>

definition request_arrives ::
  "nat \<Rightarrow> string \<Rightarrow> string \<Rightarrow> (string \<times> string) list \<Rightarrow> ('p, 'h, 'pp, 'd) camera_system \<Rightarrow>
     ('p, 'h, 'pp, 'd) camera_system option res" where
  "request_arrives k url method headers s =
     (if cs_requests s k \<noteq> None then Inr None
      else Inr (Some (s\<lparr>cs_requests := (cs_requests s)(k \<mapsto>
        \<lparr>hr_url = url, hr_method = method, hr_headers = headers, hr_con = None\<rparr>)\<rparr>)))"

definition request_data ::
  "('p, 'h, 'd) system_env \<Rightarrow> 'pp mhd_env \<Rightarrow> nat \<Rightarrow> string \<Rightarrow> ('p, 'h, 'pp, 'd) camera_system \<Rightarrow>
     ('p, 'h, 'pp, 'd) camera_system option res" where
  "request_data e mhd k data s =
     (case cs_requests s k of
        None \<Rightarrow> Inr None
      | Some r \<Rightarrow>
          sbind (libmicrohttpd_handler mhd (sv_gst e) (mn_processor e (mn_cwd e)) (mn_cwd e) (hr_headers r)
                   (hr_url r) (hr_method r) data (hr_con r) (http_view s)) (\<lambda>(_, con, _, v).
          Inr (Some ((put_http v s)\<lparr>cs_requests := (cs_requests s)(k \<mapsto> r\<lparr>hr_con := con\<rparr>)\<rparr>))))"

definition request_completes ::
  "('p, 'h, 'd) system_env \<Rightarrow> 'pp mhd_env \<Rightarrow> os_env \<Rightarrow> nat \<Rightarrow> ('p, 'h, 'pp, 'd) camera_system \<Rightarrow>
     ('p, 'h, 'pp, 'd) camera_system option res" where
  "request_completes e mhd os k s =
     (case cs_requests s k of
        None \<Rightarrow> Inr None
      | Some r \<Rightarrow>
          rbind (post_request_complete mhd os (mn_cwd e) (hr_con r) (http_view s)) (\<lambda>(lost, v).
          Inr (Some ((put_http v s)\<lparr>cs_requests := (cs_requests s)(k := None), cs_leaks := cs_leaks s @ lost\<rparr>))))"

subsection \<open>RTSP\<close>

definition session_opens ::
  "rtsp_conn \<Rightarrow> nat \<Rightarrow> string \<Rightarrow> ('p, 'h, 'pp, 'd) camera_system \<Rightarrow> ('p, 'h, 'pp, 'd) camera_system option res" where
  "session_opens conn k uuid s =
     (if sy_sessions (cs_rtsp s) k \<noteq> None then Inr None
      else
        rbind (build_session conn uuid (sy_path (cs_rtsp s)) (world_of s)) (\<lambda>st.
        Inr (Some (s\<lparr>cs_rtsp := put_view k (st\<lparr>ss_sent := sy_sent (cs_rtsp s)\<rparr>) (cs_rtsp s)\<rparr>))))"

definition session_reads ::
  "('p, 'h, 'd) system_env \<Rightarrow> rtsp_conn \<Rightarrow> nat \<Rightarrow> int \<Rightarrow> rtsp_request \<Rightarrow> ('p, 'h, 'pp, 'd) camera_system \<Rightarrow>
     ('p, 'h, 'pp, 'd) camera_system option res" where
  "session_reads e conn k junk req s =
     (if sy_sessions (cs_rtsp s) k = None then Inr None
      else
        sbind (read (rtsp_ops (mn_rtsp e) (cs_config s) (mn_steps e)) make_rtsp_handler conn junk req (view k (cs_rtsp s)))
          (\<lambda>(_, st). Inr (Some (s\<lparr>cs_rtsp := put_view k st (cs_rtsp s)\<rparr>))))"

definition session_ends ::
  "('p, 'h, 'd) system_env \<Rightarrow> nat \<Rightarrow> ('p, 'h, 'pp, 'd) camera_system \<Rightarrow> ('p, 'h, 'pp, 'd) camera_system option res" where
  "session_ends e k s =
     (if sy_sessions (cs_rtsp s) k = None then Inr None
      else
        rbind (destroy_session (rtsp_ops (mn_rtsp e) (cs_config s) (mn_steps e)) (view k (cs_rtsp s)))
          (\<lambda>st. Inr (Some (s\<lparr>cs_rtsp := put_view k st (cs_rtsp s)\<rparr>))))"

text \<open>A packet of the recording a session plays, by the callback of its RTP or its RTCP sink.\<close>

definition packet_step ::
  "(addr \<Rightarrow> rtp_buffer option \<Rightarrow> rtsp_world \<Rightarrow> (flow \<times> rtsp_world) res) \<Rightarrow> nat \<Rightarrow> rtp_buffer option \<Rightarrow>
     ('p, 'h, 'pp, 'd) camera_system \<Rightarrow> ('p, 'h, 'pp, 'd) camera_system option res" where
  "packet_step callback k sample s =
     (case info_of k (cs_rtsp s) of
        None \<Rightarrow> Inr None
      | Some a \<Rightarrow> rbind (callback a sample (world_of s)) (\<lambda>(_, w). Inr (Some (put_world w s))))"

text \<open>
  The callback of the live stream, which waits inside \<open>pop\<close> when it finds nothing; its next step then goes on
  from there.
\<close>

definition live_step ::
  "need_data_env \<Rightarrow> ('p, 'h, 'pp, 'd) camera_system \<Rightarrow> ('p, 'h, 'pp, 'd) camera_system option res" where
  "live_step nd s =
     rbind (if cs_live_waiting s then play_resume nd (world_of s) else play_need_data (cs_config s) nd (world_of s))
       (\<lambda>r. Inr (Some (case r of
                  None \<Rightarrow> s\<lparr>cs_live_waiting := True\<rparr>
                | Some w \<Rightarrow> (put_world w s)\<lparr>cs_live_waiting := False\<rparr>)))"

subsection \<open>Steps\<close>

datatype 'pp action =
    Capture
  | Distribute int
  | Thread_enters addr
  | Thread_turns addr
  | Send_clip nat
  | Clean_up int
  | Request_arrives nat string string "(string \<times> string) list"
  | Request_data "'pp mhd_env" nat string
  | Request_completes "'pp mhd_env" os_env nat
  | Session_opens rtsp_conn nat string
  | Session_reads rtsp_conn nat int rtsp_request
  | Session_ends nat
  | Rtp_packet nat "rtp_buffer option"
  | Rtcp_packet nat "rtp_buffer option"
  | Live_frame need_data_env

fun system_step ::
  "('p, 'h, 'd) system_env \<Rightarrow> 'pp action \<Rightarrow> ('p, 'h, 'pp, 'd) camera_system \<Rightarrow>
     ('p, 'h, 'pp, 'd) camera_system option res" where
  "system_step e Capture s = capture_step e s"
| "system_step e (Distribute t) s = distribute_step t s"
| "system_step e (Thread_enters a) s = thread_enters a s"
| "system_step e (Thread_turns a) s = thread_turns e a s"
| "system_step e (Send_clip i) s = clip_step e i s"
| "system_step e (Clean_up now) s = clean_step e now s"
| "system_step e (Request_arrives k url method headers) s = request_arrives k url method headers s"
| "system_step e (Request_data mhd k data) s = request_data e mhd k data s"
| "system_step e (Request_completes mhd os k) s = request_completes e mhd os k s"
| "system_step e (Session_opens conn k uuid) s = session_opens conn k uuid s"
| "system_step e (Session_reads conn k junk req) s = session_reads e conn k junk req s"
| "system_step e (Session_ends k) s = session_ends e k s"
| "system_step e (Rtp_packet k sample) s = packet_step rtp_appsink_new_sample_callback k sample s"
| "system_step e (Rtcp_packet k sample) s = packet_step rtcp_appsink_new_sample_callback k sample s"
| "system_step e (Live_frame nd) s = live_step nd s"

subsection \<open>Boot\<close>

text \<open>
  The system \<open>main\<close> leaves when it serves: no request and no session, the threads of the event programs
  before their subscription, the camera's loop entered if its stream could be started.  The HTTP
  handlers are singletons built at their first use, here if nothing used them before.  \<open>None\<close> when
  \<open>main\<close> returns.
\<close>

definition serving_system ::
  "('p, 'h, 'd) system_env \<Rightarrow> 'd \<Rightarrow> rtsp_listener \<Rightarrow> rtsp_world \<Rightarrow> ('p, 'h) program \<Rightarrow>
     ('p, 'h, 'pp, 'd) camera_system res" where
  "serving_system e dev l w g =
     (let (pc1, rh) = get_http_config (mn_lib e) (pg_config g);
          (pc2, rv) = get_video_config (mn_lib e) pc1 in
      rbind (throw_uncaught rh) (\<lambda>hcfg.
      rbind (throw_uncaught rv) (\<lambda>vcfg.
      rbind (http_handlers (mn_can_open e) (mn_cwd e) vcfg hcfg ((pg_boot g)\<lparr>bt_fs := rw_fs w\<rparr>)) (\<lambda>(eh, b).
      rbind (deref (bt_handlers b)) (\<lambda>(vh, _).
      rbind (camera_thread (mn_lib e) (mn_pixfmts e) (sv_driver e) dev pc2 (Some (rw_queue w))) (\<lambda>(capturing, c, _, q).
      rbind (deref q) (\<lambda>queue.
      Inr \<lparr>cs_config = vcfg, cs_camera = c, cs_capturing = capturing, cs_live_waiting = False,
        cs_rtsp = \<lparr>sy_sessions = (\<lambda>_. None), sy_path = li_path l,
          sy_world = w\<lparr>rw_fs := bt_fs b, rw_queue := queue\<rparr>, sy_sent = []\<rparr>,
        cs_http = eh, cs_video = vh, cs_events = pg_events g, cs_phase = (\<lambda>_. Starting),
        cs_requests = (\<lambda>_. None), cs_responses = [], cs_clips = [], cs_leaks = [],
        cs_net = bt_net b\<rparr>)))))))"

definition boot_system ::
  "('p, 'h, 'd) system_env \<Rightarrow> 'd \<Rightarrow> string list \<Rightarrow> ('p, 'h) program \<Rightarrow> ('p, 'h, 'pp, 'd) camera_system option res" where
  "boot_system e dev argv g =
     sbind (main_program (main_env.truncate e) argv g) (\<lambda>(r, g1).
     case r of
       Returned _ \<Rightarrow> Inr None
     | Serving l w \<Rightarrow> rbind (serving_system e dev l w g1) (\<lambda>s. Inr (Some s)))"

subsection \<open>Runs\<close>

text \<open>The states of the runs all of whose actions are admitted.\<close>

inductive system_reachable ::
  "('p, 'h, 'd) system_env \<Rightarrow> (('p, 'h, 'pp, 'd) camera_system \<Rightarrow> 'pp action \<Rightarrow> bool) \<Rightarrow>
     ('p, 'h, 'pp, 'd) camera_system \<Rightarrow> ('p, 'h, 'pp, 'd) camera_system \<Rightarrow> bool"
  for e admitted s0 where
  Boot: "system_reachable e admitted s0 s0"
| Act: "system_reachable e admitted s0 s \<Longrightarrow> admitted s act \<Longrightarrow> system_step e act s = Inr (Some s') \<Longrightarrow>
    system_reachable e admitted s0 s'"

end
