(* ===== verification/Program_Inv.thy ===== *)
theory Program_Inv
  imports Program_System Rtsp_Quiet Http_Props Camera_Props
begin

text \<open>
  The composed program: what each of its steps keeps.  \<open>handler_effect\<close> is what a call of the HTTP handler does
  outside its own request, \<open>composed_inv\<close> the invariant, \<open>composed_step\<close> its preservation by every action.
\<close>

lemmas system_steps = capture_step_def distribute_step_def thread_enters_def thread_turns_def clip_step_def
  clean_step_def request_arrives_def request_data_def request_completes_def session_opens_def session_reads_def
  session_ends_def packet_step_def live_step_def

lemma system_simps [simp]:
  "world_of (put_world w s) = w" "cs_rtsp (put_world w s) = (cs_rtsp s)\<lparr>sy_world := w\<rparr>"
  "queue_of (put_world w s) = rw_queue w" "queue_of (put_queue q s) = q"
  "world_of (put_queue q s) = (world_of s)\<lparr>rw_queue := q\<rparr>"
  "sy_world (cs_rtsp s) = world_of s"
  by (simp_all add: world_of_def put_world_def queue_of_def put_queue_def)

lemma put_world_frame [simp]:
  "cs_config (put_world w s) = cs_config s" "cs_camera (put_world w s) = cs_camera s"
  "cs_capturing (put_world w s) = cs_capturing s" "cs_http (put_world w s) = cs_http s"
  "cs_video (put_world w s) = cs_video s" "cs_events (put_world w s) = cs_events s"
  "cs_phase (put_world w s) = cs_phase s" "cs_requests (put_world w s) = cs_requests s"
  "cs_responses (put_world w s) = cs_responses s" "cs_clips (put_world w s) = cs_clips s"
  "cs_leaks (put_world w s) = cs_leaks s" "cs_net (put_world w s) = cs_net s"
  "cs_live_waiting (put_world w s) = cs_live_waiting s"
  by (simp_all add: put_world_def)

lemma put_queue_frame [simp]:
  "cs_config (put_queue q s) = cs_config s" "cs_camera (put_queue q s) = cs_camera s"
  "cs_capturing (put_queue q s) = cs_capturing s" "cs_http (put_queue q s) = cs_http s"
  "cs_video (put_queue q s) = cs_video s" "cs_events (put_queue q s) = cs_events s"
  "cs_phase (put_queue q s) = cs_phase s" "cs_requests (put_queue q s) = cs_requests s"
  "cs_responses (put_queue q s) = cs_responses s" "cs_clips (put_queue q s) = cs_clips s"
  "cs_leaks (put_queue q s) = cs_leaks s" "cs_net (put_queue q s) = cs_net s"
  "cs_live_waiting (put_queue q s) = cs_live_waiting s"
  by (simp_all add: put_queue_def)

lemma waiting_frame [simp]:
  "world_of (s\<lparr>cs_live_waiting := b\<rparr>) = world_of s" "queue_of (s\<lparr>cs_live_waiting := b\<rparr>) = queue_of s"
  by (simp_all add: world_of_def queue_of_def del: system_simps)

subsection \<open>Requests and upload slots\<close>

text \<open>
  \<open>*con_cls\<close> is an untyped pointer: what the code takes it for depends on the request alone.  An object
  with the tag \<open>POST\<close> is the upload of a POST of \<open>/program\<close>; the other two program requests leave the tag 0.
\<close>

definition con_typed :: "string \<Rightarrow> string \<Rightarrow> 'pp connection_info option \<Rightarrow> bool" where
  "con_typed url method con \<longleftrightarrow>
     (case con of
        None \<Rightarrow> True
      | Some c \<Rightarrow> method = ''POST'' \<and> cn_postprocessor c \<noteq> None \<and>
          (url = ''/program'' \<and> cn_connection_type c = method_code POST \<or>
           url \<in> {''/program/start'', ''/program/stop''} \<and> cn_connection_type c = method_code GET))"

definition is_upload :: "'pp connection_info option \<Rightarrow> bool" where
  "is_upload con \<longleftrightarrow> (case con of None \<Rightarrow> False | Some c \<Rightarrow> cn_connection_type c = method_code POST)"

definition slots_of :: "('p, 'h) http_world \<Rightarrow> 'pp connection_info option \<Rightarrow> int" where
  "slots_of v con = eh_upload_client (w_http v) + (if is_upload con then 1 else 0)"

lemma post_program_typed:
  "post_process mhd iterate_program_post data c = Inr c' \<Longrightarrow> cn_connection_type c' = cn_connection_type c \<and>
     (cn_postprocessor c \<noteq> None \<longrightarrow> cn_postprocessor c' \<noteq> None)"
  by (rule post_process_frame [of iterate_program_post, OF iterate_program_post_type])

lemma post_filename_typed:
  "post_process mhd iterate_get_filename data c = Inr c' \<Longrightarrow> cn_connection_type c' = cn_connection_type c \<and>
     (cn_postprocessor c \<noteq> None \<longrightarrow> cn_postprocessor c' \<noteq> None)"
  by (rule post_process_frame [of iterate_get_filename, OF iterate_get_filename_type])

text \<open>A reply only adds to the log of responses.\<close>

lemma queue_response_only: "queue_response mhd st p v = (r, v') \<Longrightarrow> \<exists>rs. v' = v\<lparr>w_responses := rs\<rparr>"
  by (cases v) (auto simp: queue_response_def split: if_splits)

lemma send_response_only: "send_response mhd p st v = (r, v') \<Longrightarrow> \<exists>rs. v' = v\<lparr>w_responses := rs\<rparr>"
  by (cases v) (auto simp: send_response_def split: if_splits dest: queue_response_only)

lemma reply_frame [simp]:
  "w_queue (snd (queue_response mhd st p v)) = w_queue v" "w_events (snd (queue_response mhd st p v)) = w_events v"
  "w_queue (snd (send_response mhd p st v)) = w_queue v" "w_events (snd (send_response mhd p st v)) = w_events v"
  by (simp_all add: queue_response_def send_response_def)

text \<open>The programs a call of the handler stops.\<close>

definition stopped_names :: "string \<Rightarrow> string \<Rightarrow> string \<Rightarrow> 'pp connection_info option \<Rightarrow> string set" where
  "stopped_names url method data con =
     (if url = ''/program/stop'' \<and> method = ''POST'' \<and> data = [] then cn_file_name ` set_option con else {})"

text \<open>What a handler does outside its own request.\<close>

definition control_effect ::
  "string set \<Rightarrow> (fs \<Rightarrow> string \<Rightarrow> 'h event_processor) \<Rightarrow> ('p, 'h) http_world \<Rightarrow> ('p, 'h) http_world \<Rightarrow> bool" where
  "control_effect X mk v v' \<longleftrightarrow>
     w_queue v' = w_queue v \<and> w_events v' = w_events v \<or>
     w_queue v' = w_queue v \<and> (\<exists>name. w_events v' = snd (start_event (mk (w_fs v)) name (w_events v))) \<or>
     (\<exists>name \<in> X. stop_event name (w_events v, w_queue v) = Inr (0, w_events v', w_queue v'))"

definition handler_effect ::
  "string set \<Rightarrow> (fs \<Rightarrow> string \<Rightarrow> 'h event_processor) \<Rightarrow> string \<Rightarrow> string \<Rightarrow> 'pp connection_info option \<Rightarrow> ('p, 'h) http_world \<Rightarrow>
     'pp connection_info option \<Rightarrow> ('p, 'h) http_world \<Rightarrow> bool" where
  "handler_effect X mk url method con v con' v' \<longleftrightarrow>
     con_typed url method con' \<and> slots_of v' con' = slots_of v con \<and>
     (is_upload con' \<longrightarrow> is_upload con \<or> 0 < eh_upload_client (w_http v)) \<and> (is_upload con \<longrightarrow> is_upload con') \<and>
     control_effect X mk v v'"

lemma reply_effect:
  assumes "con_typed url method con" and "v' = v\<lparr>w_responses := rs\<rparr>"
  shows "handler_effect X mk url method con v con v'"
  using assms by (simp add: handler_effect_def slots_of_def control_effect_def)

lemma program_accept_effect:
  assumes run: "program_accept mhd con data v = Inr (r, con', n, v')" and typed: "con_typed ''/program'' ''POST'' con"
  shows "handler_effect X mk ''/program'' ''POST'' con v con' v'"
proof (cases con)
  case None
  show ?thesis
  proof (cases "eh_upload_client (w_http v) \<le> 0")
    case True
    with None run have "con' = None" "\<exists>rs. v' = v\<lparr>w_responses := rs\<rparr>"
      by (auto simp: program_accept_def split: prod.splits dest: send_response_only)
    with None typed reply_effect show ?thesis by blast
  next
    case False
    with None run show ?thesis
      by (auto simp: program_accept_def rbind_eq_Inr int_sub_def chk32_eq_Inr handler_effect_def con_typed_def
          slots_of_def is_upload_def control_effect_def split: option.splits)
  qed
next
  case (Some c)
  with typed have c: "cn_postprocessor c \<noteq> None" "cn_connection_type c = method_code POST" by (auto simp: con_typed_def)
  have "\<exists>c'. con' = Some c' \<and> cn_postprocessor c' \<noteq> None \<and> cn_connection_type c' = method_code POST \<and>
      w_http v' = w_http v \<and> w_queue v' = w_queue v \<and> w_events v' = w_events v"
  proof (cases "data = []")
    case True
    with Some run c show ?thesis by (auto simp: program_accept_def Let_def split: if_splits sum.splits)
  next
    case False
    with Some run obtain c' where "post_process mhd iterate_program_post data c = Inr c'" "con' = Some c'" "v' = v"
      by (auto simp: program_accept_def rbind_eq_Inr)
    with c post_program_typed show ?thesis by fastforce
  qed
  with Some c show ?thesis
    by (auto simp: handler_effect_def con_typed_def slots_of_def is_upload_def control_effect_def)
qed

lemma post_open_effect:
  assumes run: "post_open mhd data v = Inr (r, con', n, v')" and url: "url \<in> {''/program/start'', ''/program/stop''}"
  shows "handler_effect X mk url ''POST'' None v con' v'"
proof (cases "mhd_create_post_processor mhd")
  case None
  with run have "con' = None" "\<exists>rs. v' = v\<lparr>w_responses := rs\<rparr>"
    by (auto simp: post_open_def split: prod.splits dest: send_response_only)
  then show ?thesis by (auto simp: con_typed_def intro!: reply_effect [OF _ refl])
next
  case (Some pp)
  with run url show ?thesis
    by (auto simp: post_open_def handler_effect_def con_typed_def slots_of_def is_upload_def control_effect_def
        new_connection_info_def)
qed

lemma control_continues:
  assumes "con_typed url ''POST'' (Some c)" and "url \<in> {''/program/start'', ''/program/stop''}"
    and "c' = c \<or> post_process mhd iterate_get_filename data c = Inr c'"
    and "w_http v' = w_http v" and "control_effect X mk v v'"
  shows "handler_effect X mk url ''POST'' (Some c) v (Some c') v'"
  using assms post_filename_typed [of mhd data c c']
  by (auto simp: handler_effect_def con_typed_def slots_of_def is_upload_def)

lemma program_start_accept_effect:
  assumes run: "program_start_accept mhd mk con data v = Inr (r, con', n, v')"
    and typed: "con_typed ''/program/start'' ''POST'' con"
  shows "handler_effect X mk ''/program/start'' ''POST'' con v con' v'"
proof (cases con)
  case None
  with run post_open_effect show ?thesis by (fastforce simp: program_start_accept_def)
next
  case (Some c)
  show ?thesis
  proof (cases "data = []")
    case True
    with Some run typed show ?thesis
      by (auto simp: program_start_accept_def control_effect_def intro!: control_continues)
  next
    case False
    with Some run obtain c' where "con' = Some c'" "post_process mhd iterate_get_filename data c = Inr c'" "v' = v"
      by (auto simp: program_start_accept_def rbind_eq_Inr)
    with Some typed show ?thesis by (auto simp: control_effect_def intro!: control_continues)
  qed
qed

lemma program_stop_accept_effect:
  assumes run: "program_stop_accept mhd con data v = Inr (r, con', n, v')"
    and typed: "con_typed ''/program/stop'' ''POST'' con"
  shows "handler_effect (stopped_names ''/program/stop'' ''POST'' data con) mk ''/program/stop'' ''POST'' con v con' v'"
proof (cases con)
  case None
  with run post_open_effect show ?thesis by (fastforce simp: program_stop_accept_def)
next
  case (Some c)
  show ?thesis
  proof (cases "data = []")
    case True
    with Some run obtain z h q where s: "stop_event (cn_file_name c) (w_events v, w_queue v) = Inr (z, h, q)"
      and v': "v' = v\<lparr>w_events := h, w_queue := q\<rparr>" "con' = Some c"
      by (auto simp: program_stop_accept_def rbind_eq_Inr)
    from s have "z = 0" by (auto simp: stop_event_def rbind_eq_Inr split: option.splits)
    with s v' True Some have "control_effect (stopped_names ''/program/stop'' ''POST'' data con) mk v v'"
      by (auto simp: control_effect_def stopped_names_def)
    with Some typed v' show ?thesis by (auto intro!: control_continues)
  next
    case False
    with Some run obtain c' where "con' = Some c'" "post_process mhd iterate_get_filename data c = Inr c'" "v' = v"
      by (auto simp: program_stop_accept_def rbind_eq_Inr)
    with Some typed show ?thesis by (auto simp: control_effect_def intro!: control_continues)
  qed
qed

lemma event_accept_only:
  assumes "event_accept mhd gst cwd headers v = Inr (Some (r, v'))"
  shows "w_http v' = w_http v \<and> w_queue v' = w_queue v \<and> w_events v' = w_events v"
proof -
  define e where "e = iterate_headers headers \<lparr>ev_time_stamp = 0, ev_id = ''''\<rparr>"
  have reply: "w_http v2 = w_http v1 \<and> w_queue v2 = w_queue v1 \<and> w_events v2 = w_events v1"
    if "send_response mhd p st v1 = (r, v2)" for p st v1 v2
    using send_response_only [OF that] by auto
  show ?thesis
  proof (cases "ev_id e = [] \<or> ev_time_stamp e = 0")
    case True
    with assms show ?thesis
      by (auto simp: event_accept_def Let_def e_def [symmetric] dest!: reply split: if_splits)
  next
    case False
    with assms obtain vid_ret vh fs1 where "process_video gst cwd (ev_time_stamp e) (ev_id e) (w_video v, w_fs v) =
        Inr (Some (vid_ret, vh, fs1))"
      by (auto simp: event_accept_def Let_def e_def [symmetric] rbind_eq_Inr split: option.splits)
    with False assms show ?thesis
      by (auto simp: event_accept_def Let_def e_def [symmetric] rbind_eq_Inr dest!: reply split: if_splits)
  qed
qed

lemma libmicrohttpd_handler_effect:
  assumes run: "libmicrohttpd_handler mhd gst mk cwd headers url method data con v = Inr (Some (r, con', n, v'))"
    and typed: "con_typed url method con"
  shows "handler_effect (stopped_names url method data con) mk url method con v con' v'"
proof -
  consider (event) "url = ''/event''" "method = ''POST''" | (program) "url = ''/program''" "method = ''POST''"
    | (start) "url = ''/program/start''" "method = ''POST''" | (stop) "url = ''/program/stop''" "method = ''POST''"
    | (other) "\<not> (method = ''POST'' \<and> url \<in> {''/event'', ''/program'', ''/program/start'', ''/program/stop''})"
    by blast
  then show ?thesis
  proof cases
    case event
    with run obtain w where "event_accept mhd gst cwd headers v = Inr (Some (r, w))" "con' = con" "v' = w"
      by (auto simp: libmicrohttpd_handler_def rbind_eq_Inr)
    with event_accept_only [of mhd gst cwd headers v] typed show ?thesis
      by (simp add: handler_effect_def slots_of_def control_effect_def)
  next
    case program
    with run typed show ?thesis
      by (auto simp: libmicrohttpd_handler_def rbind_eq_Inr intro: program_accept_effect)
  next
    case start
    with run typed show ?thesis
      by (auto simp: libmicrohttpd_handler_def rbind_eq_Inr intro: program_start_accept_effect)
  next
    case stop
    with run typed show ?thesis
      by (auto simp: libmicrohttpd_handler_def rbind_eq_Inr intro: program_stop_accept_effect)
  next
    case other
    have "\<exists>st p. libmicrohttpd_handler mhd gst mk cwd headers url method data con v =
        (let (ret, w1) = queue_response mhd st p v in Inr (Some (ret, con, length data, w1)))"
    proof (cases "url = ''/video''")
      case True
      then show ?thesis by (auto simp: libmicrohttpd_handler_def)
    next
      case False
      from other have "\<not> (url = ''/event'' \<and> method = ''POST'')" "\<not> (url = ''/program'' \<and> method = ''POST'')"
        "\<not> (url = ''/program/start'' \<and> method = ''POST'')" "\<not> (url = ''/program/stop'' \<and> method = ''POST'')"
        by blast+
      note no = this [THEN if_not_P] False [THEN if_not_P]
      have "libmicrohttpd_handler mhd gst mk cwd headers url method data con v =
          (let (ret, w1) = queue_response mhd 404 ''Invalid Request'' v in Inr (Some (ret, con, length data, w1)))"
        unfolding libmicrohttpd_handler_def no ..
      then show ?thesis by blast
    qed
    then obtain st p where "queue_response mhd st p v = (r, v')" "con' = con"
      using run by (auto simp: case_prod_beta prod_eq_iff)
    from queue_response_only [OF this(1)] this(2) show ?thesis using reply_effect [OF typed] by blast
  qed
qed

text \<open>The callback that ends a request.\<close>

lemma post_request_complete_only:
  assumes "post_request_complete mhd os cwd con v = Inr (ls, v')"
  shows "w_queue v' = w_queue v \<and> w_events v' = w_events v"
proof (cases con)
  case None
  with assms show ?thesis by (simp add: post_request_complete_def)
next
  case (Some c)
  show ?thesis
  proof (cases "cn_connection_type c = method_code POST")
    case False
    with assms Some show ?thesis by (simp add: post_request_complete_def)
  next
    case True
    with assms Some obtain v1 where v1: "release_slot c v = Inr v1"
      and r: "w_queue v' = w_queue v1" "w_events v' = w_events v1"
      by (auto simp: post_request_complete_def rbind_eq_Inr Let_def split: if_splits sum.splits prod.splits)
    from v1 have "w_queue v1 = w_queue v" "w_events v1 = w_events v"
      by (auto simp: release_slot_def rbind_eq_Inr split: if_splits)
    with r show ?thesis by simp
  qed
qed

subsection \<open>The table of requests\<close>

definition uploads_of :: "(nat \<Rightarrow> 'pp http_request option) \<Rightarrow> nat set" where
  "uploads_of rq = {k. \<exists>r. rq k = Some r \<and> is_upload (hr_con r)}"

definition slots_kept :: "int \<Rightarrow> (nat \<Rightarrow> 'pp http_request option) \<Rightarrow> int \<Rightarrow> bool" where
  "slots_kept N rq n \<longleftrightarrow> finite (uploads_of rq) \<and> n + int (card (uploads_of rq)) = N \<and>
     (uploads_of rq \<noteq> {} \<longrightarrow> 0 \<le> n)"

definition requests_typed :: "(nat \<Rightarrow> 'pp http_request option) \<Rightarrow> bool" where
  "requests_typed rq \<longleftrightarrow> (\<forall>k r. rq k = Some r \<longrightarrow> con_typed (hr_url r) (hr_method r) (hr_con r))"

lemma uploads_of_update [simp]:
  "uploads_of (rq(k \<mapsto> r)) = (if is_upload (hr_con r) then insert k (uploads_of rq) else uploads_of rq - {k})"
  "uploads_of (rq(k := None)) = uploads_of rq - {k}"
  by (auto simp: uploads_of_def split: if_splits)

lemma slots_request:
  assumes "slots_kept N rq n" and "rq k = Some r"
    and "n' + (if is_upload con' then 1 else 0) = n + (if is_upload (hr_con r) then 1 else 0)"
    and "is_upload con' \<longrightarrow> is_upload (hr_con r) \<or> 0 < n" and "is_upload (hr_con r) \<longrightarrow> is_upload con'"
  shows "slots_kept N (rq(k \<mapsto> r\<lparr>hr_con := con'\<rparr>)) n'"
proof -
  have k: "k \<in> uploads_of rq \<longleftrightarrow> is_upload (hr_con r)" using assms(2) by (simp add: uploads_of_def)
  show ?thesis
    using assms k by (cases "is_upload (hr_con r)"; cases "is_upload con'") (auto simp: slots_kept_def insert_absorb)
qed

lemma slots_complete:
  assumes "slots_kept N rq n" and "rq k = Some r" and "n' = n + (if is_upload (hr_con r) then 1 else 0)"
  shows "slots_kept N (rq(k := None)) n'"
proof -
  have k: "k \<in> uploads_of rq \<longleftrightarrow> is_upload (hr_con r)" using assms(2) by (simp add: uploads_of_def)
  show ?thesis
  proof (cases "is_upload (hr_con r)")
    case True
    with k have "card (uploads_of rq - {k}) = card (uploads_of rq) - 1" "k \<in> uploads_of rq" by simp_all
    moreover from this(2) assms(1) have "0 < card (uploads_of rq)" by (auto simp: slots_kept_def card_gt_0_iff)
    ultimately show ?thesis using assms True by (auto simp: slots_kept_def)
  next
    case False
    with k assms show ?thesis by (simp add: slots_kept_def)
  qed
qed

subsection \<open>The table of event programs\<close>

text \<open>
  Processors are allocated once, each runs on one thread, and the table points to processors that were
  allocated.
\<close>

definition events_ok :: "'h event_handler \<Rightarrow> bool" where
  "events_ok h \<longleftrightarrow> distinct (h_running h) \<and> (\<forall>a \<in> set (h_running h). a < h_next h) \<and>
     (\<forall>a. h_processors h a \<noteq> None \<longrightarrow> a \<in> set (h_running h)) \<and> um_wf (h_event_thread h) \<and>
     (\<forall>n a. um_find (h_event_thread h) n = Some a \<longrightarrow> a \<in> set (h_running h))"

lemma events_ok_start:
  assumes "events_ok h"
  shows "events_ok (snd (start_event mk name h))"
  using assms by (auto simp: events_ok_def start_event_def Let_def um_find_emplace less_Suc_eq split: if_splits)

lemma events_ok_stop:
  assumes "events_ok h" and "stop_event name (h, q) = Inr (r, h', q')"
  shows "events_ok h'"
  using assms by (auto simp: events_ok_def stop_event_def rbind_eq_Inr split: option.splits if_splits)

lemma control_effect_keeps:
  assumes c: "control_effect X mk v v'" and ev: "events_ok (w_events v)" and q: "vq_inv {} (w_queue v)"
  shows "events_ok (w_events v') \<and> queue_keeps {} X (w_queue v) (w_queue v')"
  using c unfolding control_effect_def
proof (elim disjE conjE exE bexE)
  fix name assume n: "name \<in> X" and s: "stop_event name (w_events v, w_queue v) = Inr (0, w_events v', w_queue v')"
  from s obtain r where rm: "remove_event name (w_queue v) = Inr (r, w_queue v')"
    by (auto simp: stop_event_def rbind_eq_Inr split: option.splits)
  have "queue_keeps {} X (w_queue v) (w_queue v')"
    using removed_keeps [OF q rm] n by (auto simp: queue_keeps_def)
  with events_ok_stop [OF ev s] show ?thesis by simp
qed (use ev q in \<open>auto simp: queue_keeps_refl intro: events_ok_start\<close>)

subsection \<open>The threads\<close>

lemma deque_frame:
  assumes run: "deque_v4l2_buffer k c q = Inr (Some (p, index), c2, q2)"
    and d: "v_dqbuf k (ci_fd c) (ci_dev c) = (r, i, n, d1)" and t: "v_time k d1 = (t, d2)"
  shows "\<exists>cfg a b. ci_cam_config c = Some cfg \<and> ci_camera_buffers c ! unat i = Some a \<and>
    b = \<lparr>vb_meta = metadata cfg, vb_time = t,
      vb_data = Some (case v_memory k d2 a of None \<Rightarrow> [] | Some bytes \<Rightarrow> take (unat n) bytes), vb_size = unat n\<rparr> \<and>
    frame_ok b \<and> new_buf b q = (p, q2)"
proof -
  from run d have r: "r \<noteq> -1" by (auto simp: deque_v4l2_buffer_def)
  with run d t obtain cfg where cfg: "ci_cam_config c = Some cfg"
    by (auto simp: deque_v4l2_buffer_def split: option.splits)
  with run d t r obtain a where a: "unat i < length (ci_camera_buffers c)" "ci_camera_buffers c ! unat i = Some a"
    by (auto simp: deque_v4l2_buffer_def split: option.splits if_splits)
  with run d t r cfg obtain bytes where m: "memcpy_bytes (v_memory k d2 a) (unat n) = Inr bytes"
    by (auto simp: deque_v4l2_buffer_def rbind_eq_Inr)
  let ?b = "\<lparr>vb_meta = metadata cfg, vb_time = t, vb_data = Some bytes, vb_size = unat n\<rparr>"
  from run d t r cfg a m have "new_buf ?b q = (p, q2)"
    by (auto simp: deque_v4l2_buffer_def new_buf_def)
  moreover from m have "frame_ok ?b" "bytes = (case v_memory k d2 a of None \<Rightarrow> [] | Some bytes \<Rightarrow> take (unat n) bytes)"
    by (auto simp: frame_ok_def memcpy_bytes_def split: if_splits option.splits)
  ultimately show ?thesis using cfg a(2) by blast
qed

lemma loop_round_keeps:
  assumes inv: "vq_inv H q" and run: "loop_round k (c, q) = Inr (r, c', q')"
  shows "queue_keeps H X q q'"
proof -
  obtain s d1 where s: "v_select k (ci_fd c) (ci_dev c) = (s, d1)" by fastforce
  show ?thesis
  proof (cases "s = 0")
    case True
    with run s inv show ?thesis by (simp add: loop_round_def queue_keeps_refl)
  next
    case False
    with run s obtain buf c2 q2 where d: "deque_v4l2_buffer k (c\<lparr>ci_dev := d1\<rparr>) q = Inr (buf, c2, q2)"
      and r: "case buf of None \<Rightarrow> q' = q2 | Some (p, index) \<Rightarrow> q' = snd (push p q2)"
      by (auto simp: loop_round_def rbind_eq_Inr split: option.splits)
    show ?thesis
    proof (cases buf)
      case None
      with d have "q2 = q" by (auto simp: deque_v4l2_buffer_def Let_def rbind_eq_Inr split: prod.splits if_splits option.splits)
      with None r inv show ?thesis by (simp add: queue_keeps_refl)
    next
      case (Some pi)
      obtain p index where pi: "pi = (p, index)" by fastforce
      with d Some deque_frame obtain b where "frame_ok b" "new_buf b q = (p, q2)" by (metis prod.collapse)
      from captured_keeps [OF inv this] r Some pi show ?thesis by simp
    qed
  qed
qed

lemma event_enter_keeps:
  assumes inv: "vq_inv H q" and run: "event_enter p q = Inr q'"
  shows "queue_keeps H X q q'"
proof -
  obtain ti q1 where n: "new_info \<lparr>ti_is_run = ep_enable p, ti_fps = ep_fps p\<rparr> q = (ti, q1)" by fastforce
  with run obtain r where "insert_event (ep_event_name p) (Some ti) q1 = Inr (r, q')"
    by (auto simp: event_enter_def rbind_eq_Inr)
  from subscribed_keeps [OF inv n this] show ?thesis by simp
qed

lemma event_popped_consumed:
  assumes p: "pop name q = Inr r" and run: "event_popped env eh p (q, net) r = Inr (st, q', net')"
  shows "consumed name q q'"
proof -
  consider "r = None" | q1 where "r = Some (None, q1)" | a q1 where "r = Some (Some a, q1)"
    by (metis option.exhaust surj_pair)
  then show ?thesis using assms by cases (auto simp: event_popped_def consumed_def rbind_eq_Inr)
qed

lemma thread_round_consumed:
  assumes "thread_round env eh a h (q, net) = Inr (st, q', net')"
  shows "\<exists>p. h_processors h a = Some p \<and> consumed (ep_event_name p) q q'"
proof -
  from assms obtain p where p: "h_processors h a = Some p" and e: "event_round env eh p (q, net) = Inr (st, q', net')"
    by (auto simp: thread_round_def split: option.splits)
  from e obtain r where "pop (ep_event_name p) q = Inr r" "event_popped env eh p (q, net) r = Inr (st, q', net')"
    by (auto simp: event_round_def rbind_eq_Inr)
  with event_popped_consumed p show ?thesis by blast
qed

lemma thread_resume_consumed:
  assumes inv: "vq_inv H q" and run: "thread_resume env eh a name h (q, net) = Inr (st, q', net')"
  shows "consumed name q q'"
proof -
  from run obtain r where p: "pop_resume name q = Inr r" by (auto simp: thread_resume_def rbind_eq_Inr)
  then have "pop name q = Inr r" using pop_resume_eq [OF inv, of name] by (simp split: if_splits)
  moreover from run p have "r = None \<and> q' = q \<or> (\<exists>p. h_processors h a = Some p \<and> event_popped env eh p (q, net) r = Inr (st, q', net'))"
    by (auto simp: thread_resume_def split: option.splits if_splits)
  ultimately show ?thesis using event_popped_consumed [of name q r] by (metis consumed_def)
qed

subsection \<open>The invariant\<close>

definition composed_inv :: "int \<Rightarrow> ('p, 'h, 'd) system_env \<Rightarrow> ('p, 'h, 'pp, 'd) camera_system \<Rightarrow> bool" where
  "composed_inv N e s \<longleftrightarrow> system_inv {} (mn_steps e) (cs_rtsp s) \<and> events_ok (cs_events s) \<and>
     requests_typed (cs_requests s) \<and> slots_kept N (cs_requests s) (eh_upload_client (cs_http s))"

lemma composed_invD:
  assumes "composed_inv N e s"
  shows "system_inv {} (mn_steps e) (cs_rtsp s)" "events_ok (cs_events s)" "requests_typed (cs_requests s)"
    "slots_kept N (cs_requests s) (eh_upload_client (cs_http s))" "rtsp_inv {} (world_of s)" "vq_inv {} (queue_of s)"
  using assms by (simp_all add: composed_inv_def system_inv_def boot_inv_def rtsp_inv_def queue_of_def)

text \<open>A step that changes the queue and the files only.\<close>

lemma shared_inv:
  assumes inv: "system_inv {} st r" and q: "queue_keeps {} X (rw_queue (sy_world r)) q"
  shows "system_inv {} st (r\<lparr>sy_world := (sy_world r)\<lparr>rw_fs := fs, rw_queue := q\<rparr>\<rparr>)"
proof (rule shared_step_inv [OF inv])
  show "touches {} (sy_world r) {} ((sy_world r)\<lparr>rw_fs := fs, rw_queue := q\<rparr>)" by (simp add: touches_def)
  have "rtsp_inv {} (sy_world r)" using inv by (simp add: system_inv_def boot_inv_def)
  with q show "rtsp_inv {} ((sy_world r)\<lparr>rw_fs := fs, rw_queue := q\<rparr>)"
    by (simp add: rtsp_inv_def queue_keeps_def refs_ok_def)
qed

lemma queue_step_inv:
  assumes "system_inv {} st (cs_rtsp s)" and "queue_keeps {} X (queue_of s) q"
  shows "system_inv {} st (cs_rtsp (put_queue q s))"
  using shared_inv [OF assms(1), of X q "rw_fs (world_of s)"] assms(2) by (simp add: put_queue_def queue_of_def)

text \<open>What an action stops, and what it keeps.\<close>

definition stopped_by :: "('p, 'h, 'pp, 'd) camera_system \<Rightarrow> 'pp action \<Rightarrow> string set" where
  "stopped_by s act =
     (case act of
        Request_data mhd k data \<Rightarrow>
          (case cs_requests s k of None \<Rightarrow> {} | Some r \<Rightarrow> stopped_names (hr_url r) (hr_method r) data (hr_con r))
      | _ \<Rightarrow> {})"

definition step_keeps ::
  "int \<Rightarrow> ('p, 'h, 'd) system_env \<Rightarrow> string set \<Rightarrow> ('p, 'h, 'pp, 'd) camera_system \<Rightarrow> ('p, 'h, 'pp, 'd) camera_system \<Rightarrow> bool" where
  "step_keeps N e X s s' \<longleftrightarrow> composed_inv N e s' \<and>
     (described (world_of s) \<longrightarrow> described (world_of s') \<and> queue_keeps {} X (queue_of s) (queue_of s'))"

lemma queue_step_keeps:
  assumes "composed_inv N e s" and "queue_keeps {} X (queue_of s) q"
    and "cs_rtsp s' = cs_rtsp (put_queue q s)" and "cs_events s' = cs_events s" and "cs_requests s' = cs_requests s"
    and "cs_http s' = cs_http s"
  shows "step_keeps N e X s s'"
proof -
  have w: "world_of s' = (world_of s)\<lparr>rw_queue := q\<rparr>"
    unfolding world_of_def [of s'] assms(3) by (simp add: put_queue_def)
  then have q: "queue_of s' = q" by (simp add: queue_of_def)
  have "system_inv {} (mn_steps e) (cs_rtsp s')"
    unfolding assms(3) by (rule queue_step_inv [OF composed_invD(1) [OF assms(1)] assms(2)])
  then have "composed_inv N e s'"
    unfolding composed_inv_def assms(4-6) using composed_invD(2-4) [OF assms(1)] by blast
  with assms(2) show ?thesis unfolding step_keeps_def q by (simp add: described_def w)
qed

lemma rtsp_step_keeps:
  assumes inv: "composed_inv N e s" and step: "rtsp_step (mn_rtsp e) (cs_config s) (mn_steps e) (cs_rtsp s) r"
    and q: "described (world_of s) \<Longrightarrow> described (sy_world r) \<and> queue_keeps {} X (queue_of s) (rw_queue (sy_world r))"
  shows "step_keeps N e X s (s\<lparr>cs_rtsp := r\<rparr>)"
proof -
  from rtsp_step_inv [OF step composed_invD(1) [OF inv]] composed_invD(2-4) [OF inv]
  have "composed_inv N e (s\<lparr>cs_rtsp := r\<rparr>)" by (simp add: composed_inv_def)
  moreover have "world_of (s\<lparr>cs_rtsp := r\<rparr>) = sy_world r" by (simp add: world_of_def)
  ultimately show ?thesis using q unfolding step_keeps_def queue_of_def by simp
qed

lemma undisturbed_keeps:
  assumes "composed_inv N e s" and "undisturbed (world_of s) w" and "described (world_of s)"
  shows "described w \<and> queue_keeps {} X (queue_of s) (rw_queue w)"
  using assms queue_keeps_refl [OF composed_invD(6) [OF assms(1)]] by (simp add: undisturbed_def queue_of_def)

lemma put_http_frame [simp]:
  "cs_http (put_http v s) = w_http v" "cs_events (put_http v s) = w_events v" "cs_requests (put_http v s) = cs_requests s"
  "world_of (put_http v s) = (world_of s)\<lparr>rw_fs := w_fs v, rw_queue := w_queue v\<rparr>"
  "cs_rtsp (put_http v s) = (cs_rtsp s)\<lparr>sy_world := (world_of s)\<lparr>rw_fs := w_fs v, rw_queue := w_queue v\<rparr>\<rparr>"
  by (simp_all add: put_http_def put_world_def world_of_def del: system_simps)

lemma http_view_simps [simp]:
  "w_http (http_view s) = cs_http s" "w_events (http_view s) = cs_events s" "w_queue (http_view s) = queue_of s"
  "w_fs (http_view s) = rw_fs (world_of s)"
  by (simp_all add: http_view_def)

text \<open>A step of an HTTP request: the data it brings, and its end.\<close>

lemma http_step_keeps:
  assumes inv: "composed_inv N e s" and ev: "events_ok (w_events v)" and q: "queue_keeps {} X (queue_of s) (w_queue v)"
    and s': "cs_rtsp s' = cs_rtsp (put_http v s)" "cs_events s' = w_events v" "cs_http s' = w_http v"
    and rq: "requests_typed (cs_requests s')" "slots_kept N (cs_requests s') (eh_upload_client (w_http v))"
  shows "step_keeps N e X s s'"
proof -
  have w: "world_of s' = (world_of s)\<lparr>rw_fs := w_fs v, rw_queue := w_queue v\<rparr>"
    unfolding world_of_def [of s'] s' by simp
  then have qs: "queue_of s' = w_queue v" by (simp add: queue_of_def)
  have "queue_keeps {} X (rw_queue (sy_world (cs_rtsp s))) (w_queue v)" using q by (simp add: queue_of_def)
  from shared_inv [OF composed_invD(1) [OF inv] this, of "w_fs v"]
  have "system_inv {} (mn_steps e) (cs_rtsp s')" unfolding s' by simp
  then have "composed_inv N e s'" unfolding composed_inv_def s' using ev rq by simp
  with q show ?thesis unfolding step_keeps_def qs by (simp add: described_def w)
qed

lemma request_data_keeps:
  assumes inv: "composed_inv N e s" and run: "request_data e mhd k data s = Inr (Some s')"
  shows "step_keeps N e (stopped_by s (Request_data mhd k data)) s s'"
proof -
  from run obtain r ret con n v where r: "cs_requests s k = Some r"
    and h: "libmicrohttpd_handler mhd (sv_gst e) (mn_processor e (mn_cwd e)) (mn_cwd e) (hr_headers r) (hr_url r)
      (hr_method r) data (hr_con r) (http_view s) = Inr (Some (ret, con, n, v))"
    and s': "s' = (put_http v s)\<lparr>cs_requests := (cs_requests s)(k \<mapsto> r\<lparr>hr_con := con\<rparr>)\<rparr>"
    by (auto simp: request_data_def sbind_eq_Some split: option.splits)
  note i = composed_invD [OF inv]
  from i(3) r have t: "con_typed (hr_url r) (hr_method r) (hr_con r)" by (simp add: requests_typed_def)
  note eff = libmicrohttpd_handler_effect [OF h t, unfolded handler_effect_def slots_of_def http_view_simps]
  let ?X = "stopped_names (hr_url r) (hr_method r) data (hr_con r)"
  from eff have "control_effect ?X (mn_processor e (mn_cwd e)) (http_view s) v" by blast
  from control_effect_keeps [OF this] i(2,6) have "events_ok (w_events v)" "queue_keeps {} ?X (queue_of s) (w_queue v)"
    by simp_all
  moreover have "requests_typed (cs_requests s')" using i(3) eff by (simp add: s' requests_typed_def)
  moreover have "slots_kept N (cs_requests s') (eh_upload_client (w_http v))"
    unfolding s' using slots_request [OF i(4) r, of "eh_upload_client (w_http v)" con] eff by simp
  ultimately have "step_keeps N e ?X s s'" by (intro http_step_keeps [OF inv]) (simp_all add: s')
  then show ?thesis by (simp add: stopped_by_def r)
qed

lemma request_completes_keeps:
  assumes inv: "composed_inv N e s" and run: "request_completes e mhd os k s = Inr (Some s')"
  shows "step_keeps N e X s s'"
proof -
  from run obtain r ls v where r: "cs_requests s k = Some r"
    and h: "post_request_complete mhd os (mn_cwd e) (hr_con r) (http_view s) = Inr (ls, v)"
    and s': "s' = (put_http v s)\<lparr>cs_requests := (cs_requests s)(k := None), cs_leaks := cs_leaks s @ ls\<rparr>"
    by (auto simp: request_completes_def rbind_eq_Inr split: option.splits)
  note i = composed_invD [OF inv]
  from i(3) r have t: "con_typed (hr_url r) (hr_method r) (hr_con r)" by (simp add: requests_typed_def)
  have "eh_upload_client (w_http v) = eh_upload_client (cs_http s) + (if is_upload (hr_con r) then 1 else 0)"
  proof (cases "hr_con r")
    case None
    with h show ?thesis by (auto simp: post_request_complete_def is_upload_def)
  next
    case (Some c)
    with h have "post_request_complete mhd os (mn_cwd e) (Some c) (http_view s) = Inr (ls, v)" by simp
    from post_request_complete_slots [OF this] Some t show ?thesis by (simp add: is_upload_def con_typed_def)
  qed
  then have "slots_kept N (cs_requests s') (eh_upload_client (w_http v))"
    using slots_complete [OF i(4) r] by (simp add: s')
  moreover have "requests_typed (cs_requests s')" using i(3) by (simp add: s' requests_typed_def)
  moreover have "w_queue v = queue_of s" "w_events v = cs_events s" using post_request_complete_only [OF h] by simp_all
  ultimately show ?thesis
    using i(2,6) by (intro http_step_keeps [OF inv]) (simp_all add: s' queue_keeps_refl)
qed

subsection \<open>Every action\<close>

lemma same_keeps:
  assumes inv: "composed_inv N e s" and s': "cs_rtsp s' = cs_rtsp s" "cs_events s' = cs_events s" "cs_http s' = cs_http s"
    and rq: "requests_typed (cs_requests s')" "slots_kept N (cs_requests s') (eh_upload_client (cs_http s))"
  shows "step_keeps N e X s s'"
proof -
  have w: "world_of s' = world_of s" unfolding world_of_def [of s'] s' by simp
  then have "queue_of s' = queue_of s" by (simp add: queue_of_def)
  with w composed_invD [OF inv] rq show ?thesis
    unfolding step_keeps_def composed_inv_def s' by (simp add: queue_keeps_refl)
qed

lemma arrives_keeps:
  assumes inv: "composed_inv N e s" and run: "request_arrives k url method headers s = Inr (Some s')"
  shows "step_keeps N e X s s'"
proof -
  from run have k: "cs_requests s k = None" and s': "s' = s\<lparr>cs_requests := (cs_requests s)(k \<mapsto>
      \<lparr>hr_url = url, hr_method = method, hr_headers = headers, hr_con = None\<rparr>)\<rparr>"
    by (auto simp: request_arrives_def split: if_splits)
  from k have "k \<notin> uploads_of (cs_requests s)" by (simp add: uploads_of_def)
  then have "uploads_of (cs_requests s') = uploads_of (cs_requests s)" by (simp add: s' is_upload_def)
  then have "slots_kept N (cs_requests s') (eh_upload_client (cs_http s))"
    using composed_invD(4) [OF inv] by (simp add: slots_kept_def)
  moreover have "requests_typed (cs_requests s')"
    using composed_invD(3) [OF inv] by (simp add: s' requests_typed_def con_typed_def)
  ultimately show ?thesis by (intro same_keeps [OF inv]) (simp_all add: s')
qed

lemma session_prog_inv:
  assumes "composed_inv N e s" and "sy_sessions (cs_rtsp s) k \<noteq> None"
  shows "sess_inv (case_sum (session_file_inv {} (mn_steps e)) (live_inv {} (mn_steps e))) (boot_inv {} (mn_steps e))
    (view k (cs_rtsp s))"
  using composed_invD(1) [OF assms(1)] assms(2) by (simp add: system_inv_def prog_inv_def)

text \<open>An RTSP action is a step of the RTSP system that leaves the live stream alone.\<close>

definition quiet_step :: "('p, 'h, 'd) system_env \<Rightarrow> ('p, 'h, 'pp, 'd) camera_system \<Rightarrow> ('p, 'h, 'pp, 'd) camera_system \<Rightarrow> bool" where
  "quiet_step e s s' \<longleftrightarrow> (\<exists>r. s' = s\<lparr>cs_rtsp := r\<rparr> \<and> rtsp_step (mn_rtsp e) (cs_config s) (mn_steps e) (cs_rtsp s) r \<and>
     undisturbed (world_of s) (sy_world r))"

lemma quiet_stepI:
  "rtsp_step (mn_rtsp e) (cs_config s) (mn_steps e) (cs_rtsp s) r \<Longrightarrow> undisturbed (world_of s) (sy_world r) \<Longrightarrow>
   quiet_step e s (s\<lparr>cs_rtsp := r\<rparr>)"
  unfolding quiet_step_def by blast

lemma session_step_quiet:
  assumes inv: "composed_inv N e s" and act: "act \<in> {Session_opens c1 k uuid, Session_reads c1 k junk req, Session_ends k}"
    and run: "system_step e act s = Inr (Some s')"
  shows "quiet_step e s s'"
proof -
  let ?r = "cs_rtsp s"
  from act consider "act = Session_opens c1 k uuid" | "act = Session_reads c1 k junk req" | "act = Session_ends k" by blast
  then show ?thesis
  proof cases
    case 1
    with run have k: "sy_sessions ?r k = None" and
      s': "s' = s\<lparr>cs_rtsp := ?r\<lparr>sy_sessions := (sy_sessions ?r)(k \<mapsto> new_session uuid)\<rparr>\<rparr>"
      by (auto simp: session_opens_def build_session_def put_view_def split: if_splits)
    show ?thesis unfolding s'
      by (rule quiet_stepI [OF rtsp_step.Accept [where uuid = uuid, OF k]]) (simp add: undisturbed_def)
  next
    case 2
    with run obtain r st where k: "sy_sessions ?r k \<noteq> None" and
      rd: "read (rtsp_ops (mn_rtsp e) (cs_config s) (mn_steps e)) make_rtsp_handler c1 junk req (view k ?r) = Inr (Some (r, st))"
      and s': "s' = s\<lparr>cs_rtsp := put_view k st ?r\<rparr>"
      by (auto simp: session_reads_def sbind_eq_Some split: if_splits)
    from quiet.read_rel [OF session_prog_inv [OF inv k] rd] show ?thesis
      unfolding s' by (intro quiet_stepI [OF rtsp_step.Serve [OF k rd]]) (simp add: put_view_def)
  next
    case 3
    with run obtain st where k: "sy_sessions ?r k \<noteq> None" and
      d: "destroy_session (rtsp_ops (mn_rtsp e) (cs_config s) (mn_steps e)) (view k ?r) = Inr st"
      and s': "s' = s\<lparr>cs_rtsp := put_view k st ?r\<rparr>"
      by (auto simp: session_ends_def rbind_eq_Inr split: if_splits)
    from quiet.destroy_session_rel [OF session_prog_inv [OF inv k] d] show ?thesis
      unfolding s' by (intro quiet_stepI [OF rtsp_step.Destroy [OF k d]]) (simp add: put_view_def)
  qed
qed

lemma packet_step_quiet:
  assumes act: "act \<in> {Rtp_packet k sample, Rtcp_packet k sample}" and run: "system_step e act s = Inr (Some s')"
  shows "quiet_step e s s'"
  using act
proof (elim insertE emptyE)
  assume "act = Rtp_packet k sample"
  with run obtain a fl w where a: "info_of k (cs_rtsp s) = Some a"
    and c: "rtp_appsink_new_sample_callback a sample (sy_world (cs_rtsp s)) = Inr (fl, w)" and s': "s' = put_world w s"
    by (auto simp: packet_step_def rbind_eq_Inr split: option.splits)
  from rtp_callback_rel [OF c] have "undisturbed (world_of s) w" by (simp add: packet_rel_def undisturbed_same)
  then show ?thesis unfolding s' put_world_def by (intro quiet_stepI [OF rtsp_step.Packet [OF a c]]) simp
next
  assume "act = Rtcp_packet k sample"
  with run obtain a fl w where a: "info_of k (cs_rtsp s) = Some a"
    and c: "rtcp_appsink_new_sample_callback a sample (sy_world (cs_rtsp s)) = Inr (fl, w)" and s': "s' = put_world w s"
    by (auto simp: packet_step_def rbind_eq_Inr split: option.splits)
  from rtcp_callback_rel [OF c] have "undisturbed (world_of s) w" by (simp add: packet_rel_def undisturbed_same)
  then show ?thesis unfolding s' put_world_def by (intro quiet_stepI [OF rtsp_step.Control [OF a c]]) simp
qed

lemma quiet_step_keeps:
  assumes inv: "composed_inv N e s" and q: "quiet_step e s s'"
  shows "step_keeps N e X s s'"
proof -
  from q obtain r where s': "s' = s\<lparr>cs_rtsp := r\<rparr>" and st: "rtsp_step (mn_rtsp e) (cs_config s) (mn_steps e) (cs_rtsp s) r"
    and u: "undisturbed (world_of s) (sy_world r)" by (auto simp: quiet_step_def)
  from rtsp_step_keeps [OF inv st] undisturbed_keeps [OF inv u] show ?thesis by (simp add: s')
qed

text \<open>A step of the live callback: it starts to wait, or takes at most the first frame that waits.\<close>

lemma live_step_cases:
  assumes run: "live_step nd s = Inr (Some s')"
  obtains (waits) "s' = s\<lparr>cs_live_waiting := True\<rparr>"
  | (fed) w where "s' = (put_world w s)\<lparr>cs_live_waiting := False\<rparr>"
      "play_need_data (cs_config s) nd (world_of s) = Inr (Some w)"
  | (woken) w where "s' = (put_world w s)\<lparr>cs_live_waiting := False\<rparr>" "play_resume nd (world_of s) = Inr (Some w)"
  using run that by (auto simp: live_step_def rbind_eq_Inr split: if_splits option.splits)

lemma live_step_keeps:
  assumes inv: "composed_inv N e s" and run: "live_step nd s = Inr (Some s')"
  shows "step_keeps N e X s s'"
proof -
  have keeps: "step_keeps N e X s ((put_world w s)\<lparr>cs_live_waiting := False\<rparr>)"
    if rel: "rw_stream w = rw_stream (world_of s)" "consumed ''live'' (rw_queue (world_of s)) (rw_queue w)"
      and st: "rtsp_step (mn_rtsp e) (cs_config s) (mn_steps e) (cs_rtsp s) ((cs_rtsp s)\<lparr>sy_world := w\<rparr>)" for w
  proof -
    from consumed_keeps [OF composed_invD(6) [OF inv], of "''live''" "rw_queue w"] rel(2)
    have "queue_keeps {} X (queue_of s) (rw_queue w)" by (simp add: queue_of_def)
    moreover have "described (world_of s) \<Longrightarrow> described w" using rel(1) by (simp add: described_def)
    ultimately have "step_keeps N e X s (put_world w s)" using rtsp_step_keeps [OF inv st] by (simp add: put_world_def)
    then show ?thesis by (simp add: step_keeps_def composed_inv_def)
  qed
  from run show ?thesis
  proof (cases rule: live_step_cases)
    case waits
    with inv queue_keeps_refl [OF composed_invD(6) [OF inv]] show ?thesis
      by (simp add: step_keeps_def composed_inv_def)
  next
    case (fed w)
    from play_need_data_rel [OF composed_invD(5) [OF inv] fed(2)] show ?thesis
      unfolding fed(1) using fed(2) by (intro keeps rtsp_step.Feed) simp_all
  next
    case (woken w)
    from play_resume_rel [OF composed_invD(5) [OF inv] woken(2)] show ?thesis
      unfolding woken(1) using woken(2) by (intro keeps rtsp_step.Wake) simp_all
  qed
qed

text \<open>A turn of an event program's thread takes from the queue of its name.\<close>

lemma thread_turns_consumed:
  assumes inv: "vq_inv H (queue_of s)" and run: "thread_turns e a s = Inr (Some s')"
  shows "\<exists>name q net ph. turn_name a s = Some name \<and> consumed name (queue_of s) q \<and>
    s' = (put_queue q s)\<lparr>cs_net := net, cs_phase := ph\<rparr>"
proof -
  from run obtain st q net where t: "thread_turn e a s = Inr (st, q, net)"
    and s': "s' = (put_queue q s)\<lparr>cs_net := net, cs_phase := (cs_phase s)(a := phase_after a s st)\<rparr>"
    by (auto simp: thread_turns_def rbind_eq_Inr split: if_splits)
  have "\<exists>name. turn_name a s = Some name \<and> consumed name (queue_of s) q"
  proof (cases "\<exists>name. cs_phase s a = Waiting name")
    case True
    then obtain name where ph: "cs_phase s a = Waiting name" by blast
    with t have "thread_resume (mn_net e) (cs_http s) a name (cs_events s) (queue_of s, cs_net s) = Inr (st, q, net)"
      by (simp add: thread_turn_def)
    from thread_resume_consumed [OF inv this] ph show ?thesis by (simp add: turn_name_def)
  next
    case False
    then have n: "turn_name a s = map_option ep_event_name (h_processors (cs_events s) a)"
      and "thread_round (mn_net e) (cs_http s) a (cs_events s) (queue_of s, cs_net s) = Inr (st, q, net)"
      using t by (auto simp: thread_turn_def turn_name_def split: thread_phase.splits)
    from thread_round_consumed [OF this(2)] n show ?thesis by auto
  qed
  with s' show ?thesis by blast
qed

lemma composed_step:
  assumes inv: "composed_inv N e s" and run: "system_step e act s = Inr (Some s')"
  shows "step_keeps N e (stopped_by s act) s s'"
proof (cases act)
  case Capture
  with run obtain r c q where "loop_round (sv_driver e) (cs_camera s, queue_of s) = Inr (r, c, q)"
    and s': "s' = (put_queue q s)\<lparr>cs_camera := c, cs_capturing := (r = None)\<rparr>"
    by (auto simp: capture_step_def rbind_eq_Inr split: if_splits)
  from loop_round_keeps [OF composed_invD(6) [OF inv] this(1)] show ?thesis
    by (intro queue_step_keeps [OF inv]) (auto simp: s')
next
  case (Distribute t)
  with run obtain q where "distribute_round t (queue_of s) = Inr q" and s': "s' = put_queue q s"
    by (auto simp: distribute_step_def rbind_eq_Inr)
  from distributed_keeps [OF composed_invD(6) [OF inv] this(1)] show ?thesis
    by (intro queue_step_keeps [OF inv]) (auto simp: s')
next
  case (Thread_enters a)
  with run obtain p q where p: "h_processors (cs_events s) a = Some p" and q: "event_enter p (queue_of s) = Inr q"
    and s': "s' = (put_queue q s)\<lparr>cs_phase := (cs_phase s)(a := Looping)\<rparr>"
    by (auto simp: thread_enters_def rbind_eq_Inr split: if_splits option.splits)
  from event_enter_keeps [OF composed_invD(6) [OF inv] q] show ?thesis
    by (intro queue_step_keeps [OF inv]) (auto simp: s')
next
  case (Thread_turns a)
  with run have "thread_turns e a s = Inr (Some s')" by simp
  from thread_turns_consumed [OF composed_invD(6) [OF inv] this] obtain name q net ph where
    c: "consumed name (queue_of s) q" and s': "s' = (put_queue q s)\<lparr>cs_net := net, cs_phase := ph\<rparr>" by blast
  from consumed_keeps [OF composed_invD(6) [OF inv] c] show ?thesis
    by (intro queue_step_keeps [OF inv]) (auto simp: s')
next
  case (Send_clip i)
  with run show ?thesis
    by (intro same_keeps [OF inv]) (auto simp: clip_step_def Let_def composed_invD [OF inv] split: if_splits prod.splits)
next
  case (Clean_up now)
  with run obtain vh fs where s': "s' = (put_world ((world_of s)\<lparr>rw_fs := fs\<rparr>) s)\<lparr>cs_video := vh\<rparr>"
    by (auto simp: clean_step_def rbind_eq_Inr sbind_eq_Some)
  show ?thesis
    by (rule http_step_keeps [OF inv, where v = "(http_view s)\<lparr>w_fs := fs\<rparr>"])
      (simp_all add: s' composed_invD [OF inv] queue_keeps_refl queue_of_def [symmetric])
next
  case (Request_arrives k u m hs)
  with run arrives_keeps [OF inv] show ?thesis by simp
next
  case (Request_data mhd k data)
  with run request_data_keeps [OF inv] show ?thesis by simp
next
  case (Request_completes mhd os k)
  with run request_completes_keeps [OF inv] show ?thesis by simp
next
  case (Session_opens conn k uuid)
  with session_step_quiet [OF inv _ run] quiet_step_keeps [OF inv] show ?thesis by blast
next
  case (Session_reads conn k junk req)
  with session_step_quiet [OF inv _ run] quiet_step_keeps [OF inv] show ?thesis by blast
next
  case (Session_ends k)
  with session_step_quiet [OF inv _ run] quiet_step_keeps [OF inv] show ?thesis by blast
next
  case (Rtp_packet k sample)
  with packet_step_quiet [OF _ run] quiet_step_keeps [OF inv] show ?thesis by blast
next
  case (Rtcp_packet k sample)
  with packet_step_quiet [OF _ run] quiet_step_keeps [OF inv] show ?thesis by blast
next
  case (Live_frame nd)
  with run live_step_keeps [OF inv] show ?thesis by simp
qed

lemma reachable_inv:
  assumes "system_reachable e admitted s0 s" and "composed_inv N e s0"
  shows "composed_inv N e s"
  using assms
  by (induction rule: system_reachable.induct) (auto dest!: composed_step simp: step_keeps_def)

end
