(* ===== verification/Program_Boot.thy ===== *)
theory Program_Boot
  imports Program_Inv
begin

text \<open>
  What \<open>main\<close> leaves when it serves: whichever of its parts failed on the way, the system it built
  satisfies the invariant of the composed program (\<open>boot_system_inv\<close>).
\<close>

subsection \<open>The live stream\<close>

lemma set_stream_result:
  assumes inv: "rtsp_inv H w" and ms: "rw_stream w = Some ms" "ms_thread_info ms = None"
    and run: "set_stream env cfg w = Inr (r, w')"
  shows "\<exists>ti ms'. refs_ok w' \<and> new_info \<lparr>ti_is_run = True, ti_fps = 30\<rparr> (rw_queue w) = (ti, rw_queue w') \<and>
    rw_stream w' = Some ms' \<and> ms_thread_info ms' = Some ti"
proof -
  have ok: "refs_ok w" using inv by (simp add: rtsp_inv_def)
  obtain es w1 where mk: "gst_make_all env stream_elements w = (es, w1)" by fastforce
  note ext = gst_make_all_ext [OF ok mk] and fr = gst_make_all_frame [OF mk]
  obtain ti q where ni: "new_info \<lparr>ti_is_run = True, ti_fps = 30\<rparr> (rw_queue w) = (ti, q)" by fastforce
  define w2 where "w2 = gst_bin_add_many (tl es) (w1\<lparr>rw_queue := q, rw_stream := Some (ms\<lparr>ms_thread_info := Some ti\<rparr>)\<rparr>)"
  have len: "length es = 7" using fr(7) by (simp add: stream_elements_def)
  then have tl: "Some a \<in> set (tl es) \<Longrightarrow> Some a \<in> set es" for a by (cases es) auto
  have "refs_ext w (w1\<lparr>rw_queue := q, rw_stream := Some (ms\<lparr>ms_thread_info := Some ti\<rparr>)\<rparr>)"
    using ext(1) by (simp add: refs_ext_def)
  then have "refs_ext w w2" using bin_add_ext [of w _ "tl es"] ext(2) tl by (simp add: w2_def)
  then have ok2: "refs_ok w2" by (rule refs_ext_ok [OF ok])
  from run ms mk ni fr(1) have w': "rw_refs w' = rw_refs w2" "rw_infos w' = rw_infos w2" "rw_next w' = rw_next w2"
      "rw_queue w' = q" "\<exists>ms'. rw_stream w' = Some ms' \<and> ms_thread_info ms' = Some ti"
    by (auto simp: set_stream_def Let_def w2_def rbind_eq_Inr deref_def split: option.splits if_splits)
  have "refs_ok w'" using ok2 by (rule refs_ok_cong [THEN iffD2, rotated 3]) (simp_all add: w')
  with w' ni show ?thesis by auto
qed

lemma live_start_inv:
  assumes inv: "rtsp_inv H w" and fresh: "rw_stream w = None" and steps: "\<forall>st \<in> set steps. step_ok st"
    and run: "live_start env ac cfg steps w = Inr (Some (l, w'))"
  shows "rtsp_inv H w'"
proof -
  let ?ms = "new_multicast_stream ''239.255.1.1'' 5004"
  define w0 where "w0 = w\<lparr>rw_stream := Some ?ms\<rparr>"
  have w0: "rtsp_inv H w0" "rw_stream w0 = Some ?ms" using inv by (simp_all add: w0_def rtsp_inv_def refs_ok_def)
  from run fresh obtain r1 sdp w2 r2 w3 r3 where sdp: "make_sdp env cfg steps w0 = Inr (Some (r1, sdp, w2))"
    and ss: "set_stream env cfg w2 = Inr (r2, w3)" and ps: "play_stream w3 = Inr (r3, w')"
    by (auto simp: live_start_def multicast_get_instance_def w0_def rbind_eq_Inr sbind_eq_Some Let_def)
  from make_sdp_rel [OF w0(1) _ steps sdp] w0(2) obtain ms where rel: "stream_rel H w0 w2"
    and ms: "rw_stream w2 = Some ms" "ms_thread_info ms = None" by (auto simp: new_multicast_stream_def)
  have inv2: "rtsp_inv H w2" using rtsp_inv_rel [OF w0(1) rel] .
  from set_stream_result [OF inv2 ms ss] obtain ti ms' where ok: "refs_ok w3"
    and ni: "new_info \<lparr>ti_is_run = True, ti_fps = 30\<rparr> (rw_queue w2) = (ti, rw_queue w3)"
    and ms': "rw_stream w3 = Some ms'" "ms_thread_info ms' = Some ti" by blast
  have "vq_inv H (rw_queue w2)" using inv2 by (simp add: rtsp_inv_def)
  from play_stream_ok [OF this ni ok refl ms'] ps show ?thesis by auto
qed

lemma video_start_inv:
  assumes "rtsp_inv H w" and "rw_stream w = None" and "\<forall>st \<in> set steps. step_ok st"
    and "video_start env ac steps vi w = Inr (Some (Serving l w', vi'))"
  shows "rtsp_inv H w'"
  using assms(4) live_start_inv [OF assms(1-3)]
  by (auto simp: video_start_def Let_def split: sum.splits fault.splits option.splits)

subsection \<open>The other parts\<close>

lemma main_http_frame: "main_http e g = Inr g' \<Longrightarrow> pg_rtsp g' = pg_rtsp g \<and> pg_events g' = pg_events g"
  by (auto simp: main_http_def rbind_eq_Inr Let_def case_prod_beta)

lemma main_event_frame:
  assumes run: "main_event e g = Inr g'" and ok: "events_ok (pg_events g)"
  shows "pg_rtsp g' = pg_rtsp g \<and> events_ok (pg_events g')"
proof -
  let ?ctor = "event_processor_ctor (http_instance e) (\<lambda>(_, b). bt_fs b) (mn_processor e (mn_cwd e))"
  let ?f = "\<lambda>(name, _) (ei, h, b). rbind (?ctor name b) (\<lambda>(p, b1).
      Inr (ei\<lparr>ei_event_names := ei_event_names ei @ [name]\<rparr>, snd (start_event (\<lambda>_. p) name h), b1))"
  from run obtain entries :: "(string \<times> node) list" and ei h pb where
    f: "rfold ?f entries (pg_event_init g, pg_events g, pg_config g, pg_boot g) = Inr (ei, h, pb)"
    and g': "pg_rtsp g' = pg_rtsp g" "pg_events g' = h"
    by (auto simp: main_event_def event_initializer_init_def rbind_eq_Inr)
  have "events_ok (fst (snd (ei, h, pb)))"
    by (rule rfold_invariant [OF f, where P = "\<lambda>x. events_ok (fst (snd x))"])
      (auto simp: ok rbind_eq_Inr events_ok_start split: prod.splits)
  with g' show ?thesis by simp
qed

lemma main_video_inv:
  assumes inv: "rtsp_inv H (pg_rtsp g)" and fresh: "rw_stream (pg_rtsp g) = None"
    and steps: "\<forall>st \<in> set (mn_steps e). step_ok st" and run: "main_video e g = Inr (Some (Serving l w, vi, g'))"
  shows "rtsp_inv H w \<and> pg_events g' = pg_events g"
proof -
  from run obtain vi1 fs where "video_start (mn_rtsp e) (mn_acceptor e) (mn_steps e) vi1 ((pg_rtsp g)\<lparr>rw_fs := fs\<rparr>) =
      Inr (Some (Serving l w, vi))" and ev: "pg_events g' = pg_events g"
    by (auto simp: main_video_def rbind_eq_Inr sbind_eq_Some Let_def case_prod_beta)
  moreover have "rtsp_inv H ((pg_rtsp g)\<lparr>rw_fs := fs\<rparr>)" using inv by (simp add: rtsp_inv_def refs_ok_def)
  ultimately show ?thesis using video_start_inv [OF _ _ steps] fresh by fastforce
qed

lemma camera_thread_queue:
  assumes "camera_thread lib pf k dev pc (Some q) = Inr x"
  shows "snd (snd (snd x)) = Some q"
  using assms
  by (auto simp: camera_thread_def camera_ctor_def get_instance_def camera_start_def rbind_eq_Inr Let_def deref_def
      case_prod_beta split: if_split_asm)

lemma camera_init_returns: "ci_cam_config c \<noteq> None \<Longrightarrow> \<exists>x. camera_init k c = Inr x"
proof -
  assume "ci_cam_config c \<noteq> None"
  then obtain r c1 where "set_v4l2_format k c = Inr (r, c1)"
    by (cases "set_v4l2_format k c") (auto simp: set_v4l2_format_def Let_def split: prod.split_asm if_split_asm)
  then show ?thesis by (simp add: camera_init_def split: prod.split)
qed

lemma serving_result:
  "(case r of Serving l w \<Rightarrow> r | Returned n \<Rightarrow> Returned 0) = Serving l w \<Longrightarrow> r = Serving l w"
  by (cases r) auto

lemma main_program_inv:
  assumes inv: "rtsp_inv {} (pg_rtsp g)" and fresh: "rw_stream (pg_rtsp g) = None" and ev: "events_ok (pg_events g)"
    and steps: "\<forall>st \<in> set (mn_steps e). step_ok st" and run: "main_program e argv g = Inr (Some (Serving l w, g'))"
  shows "rtsp_inv {} w \<and> events_ok (pg_events g')"
proof -
  from run obtain ip e1 pc g1 g2 vi where e1: "e1 = e\<lparr>mn_rtsp := (mn_rtsp e)\<lparr>re_ip_addr := ip\<rparr>\<rparr>"
    and h: "main_http e1 (g\<lparr>pg_config := pc\<rparr>) = Inr g1" and v: "main_event e1 g1 = Inr g2"
    and m: "main_video e1 g2 = Inr (Some (Serving l w, vi, g'))"
    by (simp add: main_program_def rbind_eq_Inr sbind_eq_Some Let_def split: list.split_asm) (metis serving_result)
  from main_http_frame [OF h] main_event_frame [OF v] inv fresh ev
  have "rtsp_inv {} (pg_rtsp g2)" "rw_stream (pg_rtsp g2) = None" "events_ok (pg_events g2)" by simp_all
  with main_video_inv [OF this(1,2) _ m] steps show ?thesis by (simp add: e1)
qed

subsection \<open>The system\<close>

lemma serving_system_frame:
  assumes "serving_system e dev l w g = Inr s"
  shows "\<exists>fs. cs_rtsp s = \<lparr>sy_sessions = (\<lambda>_. None), sy_path = li_path l, sy_world = w\<lparr>rw_fs := fs\<rparr>, sy_sent = []\<rparr> \<and>
    cs_events s = pg_events g \<and> cs_requests s = (\<lambda>_. None)"
proof -
  obtain pc1 rh where h: "get_http_config (mn_lib e) (pg_config g) = (pc1, rh)" by fastforce
  obtain pc2 rv where v: "get_video_config (mn_lib e) pc1 = (pc2, rv)" by fastforce
  have q: "bb = Some (rw_queue w)"
    if "camera_thread (mn_lib e) (mn_pixfmts e) (sv_driver e) dev pc2 (Some (rw_queue w)) = Inr (x, c, y, bb)" for x c y bb
    using camera_thread_queue [OF that] by simp
  show ?thesis
    using assms h v by (auto simp: serving_system_def rbind_eq_Inr dest!: q) (blast intro: refl)
qed

lemma boot_system_inv:
  assumes boot: "boot_system e dev argv g = Inr (Some s)"
    and inv: "rtsp_inv {} (pg_rtsp g)" and fresh: "rw_stream (pg_rtsp g) = None" and ev: "events_ok (pg_events g)"
    and steps: "\<forall>st \<in> set (mn_steps e). step_ok st"
  shows "composed_inv (eh_upload_client (cs_http s)) e s"
proof -
  from boot obtain r g1 where r: "main_program (main_env.truncate e) argv g = Inr (Some (r, g1))"
    "(case r of Returned _ \<Rightarrow> Inr None | Serving l w \<Rightarrow> rbind (serving_system e dev l w g1) (\<lambda>s. Inr (Some s))) =
      (Inr (Some s) :: _ res)"
    by (auto simp: boot_system_def sbind_eq_Some)
  then obtain l w where m: "main_program (main_env.truncate e) argv g = Inr (Some (Serving l w, g1))"
    and s: "serving_system e dev l w g1 = Inr s"
    by (cases r) (auto simp: rbind_eq_Inr)
  from serving_system_frame [OF s] obtain fs where
    rtsp: "cs_rtsp s = \<lparr>sy_sessions = (\<lambda>_. None), sy_path = li_path l, sy_world = w\<lparr>rw_fs := fs\<rparr>, sy_sent = []\<rparr>"
    and s: "cs_events s = pg_events g1" "cs_requests s = (\<lambda>_. None)" by blast
  have "\<forall>st \<in> set (mn_steps (main_env.truncate e)). step_ok st" using steps by (simp add: main_env.truncate_def)
  from main_program_inv [OF inv fresh ev this m] have w: "rtsp_inv {} w" "events_ok (pg_events g1)" by simp_all
  have "rtsp_inv {} (w\<lparr>rw_fs := fs\<rparr>)" using w(1) by (simp add: rtsp_inv_def refs_ok_def)
  then have "system_inv {} (mn_steps e) (cs_rtsp s)"
    unfolding rtsp using steps by (simp add: system_inv_def boot_inv_def sess_own_def)
  with w(2) show ?thesis
    by (simp add: composed_inv_def s requests_typed_def slots_kept_def uploads_of_def)
qed


subsection \<open>Runs\<close>

text \<open>
  \<open>s\<close> is reached from the system \<open>s0\<close> that a fresh program leaves when it serves: no stream, no event
  program, and frames whose bytes are there.  Every action is admitted.
\<close>

definition program_run ::
  "('p, 'h, 'd) system_env \<Rightarrow> 'd \<Rightarrow> string list \<Rightarrow> ('p, 'h) program \<Rightarrow>
     ('p, 'h, 'pp, 'd) camera_system \<Rightarrow> ('p, 'h, 'pp, 'd) camera_system \<Rightarrow> bool" where
  "program_run e dev argv g s0 s \<longleftrightarrow>
     boot_system e dev argv g = Inr (Some s0) \<and> rtsp_inv {} (pg_rtsp g) \<and> rw_stream (pg_rtsp g) = None \<and>
     pg_events g = event_handler_ctor \<and> (\<forall>st \<in> set (mn_steps e). step_ok st) \<and>
     system_reachable e (\<lambda>_ _. True) s0 s"

lemma program_run_inv:
  assumes "program_run e dev argv g s0 s"
  shows "composed_inv (eh_upload_client (cs_http s0)) e s"
proof -
  have "events_ok event_handler_ctor" by (simp add: events_ok_def event_handler_ctor_def um_wf_def um_find_def)
  with assms have "composed_inv (eh_upload_client (cs_http s0)) e s0"
    unfolding program_run_def by (auto intro: boot_system_inv)
  with assms show ?thesis unfolding program_run_def by (auto intro: reachable_inv)
qed


end
