(* ===== verification/Rtsp_Progress.thy ===== *)
theory Rtsp_Progress
  imports Rtsp_Quiet
begin

text \<open>
  When the requests of an RTSP session return.  \<open>file_faulty\<close> and \<open>live_faulty\<close> say in which state a call of a
  handler may fault, the locale \<open>judged_sessions\<close> lifts such a judgement of a handler's calls to the requests
  of a session (\<open>read_may_fault\<close>), and its interpretation \<open>judged\<close> is about the program's handlers.
\<close>

subsection \<open>The sinks of a recording\<close>

lemma send_packet_returns:
  "so \<noteq> None \<Longrightarrow> en \<noteq> None \<Longrightarrow> \<exists>out. send_packet so en bytes w = Inr (w\<lparr>rw_sent := out\<rparr>)"
  by (cases "us_open (the so)") (auto simp: send_packet_def intro: exI [of _ "rw_sent w"])

lemma record_first_returns:
  assumes "sockets_there i"
  shows "\<exists>r. record_first buf i = Inr r \<and> (\<forall>j. r = Some j \<longrightarrow> sockets_there j)"
  using assms by (auto simp: record_first_def sockets_there_def split: option.splits)

lemma rtp_callback_returns:
  assumes i: "rw_infos w a = Some i" and up: "sockets_there i"
  shows "\<exists>fl w' j. rtp_appsink_new_sample_callback a sample w = Inr (fl, w') \<and> rw_infos w' a = Some j \<and> sockets_there j"
proof (cases sample)
  case None
  with i up show ?thesis by (simp add: rtp_appsink_new_sample_callback_def)
next
  case (Some buf)
  from record_first_returns [OF up] obtain r where r: "record_first buf i = Inr r" "\<forall>j. r = Some j \<longrightarrow> sockets_there j"
    by blast
  show ?thesis
  proof (cases r)
    case None
    with Some i up r show ?thesis by (simp add: rtp_appsink_new_sample_callback_def read_rtp_info_def)
  next
    case (Some j)
    with r obtain si where j: "sockets_there j" and si: "rg_session_info j = Some si" "rs_rtp_socket si \<noteq> None" "rs_rtp_endpoint si \<noteq> None"
      by (auto simp: sockets_there_def split: option.splits)
    show ?thesis
    proof (cases "rb_bytes buf")
      case None
      with \<open>sample = Some buf\<close> Some i r(1) j show ?thesis
        by (auto simp: rtp_appsink_new_sample_callback_def read_rtp_info_def write_rtp_info_def)
    next
      case (Some bytes)
      from send_packet_returns [OF si(2,3)] obtain out where
        "send_packet (rs_rtp_socket si) (rs_rtp_endpoint si) bytes (write_rtp_info a j w) =
          Inr ((write_rtp_info a j w)\<lparr>rw_sent := out\<rparr>)" by blast
      with \<open>sample = Some buf\<close> \<open>r = Some j\<close> Some i r(1) j si(1) show ?thesis
        by (auto simp: rtp_appsink_new_sample_callback_def read_rtp_info_def write_rtp_info_def)
    qed
  qed
qed

lemma rtcp_callback_returns:
  assumes i: "rw_infos w a = Some i" and up: "sockets_there i"
  shows "\<exists>x. rtcp_appsink_new_sample_callback a sample w = Inr x"
proof (cases "\<exists>buf bytes. sample = Some buf \<and> rb_bytes buf = Some bytes")
  case False
  then show ?thesis by (auto simp: rtcp_appsink_new_sample_callback_def split: option.split)
next
  case True
  then obtain buf bytes where "sample = Some buf" "rb_bytes buf = Some bytes" by blast
  moreover from up obtain si where si: "rg_session_info i = Some si" "rs_rtcp_socket si \<noteq> None" "rs_rtcp_endpoint si \<noteq> None"
    by (auto simp: sockets_there_def split: option.splits)
  moreover from send_packet_returns [OF si(2,3)] obtain out where
    "send_packet (rs_rtcp_socket si) (rs_rtcp_endpoint si) bytes w = Inr (w\<lparr>rw_sent := out\<rparr>)" by blast
  ultimately show ?thesis using i by (simp add: rtcp_appsink_new_sample_callback_def read_rtp_info_def)
qed

lemma wait_first_returns:
  "rw_infos w a = Some i \<Longrightarrow> sockets_there i \<Longrightarrow>
   \<exists>r. wait_first a bs w = Inr r \<and> (\<forall>w'. r = Some w' \<longrightarrow> (\<exists>j. rw_infos w' a = Some j \<and> sockets_there j))"
proof (induction bs arbitrary: w i)
  case Nil
  then show ?case by (subst wait_first.simps) (simp add: read_rtp_info_def)
next
  case (Cons b bs)
  from rtp_callback_returns [OF Cons.prems, of b] obtain fl w1 j where
    cb: "rtp_appsink_new_sample_callback a b w = Inr (fl, w1)" and j: "rw_infos w1 a = Some j" "sockets_there j" by blast
  from Cons.IH [OF j] cb Cons.prems show ?case by (subst wait_first.simps) (simp add: read_rtp_info_def)
qed


subsection \<open>The calls of the file handler\<close>

datatype rtsp_call =
    Call_describe string
  | Call_setup string string string
  | Call_play string
  | Call_pause string
  | Call_teardown

text \<open>
  A recording is not set up without an address, two sockets and a port; it cannot be played, paused or
  torn down before that, and a tear-down that takes effect gives the pipeline up twice.
\<close>

definition file_faulty :: "rtsp_env \<Rightarrow> rtsp_call \<Rightarrow> gst_file \<Rightarrow> rtsp_world \<Rightarrow> bool" where
  "file_faulty env call h w \<longleftrightarrow>
     (case call of
        Call_describe path \<Rightarrow> False
      | Call_setup path client_addr client_port \<Rightarrow>
          \<not> re_address_ok env client_addr \<or> \<not> re_udp_open env \<or> re_udp_bind env = None
      | Call_play t \<Rightarrow> gf_rtp_info h = None
      | Call_pause t \<Rightarrow> gf_rtp_info h = None
      | Call_teardown \<Rightarrow>
          (case gf_rtp_info h of
             None \<Rightarrow> True
           | Some a \<Rightarrow>
              (case rw_infos w a of
                 None \<Rightarrow> True
               | Some i \<Rightarrow> (case rg_pipeline i of None \<Rightarrow> False | Some p \<Rightarrow> re_set_state env p State_null))))"

lemma udp_setup_returns:
  "re_address_ok env addr \<Longrightarrow> re_udp_open env \<Longrightarrow> re_udp_bind env \<noteq> None \<Longrightarrow> \<exists>x. udp_setup env addr ports si = Inr x"
  by (auto simp: udp_setup_def)

lemma gst_unref_one: "rw_refs w p = Some 1 \<Longrightarrow> gst_unref (Some p) w = Inr (w\<lparr>rw_refs := (rw_refs w)(p := None)\<rparr>)"
  by (simp add: gst_unref_def)

lemma demux_pads_return: "\<exists>w'. rfold (demux_pad_added streams) pads w = Inr w'"
proof (induction pads arbitrary: w)
  case (Cons pad pads)
  have "\<exists>w1. demux_pad_added streams pad w = Inr w1"
    by (auto simp: demux_pad_added_def gst_new_ref_def gst_unref_def Let_def split: option.split)
  with Cons.IH show ?case by auto
qed simp

lemma sdp_path_returns: "\<exists>p. sdp_path_of path = Inr p"
  by (simp add: sdp_path_of_def str_substr_def)

lemma file_describe_returns:
  assumes inv: "file_inv H h w"
  shows "\<exists>x. file_describe_request env path (h, w) = Inr x"
proof -
  note ok = file_invD(2) [OF inv]
  obtain sp where sp: "sdp_path_of path = Inr sp" using sdp_path_returns by blast
  obtain es w1 where mk: "gst_make_all env describe_elements w = (es, w1)" by fastforce
  note ext = gst_make_all_ext [OF ok mk] and spec = gst_make_all_spec [OF mk]
  have len: "length es = 7" using gst_make_all_frame(7) [OF mk] by (simp add: describe_elements_def)
  show ?thesis
  proof (cases "open_in (re_can_open env) (resolve (re_cwd env) sp) (rw_fs w) = None \<and> None \<notin> set es")
    case False
    moreover obtain w2 where "rfold gst_unref es w1 = Inr w2" using unref_all_spec [of es w1] spec ext(2) by auto
    ultimately show ?thesis using sp mk
      by (cases "open_in (re_can_open env) (resolve (re_cwd env) sp) (rw_fs w)") (simp_all add: file_describe_request_def Let_def)
  next
    case True
    then obtain p where p: "hd es = Some p" "Some p \<in> set es" using len by (cases es; cases "hd es") auto
    have "Some p \<notin> set (tl es)"
    proof -
      have "distinct [a. Some a \<leftarrow> Some p # tl es]" using spec p len by (cases es) auto
      then show ?thesis by force
    qed
    define w3 where "w3 = snd (gst_set_state env (hd es) State_playing
      (gst_log (describe_wiring path (map the es)) (gst_bin_add_many (tl es) w1)))"
    have tl: "Some a \<in> set (tl es) \<Longrightarrow> Some a \<in> set es" for a using len by (cases es) auto
    have p3: "rw_refs w3 p = Some 1" "p < rw_next w3"
      using spec p \<open>Some p \<notin> set (tl es)\<close>
      by (auto simp: w3_def gst_bin_add_many_def fold_clear dest: set_takeWhileD)
    have "refs_ext w w3" using bin_add_ext [OF ext(1), of "tl es"] ext(2) tl by (simp add: w3_def refs_ext_def)
    then have self: "refs_ext w3 w3" by (rule refs_ext_self)
    define st where "st = \<lparr>ds_video_stream = es ! 3, ds_audio_stream = None\<rparr>"
    obtain w4 where w4: "rfold (demux_pad_added st) (re_pads env) w3 = Inr w4" using demux_pads_return by blast
    have "rw_refs w4 p = Some 1" using demux_pads_ext [OF w4 self] p3 by (simp add: refs_ext_def)
    from gst_unref_one [OF this] sp mk True p(1) w4 show ?thesis
      by (simp add: file_describe_request_def Let_def w3_def st_def split: option.split prod.split)
  qed
qed

lemma file_setup_returns:
  assumes inv: "file_inv H h w" and ok: "\<not> file_faulty env (Call_setup path addr port) h w"
  shows "\<exists>x. file_setup_request env path addr port (h, w) = Inr x"
proof -
  from file_setup_start [OF inv, of env path addr port] obtain a es w1 w2 i0 where
    ext: "refs_ext w1 w2" and i0: "rw_infos w1 a = Some i0" "rg_pipeline i0 = None" and len: "length es = 10"
    and dist: "distinct [p. Some p \<leftarrow> es]" and fresh: "\<forall>p. Some p \<in> set es \<longrightarrow> rw_refs w2 p = Some 1"
    and hd: "\<forall>p. hd es = Some p \<longrightarrow> Some p \<notin> set (tl es)"
    and eq: "file_setup_request env path addr port (h, w) = setup_finish env path addr port
        (h\<lparr>gf_rtp_info := Some a, gf_streams := Some \<lparr>ds_video_stream = es ! 3, ds_audio_stream = None\<rparr>\<rparr>) a es w2"
    by blast
  show ?thesis
  proof (cases "None \<in> set es")
    case True
    have i2: "rw_infos w2 a = Some i0" using ext i0 by (simp add: refs_ext_def)
    define w3 where "w3 = w2\<lparr>rw_refs := (\<lambda>b. if Some b \<in> set es then None else rw_refs w2 b)\<rparr>"
    have "rfold gst_unref es w2 = Inr w3" using unref_all_spec [OF dist fresh] by (simp add: w3_def)
    moreover have "\<exists>w4. delete_info_gst a w3 = Inr w4" using i2 i0(2) by (simp add: delete_info_gst_def gst_unref_def w3_def)
    ultimately show ?thesis using True by (auto simp: eq setup_finish_def)
  next
    case False
    from ok udp_setup_returns [of env addr "scan_ports port (re_junk_ports env)" new_session_info] obtain pt si where
      udp: "udp_setup env addr (scan_ports port (re_junk_ports env)) new_session_info = Inr (pt, si)"
      by (auto simp: file_faulty_def)
    obtain p where p: "hd es = Some p" "Some p \<in> set es" using False len by (cases es; cases "hd es") auto
    have "rw_refs (gst_bin_add_many (tl es) w2) p = Some 1"
      using fresh p hd by (auto simp: gst_bin_add_many_def fold_clear dest: set_takeWhileD)
    then show ?thesis
      using False udp p(1) by (simp add: eq setup_finish_def Let_def gst_set_state_def gst_unref_def write_rtp_info_def)
  qed
qed

lemma file_play_returns:
  assumes inv: "file_inv H h w" and ok: "\<not> file_faulty env (Call_play t) h w"
  shows "\<exists>x. file_play_request env t (h, w) = Inr x"
proof -
  from inv ok obtain a i where a: "gf_rtp_info h = Some a" and i: "rw_infos w a = Some i" and up: "sockets_there i"
    by (auto simp: file_faulty_def file_inv_def split: option.splits)
  show ?thesis
  proof (cases "rg_pipeline i")
    case None
    with a i show ?thesis by (simp add: file_play_request_def read_rtp_info_def gst_set_state_def)
  next
    case (Some p)
    obtain k w1 where s: "gst_set_state env (rg_pipeline i) State_playing w = (k, w1)" by fastforce
    then have "rw_infos w1 a = Some i" using i by (auto simp: gst_set_state_def split: option.splits)
    from wait_first_returns [OF this up, of "re_rtp env"] obtain r where r: "wait_first a (re_rtp env) w1 = Inr r"
      "\<forall>w'. r = Some w' \<longrightarrow> (\<exists>j. rw_infos w' a = Some j \<and> sockets_there j)" by auto
    show ?thesis
    proof (cases r)
      case None
      with a i s r show ?thesis by (simp add: file_play_request_def read_rtp_info_def)
    next
      case (Some w2)
      with r obtain j si where "rw_infos w2 a = Some j" "rg_session_info j = Some si"
        by (auto simp: sockets_there_def split: option.splits)
      with a i s r Some show ?thesis by (simp add: file_play_request_def read_rtp_info_def)
    qed
  qed
qed

lemma file_pause_returns:
  assumes inv: "file_inv H h w" and ok: "\<not> file_faulty env (Call_pause t) h w"
  shows "\<exists>x. file_pause_request env t (h, w) = Inr x"
  using assms by (auto simp: file_faulty_def file_inv_def file_pause_request_def read_rtp_info_def split: prod.split)

lemma file_teardown_returns:
  assumes inv: "file_inv H h w" and ok: "\<not> file_faulty env Call_teardown h w"
  shows "\<exists>x. file_teardown_request env (h, w) = Inr x"
proof -
  from ok obtain a i where "gf_rtp_info h = Some a" "rw_infos w a = Some i"
    "\<forall>p. rg_pipeline i = Some p \<longrightarrow> \<not> re_set_state env p State_null"
    by (auto simp: file_faulty_def split: option.splits)
  with file_teardown_cases [OF inv, of a i env] show ?thesis by (auto split: option.split)
qed



subsection \<open>The calls of the live handler\<close>

text \<open>
  Only the description that is still to be made can fault: without a configuration, when the counter of
  the frames it takes could run over, or when the distributor, which runs on meanwhile, has a rate it cannot
  serve, that of the description's own subscription among them.
\<close>

definition live_faulty :: "'p video_config option \<Rightarrow> stream_step list \<Rightarrow> rtsp_call \<Rightarrow> gst_live \<Rightarrow> rtsp_world \<Rightarrow> bool" where
  "live_faulty cfg steps call h w \<longleftrightarrow>
     (case call of
        Call_describe path \<Rightarrow>
          \<not> described w \<and>
          ((case cfg of None \<Rightarrow> True | Some c \<Rightarrow> 2 ^ 64 \<le> length (video_frame_rate c)) \<or>
           rw_cnt w < - (2 ^ 31) \<or> 2 ^ 31 \<le> rw_cnt w + int (length steps) \<or> \<not> live_served (rw_queue w))
      | _ \<Rightarrow> False)"

lemma make_sdp_described:
  assumes "described w"
  shows "\<exists>x. make_sdp env cfg steps w = Inr x"
  using assms by (auto simp: described_def make_sdp_def Let_def split: option.splits)

lemma make_sdp_first:
  assumes inv: "rtsp_inv H w" and ms: "rw_stream w = Some ms" and new: "ms_sdp_str ms = ''''"
    and rate: "length (video_frame_rate c) < 2 ^ 64" and steps: "\<forall>st \<in> set steps. step_ok st"
    and cnt: "- (2 ^ 31) \<le> rw_cnt w" "rw_cnt w + int (length steps) < 2 ^ 31" and rates: "live_served (rw_queue w)"
  shows "\<exists>x. make_sdp env (Some c) steps w = Inr x"
proof -
  from frame_rate_parts_ok [OF rate] obtain pp where parts: "frame_rate_parts c = Inr pp" by blast
  from make_sdp_start [OF inv ms new parts, of env steps] obtain es ci w2 w3 where
    rel3: "stream_rel H w w3" and ms3: "rw_stream w3 = Some (ms\<lparr>ms_codec_info := Some ci\<rparr>)"
    and cnt3: "rw_cnt w3 = rw_cnt w" "served (rw_queue w3)"
    and p: "\<forall>p. hd es = Some p \<longrightarrow> rw_next w \<le> p \<and> p < rw_next w3 \<and> rw_refs w3 p = Some 1"
    and eq: "make_sdp env (Some c) steps w = (if \<not> re_link_many env (tl es) then Inr (Some (-1, '''', w2))
       else rbind (rfold (sdp_step (Some c)) steps w3) (sdp_close env (hd es)))"
    using rates unfolding live_served_def by blast
  show ?thesis
  proof (cases "re_link_many env (tl es)")
    case False
    with eq show ?thesis by simp
  next
    case True
    have self: "stream_rel H w3 w3" using stream_rel_refl [OF rtsp_inv_rel [OF inv rel3]] .
    from sdp_steps_spec [OF self steps ms3] cnt cnt3 obtain w4 codec where
      f: "rfold (sdp_step (Some c)) steps w3 = Inr w4" and rel4: "stream_rel H w3 w4"
      and ms4: "rw_stream w4 = Some (ms\<lparr>ms_codec_info := Some codec\<rparr>)" by fastforce
    have "\<exists>x. sdp_close env (hd es) w4 = Inr x"
    proof (cases "hd es = None \<or> bus_loop (re_bus env) = None")
      case True
      then have "bus_loop (bus_of env (hd es)) = None" by (auto simp: bus_of_def split: option.split)
      then show ?thesis by (simp add: sdp_close_def)
    next
      case False
      then obtain q where q: "hd es = Some q" by auto
      with p rel4 have "rw_refs w4 q = Some 1" by (simp add: stream_rel_def refs_ext_def)
      moreover have "stream_rel H w w4" using rel3 rel4 refs_ext_trans unfolding stream_rel_def by auto
      from sdp_close_spec(2) [OF this _ ms4 _ q, of codec env] have "rw_refs w4 q = Some 1 \<Longrightarrow>
          bus_loop (re_bus env) \<noteq> None \<Longrightarrow> \<exists>r. sdp_close env (hd es) w4 = Inr (Some r)" using p q by simp
      ultimately show ?thesis using False by blast
    qed
    with eq True f show ?thesis by simp
  qed
qed

lemma live_describe_returns:
  assumes inv: "live_inv H steps h w" and ok: "\<not> live_faulty cfg steps (Call_describe path) h w"
  shows "\<exists>x. live_describe_request env cfg steps path (h, w) = Inr x"
proof -
  have "\<exists>x. make_sdp env cfg steps w = Inr x"
  proof (cases "described w")
    case True
    then show ?thesis by (rule make_sdp_described)
  next
    case False
    from inv obtain ms where "rw_stream w = Some ms" by (auto simp: live_inv_def)
    with False ok inv obtain c where "cfg = Some c" "ms_sdp_str ms = ''''" "length (video_frame_rate c) < 2 ^ 64"
      "- (2 ^ 31) \<le> rw_cnt w" "rw_cnt w + int (length steps) < 2 ^ 31" "rtsp_inv H w" "\<forall>st \<in> set steps. step_ok st"
      "live_served (rw_queue w)"
      by (auto simp: live_faulty_def live_inv_def described_def split: option.splits)
    with make_sdp_first [OF _ \<open>rw_stream w = Some ms\<close>] show ?thesis by blast
  qed
  then show ?thesis by (auto simp: live_describe_request_def split: option.split)
qed



subsection \<open>The requests of a session\<close>

text \<open>
  What a request comes to, given which calls of its handler may fault: it asks for the address of its
  connection, a SETUP for the ports of its client, and then there is the call.
\<close>

definition call_may_fault ::
  "(rtsp_call \<Rightarrow> 'h \<Rightarrow> rtsp_world \<Rightarrow> bool) \<Rightarrow> rtsp_conn \<Rightarrow> rtsp_request \<Rightarrow> string \<Rightarrow> 'h \<Rightarrow> rtsp_world \<Rightarrow> bool" where
  "call_may_fault faulty conn req path h w \<longleftrightarrow>
     rr_verb req \<noteq> Verb_other \<and>
     (case cn_remote conn of
        None \<Rightarrow> True
      | Some client_address \<Rightarrow>
          (case rr_verb req of
             Verb_describe \<Rightarrow> faulty (Call_describe path) h w
           | Verb_setup \<Rightarrow>
               (case client_ports_of (rr_field req ''Transport'') of
                  Inl _ \<Rightarrow> True
                | Inr client_ports \<Rightarrow> faulty (Call_setup path client_address client_ports) h w)
           | Verb_play \<Rightarrow> faulty (Call_play (rr_field req ''Range'')) h w
           | Verb_pause \<Rightarrow> faulty (Call_pause (rr_field req ''Range'')) h w
           | Verb_teardown \<Rightarrow> faulty Call_teardown h w
           | _ \<Rightarrow> False))"

text \<open>A request of a session; the first one opens it, which takes a path out of its target.\<close>

definition read_may_fault ::
  "(bool \<Rightarrow> rtsp_world \<Rightarrow> 'h \<times> rtsp_world) \<Rightarrow> (rtsp_call \<Rightarrow> 'h \<Rightarrow> rtsp_world \<Rightarrow> bool) \<Rightarrow> rtsp_conn \<Rightarrow> rtsp_request \<Rightarrow>
     'h sess_state \<Rightarrow> bool" where
  "read_may_fault make_handler faulty conn req st \<longleftrightarrow>
     (case ss_session st of
        None \<Rightarrow> True
      | Some se \<Rightarrow>
          if se_url_path se = '''' \<and> se_file_path se = '''' then
            (case url_path_of (rr_target req) of
               Inl _ \<Rightarrow> True
             | Inr url \<Rightarrow>
                (let path = fst (um_index url '''' (ss_path st));
                     (h, w) = make_handler (str_contains path ''/dev'') (ss_world st) in
                 call_may_fault faulty conn req path h w))
          else
            (case se_handler se of
               None \<Rightarrow> True
             | Some h \<Rightarrow> call_may_fault faulty conn req (se_file_path se) h (ss_world st)))"

locale judged_sessions =
  rtsp_sessions ops hinv winv make_handler
  for ops :: "'h handler_ops" and hinv :: "'h \<Rightarrow> rtsp_world \<Rightarrow> bool" and winv :: "rtsp_world \<Rightarrow> bool"
    and make_handler :: "bool \<Rightarrow> rtsp_world \<Rightarrow> 'h \<times> rtsp_world" +
  fixes faulty :: "rtsp_call \<Rightarrow> 'h \<Rightarrow> rtsp_world \<Rightarrow> bool"
  assumes describe_returns: "hinv h w \<Longrightarrow> \<not> faulty (Call_describe p) h w \<Longrightarrow> \<exists>x. ho_describe ops p (h, w) = Inr x"
    and setup_returns: "hinv h w \<Longrightarrow> \<not> faulty (Call_setup p a c) h w \<Longrightarrow> \<exists>x. ho_setup ops p a c (h, w) = Inr x"
    and play_returns: "hinv h w \<Longrightarrow> \<not> faulty (Call_play t) h w \<Longrightarrow> \<exists>x. ho_play ops t (h, w) = Inr x"
    and pause_returns: "hinv h w \<Longrightarrow> \<not> faulty (Call_pause t) h w \<Longrightarrow> \<exists>x. ho_pause ops t (h, w) = Inr x"
    and teardown_returns: "hinv h w \<Longrightarrow> \<not> faulty Call_teardown h w \<Longrightarrow> \<exists>x. ho_teardown ops (h, w) = Inr x"

context judged_sessions begin

lemma call_returns:
  assumes "ss_session st = Some se" and "se_handler se = Some h" and "\<exists>x. f (h, ss_world st) = Inr x"
    and "\<And>y. \<exists>x. g y = Inr x"
  shows "\<exists>x. sbind (call_handler f st) g = Inr x"
  using assms by (auto simp: call_handler_def session_of_def sbind_def split: option.split)

lemma serve_returns:
  assumes se: "ss_session st = Some se" "se_handler se = Some h" and inv: "hinv h (ss_world st)"
    and ok: "\<not> call_may_fault faulty conn req (se_file_path se) h (ss_world st)"
  shows "\<exists>x. serve ops conn req se st = Inr x"
proof (cases "rr_verb req = Verb_other")
  case True
  then show ?thesis by (simp add: serve_def)
next
  case False
  then obtain a where a: "cn_remote conn = Some a" using ok by (auto simp: call_may_fault_def split: option.splits)
  note call = call_returns [OF se]
  have addr: "remote_address conn = Inr a" using a by (simp add: remote_address_def)
  show ?thesis
  proof (cases "rr_verb req")
    case Verb_options
    with addr show ?thesis by (simp add: serve_def Let_def) (rule call, simp_all add: option_law case_prod_beta)
  next
    case Verb_describe
    with ok a have "\<exists>x. ho_describe ops (se_file_path se) (h, ss_world st) = Inr x"
      by (intro describe_returns [OF inv]) (simp add: call_may_fault_def)
    with Verb_describe addr show ?thesis by (simp add: serve_def Let_def) (rule call, simp_all add: case_prod_beta)
  next
    case Verb_setup
    with ok a obtain c where c: "client_ports_of (rr_field req ''Transport'') = Inr c"
      and "\<not> faulty (Call_setup (se_file_path se) a c) h (ss_world st)"
      by (auto simp: call_may_fault_def split: sum.splits)
    with setup_returns [OF inv] have "\<exists>x. ho_setup ops (se_file_path se) a c (h, ss_world st) = Inr x" by blast
    with Verb_setup addr c show ?thesis by (simp add: serve_def Let_def) (rule call, simp_all add: case_prod_beta)
  next
    case Verb_play
    with ok a have "\<exists>x. ho_play ops (rr_field req ''Range'') (h, ss_world st) = Inr x"
      by (intro play_returns [OF inv]) (simp add: call_may_fault_def)
    with Verb_play addr show ?thesis by (simp add: serve_def Let_def) (rule call, simp_all add: case_prod_beta)
  next
    case Verb_pause
    with ok a have "\<exists>x. ho_pause ops (rr_field req ''Range'') (h, ss_world st) = Inr x"
      by (intro pause_returns [OF inv]) (simp add: call_may_fault_def)
    with Verb_pause addr show ?thesis by (simp add: serve_def Let_def) (rule call, simp_all add: case_prod_beta)
  next
    case Verb_teardown
    with ok a have "\<exists>x. ho_teardown ops (h, ss_world st) = Inr x"
      by (intro teardown_returns [OF inv]) (simp add: call_may_fault_def)
    with Verb_teardown addr show ?thesis by (simp add: serve_def Let_def) (rule call, simp_all add: case_prod_beta)
  qed (use False in simp)
qed

lemma open_judged:
  assumes st: "sess_inv hinv winv st" and ok: "\<not> read_may_fault make_handler faulty conn req st"
  shows "\<exists>st1 se h. open_session make_handler req st = Inr st1 \<and> ss_session st1 = Some se \<and> se_handler se = Some h \<and>
    hinv h (ss_world st1) \<and> \<not> call_may_fault faulty conn req (se_file_path se) h (ss_world st1)"
proof -
  from st obtain se where se: "ss_session st = Some se" by (auto simp: sess_inv_def split: option.splits)
  show ?thesis
  proof (cases "se_url_path se = '''' \<and> se_file_path se = ''''")
    case False
    with st se ok obtain h where "se_handler se = Some h" "hinv h (ss_world st)"
      "\<not> call_may_fault faulty conn req (se_file_path se) h (ss_world st)"
      by (auto simp: sess_inv_def read_may_fault_def split: option.splits)
    moreover from se False have "open_session make_handler req st = Inr st"
      by (simp only: open_session_def session_of_def option.case rbind_Inr if_False)
    ultimately show ?thesis using se by blast
  next
    case True
    with ok se obtain url where u: "url_path_of (rr_target req) = Inr url"
      by (auto simp: read_may_fault_def split: sum.splits)
    obtain path paths where i: "um_index url '''' (ss_path st) = (path, paths)" by fastforce
    obtain h w where mk: "make_handler (str_contains path ''/dev'') (ss_world st) = (h, w)" by fastforce
    have "winv (ss_world st)" using st se world_law by (auto simp: sess_inv_def split: option.splits)
    with mk have "hinv h w" by (rule make_law [rotated])
    with ok se True u i mk show ?thesis by (simp add: read_may_fault_def open_session_def session_of_def)
  qed
qed

lemma read_returns:
  assumes "sess_inv hinv winv st" and "\<not> read_may_fault make_handler faulty conn req st"
  shows "\<exists>x. read ops make_handler conn ret req st = Inr x"
proof -
  from open_judged [OF assms] obtain st1 se h where o: "open_session make_handler req st = Inr st1"
    and se: "ss_session st1 = Some se" "se_handler se = Some h"
    and h: "hinv h (ss_world st1)" "\<not> call_may_fault faulty conn req (se_file_path se) h (ss_world st1)" by blast
  from serve_returns [OF se h] o se(1) show ?thesis
    by (auto simp: read_def session_of_def sbind_def split: option.split)
qed

end

subsection \<open>The program's handlers\<close>

definition rtsp_faulty ::
  "rtsp_env \<Rightarrow> 'p video_config option \<Rightarrow> stream_step list \<Rightarrow> rtsp_call \<Rightarrow> gst_file + gst_live \<Rightarrow> rtsp_world \<Rightarrow> bool" where
  "rtsp_faulty env cfg steps call h w \<longleftrightarrow>
     (case h of Inl f \<Rightarrow> file_faulty env call f w | Inr l \<Rightarrow> live_faulty cfg steps call l w)"

lemma dispatch_returns:
  assumes "\<And>x. h = Inl x \<Longrightarrow> \<exists>r. f (x, w) = Inr r" and "\<And>x. h = Inr x \<Longrightarrow> \<exists>r. l (x, w) = Inr r"
  shows "\<exists>r. dispatch f l (h, w) = Inr r"
  using assms by (cases h) (auto simp: dispatch_def reply_map_def sbind_def split: option.split)

lemmas rtsp_calls = rtsp_ops_def virtual_ops_def file_ops_def live_ops_def rtsp_faulty_def session_file_inv_def

interpretation judged: judged_sessions "rtsp_ops env cfg steps"
    "case_sum (session_file_inv H steps) (live_inv H steps)" "boot_inv H steps" make_rtsp_handler
    "rtsp_faulty env cfg steps"
  for env cfg H steps
proof (unfold_locales, goal_cases)
  case (1 h w p)
  then show ?case
    by (auto simp: rtsp_calls intro!: dispatch_returns file_describe_returns live_describe_returns)
next
  case (2 h w p a c)
  then show ?case
    by (auto simp: rtsp_calls live_setup_request_def live_inv_def intro!: dispatch_returns dest: file_setup_returns)
next
  case (3 h w t)
  then show ?case by (auto simp: rtsp_calls live_play_request_def intro!: dispatch_returns dest: file_play_returns)
next
  case (4 h w t)
  then show ?case by (auto simp: rtsp_calls live_pause_request_def intro!: dispatch_returns dest: file_pause_returns)
next
  case (5 h w)
  then show ?case by (auto simp: rtsp_calls live_teardown_request_def intro!: dispatch_returns dest: file_teardown_returns)
qed


end
