(* ===== verification/Video_Progress.thy ===== *)
theory Video_Progress
  imports Video_Props
begin

text \<open>
  When \<open>process_video\<close> and \<open>remove_video\<close> return: \<open>clip_faulty\<close> and \<open>clean_faulty\<close> list what can make them
  fault, for any configuration and any store.
\<close>

subsection \<open>Reading the recordings\<close>

definition readable_recordings :: "fs \<Rightarrow> path \<Rightarrow> bool" where
  "readable_recordings fs p \<longleftrightarrow> is_directory fs p \<and> (\<forall>f \<in> set (recordings fs p). length f < 2 ^ 64 \<and> numbered f)"

lemma collected_names:
  "set (fold (\<lambda>(filename, n) files.
      if is_file n \<and> extension filename = ''.mp4'' \<and> filename \<notin> set files
      then files @ [filename] else files) es files) \<subseteq>
    set files \<union> fst ` set (filter (\<lambda>(name, n). is_file n \<and> extension name = ''.mp4'') es)"
proof (induction es arbitrary: files)
  case (Cons e es)
  obtain name n where e: "e = (name, n)" by fastforce
  show ?case
    using Cons.IH [of files] Cons.IH [of "files @ [name]"] by (auto simp: e)
qed simp

lemma set_filename_returns:
  assumes "readable_recordings fs p"
  shows "\<exists>files. set_filename fs p [] = Inr files \<and> set files \<subseteq> set (recordings fs p)"
proof -
  define names where "names = fold (\<lambda>(filename, n) files.
      if is_file n \<and> extension filename = ''.mp4'' \<and> filename \<notin> set files
      then files @ [filename] else files) (children fs p) []"
  have sub: "set names \<subseteq> set (recordings fs p)"
    using collected_names [of "children fs p" "[]"] by (simp add: names_def recordings_def)
  with assms have "\<forall>f \<in> set names. numbered f" by (auto simp: readable_recordings_def)
  from sort_names_ok [OF this] assms sub show ?thesis
    by (simp add: set_filename_def directory_iterator_def readable_recordings_def names_def)
qed

lemma file_timestamp_returns:
  "length f < 2 ^ 64 \<Longrightarrow> numbered f \<Longrightarrow> file_timestamp f = Inr (start_of f)"
  by (auto simp: file_timestamp_eq start_of_def numbered_def)

subsection \<open>Clips\<close>

definition clip_faulty :: "path \<Rightarrow> int \<Rightarrow> 'p video_handler \<Rightarrow> fs \<Rightarrow> bool" where
  "clip_faulty cwd timestamp h fs \<longleftrightarrow>
     (case vh_video_config h of
        None \<Rightarrow> True
      | Some c \<Rightarrow>
          (case split_time c of
             Inl _ \<Rightarrow> True
           | Inr ns \<Rightarrow>
              (let split = ns sdiv 1000000000; p = resolve cwd (save_path c) in
               \<not> vh_file_lock h \<and>
               (\<not> in_int64 (timestamp - duration c) \<or> \<not> in_int64 (timestamp + duration c) \<or>
                \<not> readable_recordings fs p \<or>
                (\<exists>f \<in> set (recordings fs p). \<not> in_int32 (start_of f + split) \<or> \<not> in_int32 (start_of f + split - 1))))))"

lemma int_div_returns:
  assumes "in_int32 a" and "0 < b"
  shows "int_div a b = Inr (a sdiv b)"
proof (cases "0 \<le> a")
  case True
  with assms show ?thesis by (simp add: int_div_nonneg sdiv_nonneg)
next
  case False
  have "a sdiv b = - (- a div b)" using False assms(2) by (simp add: signed_divide_int_def)
  moreover have "0 \<le> - a div b" "- a div b \<le> - a" using False assms(2) zdiv_mono2 [of "- a" 1 b]
    by (simp_all add: pos_imp_zdiv_nonneg_iff)
  ultimately have "in_int32 (a sdiv b)" using assms(1) False by (simp add: in_int32_def)
  with assms(2) show ?thesis by (simp add: int_div_def chk32_in)
qed

lemma select_loop_returns:
  assumes "\<forall>f \<in> set files. length f < 2 ^ 64 \<and> numbered f \<and> in_int32 (start_of f + split) \<and> in_int32 (start_of f + split - 1)"
  shows "\<exists>r. rfold (select_file split s e) files acc = Inr r"
  using assms
proof (induction files arbitrary: acc)
  case (Cons f files)
  then have "file_timestamp f = Inr (start_of f)" by (simp add: file_timestamp_returns)
  with Cons show ?case by (simp add: select_file_def int_add_def int_sub_def chk32_in)
qed simp

lemma process_video_returns:
  assumes ok: "\<not> clip_faulty cwd t h fs"
  shows "\<exists>r. process_video gst cwd t event_id (h, fs) = Inr r \<and>
    (\<forall>n h' fs'. r = Some (n, h', fs') \<longrightarrow> vh_video_config h' = vh_video_config h)"
proof -
  from ok obtain c ns where c: "vh_video_config h = Some c" and ns: "split_time c = Inr ns"
    by (auto simp: clip_faulty_def split: option.splits sum.splits)
  let ?p = "resolve cwd (save_path c)" and ?k = "ns sdiv 1000000000"
  have "in_int32 ns" using ns by (auto simp: split_time_def int_mul_def chk32_eq_Inr)
  from int_div_returns [OF this, of 1000000000] have k: "int_div ns 1000000000 = Inr ?k" by simp
  show ?thesis
  proof (cases "vh_file_lock h")
    case True
    with c ns k show ?thesis by (simp add: process_video_def)
  next
    case False
    with ok c ns have range: "in_int64 (t - duration c)" "in_int64 (t + duration c)" and rec: "readable_recordings fs ?p"
      and fit: "\<forall>f \<in> set (recordings fs ?p). in_int32 (start_of f + ?k) \<and> in_int32 (start_of f + ?k - 1)"
      by (auto simp: clip_faulty_def Let_def)
    from set_filename_returns [OF rec] obtain files where f: "set_filename fs ?p [] = Inr files" "set files \<subseteq> set (recordings fs ?p)"
      by blast
    with rec fit have "\<forall>f \<in> set files. length f < 2 ^ 64 \<and> numbered f \<and> in_int32 (start_of f + ?k) \<and> in_int32 (start_of f + ?k - 1)"
      by (auto simp: readable_recordings_def)
    from select_loop_returns [OF this] obtain clip where
      "rfold (select_file ?k (to_int32 (t - duration c)) (to_int32 (t + duration c))) files [] = Inr clip" by blast
    with c ns k False range f(1) show ?thesis
      by (simp add: process_video_def chk64_def Let_def split: option.split)
  qed
qed

subsection \<open>Cleaning\<close>

definition clean_faulty :: "path \<Rightarrow> int \<Rightarrow> int \<Rightarrow> string \<Rightarrow> 'p video_handler \<Rightarrow> fs \<Rightarrow> bool" where
  "clean_faulty cwd time maintain_time p h fs \<longleftrightarrow>
     \<not> vh_file_lock h \<and>
     (case vh_video_config h of
        None \<Rightarrow> True
      | Some c \<Rightarrow>
         (let dir = resolve cwd (save_path c) in
          \<not> readable_recordings fs dir \<or> \<not> in_int32 (to_int32 time - maintain_time) \<or>
          (\<exists>f \<in> set (recordings fs dir). is_directory fs (resolve cwd (p @ ''/'' @ f)))))"

lemma remove_file_dirs: "remove_file p fs = Inr fs' \<Longrightarrow> is_directory fs' q \<Longrightarrow> is_directory fs q"
  by (auto simp: remove_file_def is_directory_def fs_lookup_def map_of_filter_neq split: if_splits)

lemma remove_loop_returns:
  assumes "\<forall>f \<in> set files. length f < 2 ^ 64 \<and> numbered f \<and> \<not> is_directory fs (resolve cwd (p @ ''/'' @ f))"
    and "in_int32 (now - m)"
  shows "\<exists>fs'. rfold (remove_old cwd p now m) files fs = Inr fs'"
  using assms(1)
proof (induction files arbitrary: fs)
  case (Cons f files)
  have t: "file_timestamp f = Inr (start_of f)" using Cons.prems by (simp add: file_timestamp_returns)
  have "\<exists>fs1. remove_file (resolve cwd (p @ ''/'' @ f)) fs = Inr fs1"
    using Cons.prems by (auto simp: remove_file_def is_directory_def)
  then obtain fs1 where fs1: "remove_old cwd p now m f fs = Inr fs1" "\<forall>q. is_directory fs1 q \<longrightarrow> is_directory fs q"
    using t remove_file_dirs by (cases "start_of f < now - m") (auto simp: remove_old_def int_sub_def chk32_in [OF assms(2)])
  then have "\<forall>g \<in> set files. length g < 2 ^ 64 \<and> numbered g \<and> \<not> is_directory fs1 (resolve cwd (p @ ''/'' @ g))"
    using Cons.prems by auto
  from Cons.IH [OF this] fs1 show ?case by simp
qed simp

lemma remove_video_returns:
  assumes ok: "\<not> clean_faulty cwd time m p h fs"
  shows "\<exists>r. remove_video cwd time m p (h, fs) = Inr r"
proof (cases "vh_file_lock h")
  case True
  then show ?thesis by (simp add: remove_video_def)
next
  case False
  with ok obtain c where c: "vh_video_config h = Some c" by (auto simp: clean_faulty_def split: option.splits)
  let ?dir = "resolve cwd (save_path c)"
  from ok c False have rec: "readable_recordings fs ?dir" and range: "in_int32 (to_int32 time - m)"
    and dirs: "\<forall>f \<in> set (recordings fs ?dir). \<not> is_directory fs (resolve cwd (p @ ''/'' @ f))"
    by (auto simp: clean_faulty_def Let_def)
  from set_filename_returns [OF rec] obtain files where f: "set_filename fs ?dir [] = Inr files" "set files \<subseteq> set (recordings fs ?dir)"
    by blast
  with rec dirs have "\<forall>f \<in> set files. length f < 2 ^ 64 \<and> numbered f \<and> \<not> is_directory fs (resolve cwd (p @ ''/'' @ f))"
    by (auto simp: readable_recordings_def)
  from remove_loop_returns [OF this range] c False f(1) show ?thesis by (auto simp: remove_video_def)
qed

end
