(* ===== verification/Program_Progress.thy ===== *)
theory Program_Progress
  imports Program_Boot Rtsp_Progress Video_Progress
begin

text \<open>
  When the threads of the composed program do not fault.  \<open>may_fault\<close> lists what can stop the process, by
  the step that does it; for every other step of a state in order there is a lemma that it returns.
\<close>

subsection \<open>What may stop the process\<close>

definition live_program :: "string \<Rightarrow> 'h event_handler \<Rightarrow> bool" where
  "live_program name h \<longleftrightarrow>
     (case um_find (h_event_thread h) name of None \<Rightarrow> False | Some a \<Rightarrow> h_processors h a \<noteq> None)"

text \<open>
  A request for a clip is parsed first.  An upload needs a post processor and a rate that fits an \<open>int\<close>, a
  stop the program it names, and the name of either a null character that ends it.
\<close>

definition name_unterminated :: "'pp mhd_env \<Rightarrow> string \<Rightarrow> 'pp connection_info \<Rightarrow> bool" where
  "name_unterminated mhd data c =
     (case cn_postprocessor c of
        None \<Rightarrow> False
      | Some pp \<Rightarrow> list_ex (\<lambda>(key, piece, after, off). key = ''name'' \<and> CHR 0x00 \<notin> set (piece @ after))
                     (fst (mhd_iterations mhd pp data)))"

definition request_may_fault :: "path \<Rightarrow> 'pp mhd_env \<Rightarrow> ('p, 'h) http_world \<Rightarrow> 'pp http_request \<Rightarrow> string \<Rightarrow> bool" where
  "request_may_fault cwd mhd v r data \<longleftrightarrow> hr_method r = ''POST'' \<and>
     (hr_url r = ''/event'' \<and>
        (let event = iterate_headers (hr_headers r) \<lparr>ev_time_stamp = 0, ev_id = ''''\<rparr> in
         ev_id event \<noteq> [] \<and> ev_time_stamp event \<noteq> 0 \<and> clip_faulty cwd (ev_time_stamp event) (w_video v) (w_fs v)) \<or>
      hr_url r = ''/program'' \<and>
        (case hr_con r of
           None \<Rightarrow> mhd_create_post_processor mhd = None
         | Some c \<Rightarrow> data = [] \<and> stoi (cn_fps c) = Inl Out_of_range) \<or>
      hr_url r \<in> {''/program/start'', ''/program/stop''} \<and> data \<noteq> [] \<and>
        (case hr_con r of None \<Rightarrow> False | Some c \<Rightarrow> name_unterminated mhd data c) \<or>
      hr_url r = ''/program/stop'' \<and> data = [] \<and>
        (case hr_con r of None \<Rightarrow> False | Some c \<Rightarrow> \<not> live_program (cn_file_name c) (w_events v)))"

text \<open>
  The completion of an upload whose files could not all be saved removes the event's directory outside the
  \<open>try\<close> block.
\<close>

definition cleanup_throws :: "os_env \<Rightarrow> path \<Rightarrow> 'pp connection_info option \<Rightarrow> fs \<Rightarrow> bool" where
  "cleanup_throws os cwd con fs =
     (case con of
        None \<Rightarrow> False
      | Some c \<Rightarrow>
          cn_connection_type c = method_code POST \<and> cn_file_name c \<noteq> [] \<and> cn_file_content c \<noteq> [] \<and> cn_fps c \<noteq> [] \<and>
          (let dir = event_directory (cn_file_name c);
               (removed, fs1) = (if dir_exists cwd dir fs then remove_tree (os_replace os) cwd dir fs else (True, fs)) in
           removed \<and>
           (case make_directory (os_mkdir os) cwd dir fs1 of
              Inl _ \<Rightarrow> False
            | Inr fs2 \<Rightarrow>
               (let (saved, fs3) = save_program (os_open os) cwd c fs2 in
                \<not> saved \<and> \<not> fst (remove_tree (os_cleanup os) cwd dir fs3)))))"

definition may_fault :: "('p, 'h, 'd) system_env \<Rightarrow> ('p, 'h, 'pp, 'd) camera_system \<Rightarrow> 'pp action \<Rightarrow> bool" where
  "may_fault e s act \<longleftrightarrow>
     (case act of
        Capture \<Rightarrow> ci_cam_config (cs_camera s) = None \<or> \<not> driver_ok (sv_driver e) (cs_camera s) \<or> \<not> all_mapped (cs_camera s)
      | Distribute t \<Rightarrow> q_enable (queue_of s) \<and> q_input (queue_of s) \<noteq> [] \<and> \<not> can_distribute (queue_of s)
      | Thread_enters a \<Rightarrow>
          (case h_processors (cs_events s) a of
             None \<Rightarrow> True
           | Some p \<Rightarrow> \<not> divides_rate (ep_event_name p) (ep_fps p) (queue_of s))
      | Thread_turns a \<Rightarrow>
          (case cs_phase s a of
             Waiting name \<Rightarrow> um_find (q_thread_info (queue_of s)) name = None
           | _ \<Rightarrow> False) \<or>
          (case h_processors (cs_events s) a of
             None \<Rightarrow> True
           | Some p \<Rightarrow> ep_event_program p = None \<or> \<not> server_ok (mn_net e))
      | Request_data mhd k data \<Rightarrow>
          (case cs_requests s k of
             None \<Rightarrow> False
           | Some r \<Rightarrow> request_may_fault (mn_cwd e) mhd (http_view s) r data)
      | Request_completes mhd os k \<Rightarrow>
          (case cs_requests s k of
             None \<Rightarrow> False
           | Some r \<Rightarrow> cleanup_throws os (mn_cwd e) (hr_con r) (rw_fs (world_of s)))
      | Session_opens conn k uuid \<Rightarrow> \<not> cn_linger_ok conn
      | Live_frame nd \<Rightarrow>
          (if cs_live_waiting s then um_find (q_thread_info (queue_of s)) ''live'' = None else cs_config s = None) \<or>
          \<not> nd_push nd \<or> \<not> in_int32 (rw_frame_cnt (world_of s) + 1)
      | Clean_up now \<Rightarrow>
          (case cs_config s of
             None \<Rightarrow> True
           | Some c \<Rightarrow> clean_faulty (mn_cwd e) now (to_int32 (maintain c)) (save_path c) (cs_video s) (rw_fs (world_of s)))
      | Session_reads conn k junk req \<Rightarrow>
          sy_sessions (cs_rtsp s) k \<noteq> None \<and>
          read_may_fault make_rtsp_handler (rtsp_faulty (mn_rtsp e) (cs_config s) (mn_steps e)) conn req
            (view k (cs_rtsp s))
      | _ \<Rightarrow> False)"

subsection \<open>Threads\<close>

lemma loop_round_returns:
  assumes inv: "vq_inv H q" and cfg: "ci_cam_config c \<noteq> None" and ok: "driver_ok k c" and mapped: "all_mapped c"
  shows "\<exists>x. loop_round k (c, q) = Inr x"
proof -
  obtain s d1 where s: "v_select k (ci_fd c) (ci_dev c) = (s, d1)" by fastforce
  obtain r i n d2 where d: "v_dqbuf k (ci_fd c) d1 = (r, i, n, d2)" by (metis prod.collapse)
  obtain t d3 where t: "v_time k d2 = (t, d3)" by fastforce
  show ?thesis
  proof (cases "s = 0 \<or> r = -1")
    case True
    with s d show ?thesis by (cases "s = 0") (auto simp: loop_round_def deque_v4l2_buffer_def Let_def)
  next
    case False
    then have r: "r \<noteq> -1" by simp
    note i = driver_okD(1) [OF ok d r]
    with mapped obtain a where a: "ci_camera_buffers c ! unat i = Some a" by (metis all_mapped_def not_None_eq nth_mem)
    from driver_okD(2) [OF ok d r a] obtain bytes where "v_memory k d3 a = Some bytes" "unat n \<le> length bytes" by blast
    with False s d t i a cfg show ?thesis
      by (auto simp: loop_round_def deque_v4l2_buffer_def memcpy_bytes_def split: prod.split)
  qed
qed

lemma event_enter_returns:
  assumes inv: "vq_inv H q"
  shows "(\<exists>q'. event_enter p q = Inr q') \<longleftrightarrow> divides_rate (ep_event_name p) (ep_fps p) q"
proof -
  obtain ti q1 where n: "new_info \<lparr>ti_is_run = ep_enable p, ti_fps = ep_fps p\<rparr> q = (ti, q1)" by fastforce
  from insert_event_inv(1) [OF inv n, of "ep_event_name p"] n show ?thesis
    by (fastforce simp: event_enter_def rbind_eq_Inr)
qed

lemma event_exec_returns:
  assumes "ep_event_program p \<noteq> None" and "server_ok env"
  shows "\<exists>x. event_exec env eh p b net = Inr x"
proof -
  have "\<exists>r n. event_send env eh (vb_time b) net = Inr (r, n)"
  proof (cases "curl_easy_init env")
    case None
    then show ?thesis by (simp add: event_send_def)
  next
    case (Some h)
    from send_request_ok [OF assms(2), of "h\<lparr>rq_method := ''POST'', rq_follow := True, rq_protocol := ''https'',
        rq_headers := [''Content-Type: application/json'']\<rparr>"] Some
    show ?thesis by (simp add: event_send_def Let_def)
  qed
  moreover from assms(1) obtain f where "ep_event_program p = Some f" by blast
  ultimately show ?thesis by (auto simp: event_exec_def Let_def split: prod.split)
qed

lemma event_popped_returns:
  assumes inv: "vq_inv H q" and p: "ep_event_program p \<noteq> None" "server_ok env" and r: "pop name q = Inr r"
  shows "\<exists>x. event_popped env eh p (q, net) r = Inr x"
proof -
  consider "r = None" | q1 where "r = Some (None, q1)" | a q1 where "r = Some (Some a, q1)"
    by (metis option.exhaust surj_pair)
  then show ?thesis
  proof cases
    case 3
    with taken_frame [OF inv] r obtain b q' where "read_buf a q1 = Inr b" "delete_buf a q1 = Inr q'" by metis
    moreover from event_exec_returns [OF p] obtain x where "event_exec env eh p b net = Inr x" by blast
    ultimately show ?thesis using r 3 by (auto simp: event_popped_def split: prod.split)
  qed (simp_all add: event_popped_def)
qed

lemma thread_round_returns:
  assumes inv: "vq_inv H q" and h: "h_processors h a = Some p" and p: "ep_event_program p \<noteq> None" "server_ok env"
  shows "\<exists>x. thread_round env eh a h (q, net) = Inr x"
proof -
  from pop_inv [OF inv, of "ep_event_name p"] obtain r where r: "pop (ep_event_name p) q = Inr r" by auto
  from event_popped_returns [OF inv p r] h r show ?thesis by (simp add: thread_round_def event_round_def)
qed

lemma thread_resume_returns:
  assumes inv: "vq_inv H q" and h: "h_processors h a = Some p" and p: "ep_event_program p \<noteq> None" "server_ok env"
    and sub: "um_find (q_thread_info q) name \<noteq> None"
  shows "\<exists>x. thread_resume env eh a name h (q, net) = Inr x"
proof -
  from pop_inv [OF inv, of name] obtain r where r: "pop name q = Inr r" by auto
  with pop_resume_eq [OF inv, of name] sub have "pop_resume name q = Inr r" by simp
  with event_popped_returns [OF inv p r] h show ?thesis by (auto simp: thread_resume_def)
qed

lemma push_frame_count: "push_frame nd b cnt w = Inr (p, w') \<Longrightarrow> rw_frame_cnt w' = rw_frame_cnt w"
  by (auto simp: push_frame_def Let_def gst_new_ref_def gst_unref_def rbind_eq_Inr split: if_splits option.splits)

lemma play_need_data_returns:
  assumes inv: "rtsp_inv H w" and cfg: "cfg \<noteq> None" and push: "nd_push nd" and cnt: "in_int32 (rw_frame_cnt w + 1)"
  shows "\<exists>x. play_need_data cfg nd w = Inr x"
proof (cases "nd_is_app_src nd")
  case False
  with cfg show ?thesis by (auto simp: play_need_data_def)
next
  case True
  have ok: "refs_ok w" and vq: "vq_inv H (rw_queue w)" using inv by (simp_all add: rtsp_inv_def)
  from pop_inv [OF vq, of "''live''"] obtain r where r: "pop ''live'' (rw_queue w) = Inr r" by auto
  consider "r = None" | q where "r = Some (None, q)" | a q where "r = Some (Some a, q)"
    by (metis option.exhaust surj_pair)
  then show ?thesis
  proof cases
    case 3
    with taken_frame [OF vq] r obtain b q' where b: "read_buf a q = Inr b" "frame_ok b" and d: "delete_buf a q = Inr q'"
      by metis
    have "refs_ext w (w\<lparr>rw_queue := q\<rparr>)" using refs_ext_refl [OF ok] by (simp add: refs_ext_def)
    from push_frame_spec [OF b(2) this, of nd "rw_frame_cnt w"] obtain p w2 where
      p: "push_frame nd b (rw_frame_cnt w) (w\<lparr>rw_queue := q\<rparr>) = Inr (p, w2)" "rw_queue w2 = q"
        "p = None \<or> (\<exists>x. p = Some (x, nd_push nd))" by auto
    moreover have "rw_frame_cnt w2 = rw_frame_cnt w" using push_frame_count [OF p(1)] by simp
    ultimately show ?thesis
      using True r 3 b(1) d cfg push cnt by (auto simp: play_need_data_def play_popped_def int_add_def chk32_in)
  qed (use r cfg True in \<open>auto simp: play_need_data_def play_popped_def\<close>)
qed

lemma live_step_returns:
  assumes inv: "rtsp_inv H (world_of s)" and push: "nd_push nd" and cnt: "in_int32 (rw_frame_cnt (world_of s) + 1)"
    and ready: "if cs_live_waiting s then um_find (q_thread_info (queue_of s)) ''live'' \<noteq> None else cs_config s \<noteq> None"
  shows "\<exists>s'. live_step nd s = Inr (Some s')"
proof (cases "cs_live_waiting s")
  case True
  obtain c :: "unit video_config" where "play_resume nd (world_of s) =
      (if um_find (q_thread_info (rw_queue (world_of s))) ''live'' = None then Inl EndIterator
       else play_need_data (Some c) (nd\<lparr>nd_is_app_src := True\<rparr>) (world_of s))"
    using play_resume_eq [OF inv] by blast
  with True ready play_need_data_returns [OF inv, of "Some c" "nd\<lparr>nd_is_app_src := True\<rparr>"] push cnt show ?thesis
    by (auto simp: live_step_def queue_of_def)
next
  case False
  with ready play_need_data_returns [OF inv, of "cs_config s" nd] push cnt show ?thesis
    by (auto simp: live_step_def)
qed

subsection \<open>Requests\<close>

text \<open>What the end of a request leaves allocated.\<close>

definition request_leaks :: "string \<Rightarrow> 'pp connection_info option \<Rightarrow> 'pp leak list \<Rightarrow> bool" where
  "request_leaks url con ls \<longleftrightarrow>
     (case con of
        None \<Rightarrow> ls = []
      | Some c \<Rightarrow>
          if url = ''/program'' then ls = [] \<or> ls = [Lost_connection (c\<lparr>cn_postprocessor := None\<rparr>)]
          else \<exists>pp. cn_postprocessor c = Some pp \<and> ls = [Lost_post_processor pp])"

lemma post_request_complete_returns:
  assumes typed: "con_typed url method con" and slots: "is_upload con \<Longrightarrow> in_int32 (eh_upload_client (w_http v) + 1)"
  shows "if cleanup_throws os cwd con (w_fs v)
    then post_request_complete mhd os cwd con v = Inl (Uncaught Filesystem_error)
    else \<exists>ls v'. post_request_complete mhd os cwd con v = Inr (ls, v') \<and> request_leaks url con ls"
proof (cases con)
  case None
  then show ?thesis by (simp add: post_request_complete_def request_leaks_def cleanup_throws_def)
next
  case (Some c)
  show ?thesis
  proof (cases "cn_connection_type c = method_code POST")
    case False
    with Some typed show ?thesis
      by (auto simp: post_request_complete_def request_leaks_def con_typed_def lost_post_processor_def cleanup_throws_def)
  next
    case True
    with Some slots obtain v1 where v1: "release_slot c v = Inr v1" "w_fs v1 = w_fs v"
      by (cases "cn_postprocessor c") (auto simp: release_slot_def int_add_def chk32_in is_upload_def)
    have url: "url = ''/program''" using True Some typed by (auto simp: con_typed_def)
    let ?dir = "event_directory (cn_file_name c)"
    obtain removed fs1 where rm: "(if dir_exists cwd ?dir (w_fs v) then remove_tree (os_replace os) cwd ?dir (w_fs v)
        else (True, w_fs v)) = (removed, fs1)" by fastforce
    show ?thesis
    proof (cases "removed \<and> (\<exists>fs2. make_directory (os_mkdir os) cwd ?dir fs1 = Inr fs2)")
      case False
      with True Some url v1 rm show ?thesis
        by (cases "make_directory (os_mkdir os) cwd ?dir fs1")
          (auto simp: post_request_complete_def request_leaks_def cleanup_throws_def Let_def)
    next
      case dir: True
      then obtain fs2 saved fs3 cleaned fs4 where "make_directory (os_mkdir os) cwd ?dir fs1 = Inr fs2"
        "save_program (os_open os) cwd c fs2 = (saved, fs3)" "remove_tree (os_cleanup os) cwd ?dir fs3 = (cleaned, fs4)"
        by (metis surj_pair)
      moreover have "save_program (os_open os) cwd (c\<lparr>cn_postprocessor := None\<rparr>) fs2 = save_program (os_open os) cwd c fs2"
        by (simp add: save_program_def)
      ultimately show ?thesis
        using True Some url v1 rm dir
        by (auto simp: post_request_complete_def request_leaks_def cleanup_throws_def Let_def)
    qed
  qed
qed

lemma slots_room:
  assumes "slots_kept N rq n" and "rq k = Some r" and "is_upload (hr_con r)" and "in_int32 N"
  shows "in_int32 (n + 1)"
proof -
  from assms(2,3) have k: "k \<in> uploads_of rq" by (auto simp: uploads_of_def)
  with assms(1) have "0 < card (uploads_of rq)" "0 \<le> n" by (auto simp: slots_kept_def card_gt_0_iff)
  with assms(1,4) show ?thesis by (auto simp: slots_kept_def in_int32_def)
qed

lemma request_completes_returns:
  assumes inv: "composed_inv N e s" and N: "in_int32 N" and r: "cs_requests s k = Some r"
  shows "if cleanup_throws os (mn_cwd e) (hr_con r) (rw_fs (world_of s))
    then request_completes e mhd os k s = Inl (Uncaught Filesystem_error)
    else \<exists>ls s'. request_completes e mhd os k s = Inr (Some s') \<and> cs_requests s' = (cs_requests s)(k := None) \<and>
      cs_leaks s' = cs_leaks s @ ls \<and> request_leaks (hr_url r) (hr_con r) ls"
proof -
  note i = composed_invD [OF inv]
  from i(3) r have t: "con_typed (hr_url r) (hr_method r) (hr_con r)" by (simp add: requests_typed_def)
  have "in_int32 (eh_upload_client (w_http (http_view s)) + 1)" if "is_upload (hr_con r)"
    using slots_room [OF i(4) r that N] by simp
  from post_request_complete_returns [OF t this, of os "mn_cwd e" mhd] r show ?thesis
    by (auto simp: request_completes_def split: if_splits)
qed

text \<open>The pieces a post processor hands over: an upload's are copied by their length, a name by its null character.\<close>

lemma run_iterator_returns:
  "(\<And>call c. call \<in> set calls \<Longrightarrow> \<exists>x. it call c = Inr x) \<Longrightarrow> \<exists>c'. run_iterator it calls c = Inr c'"
proof (induction calls arbitrary: c)
  case Nil
  show ?case by simp
next
  case (Cons call calls)
  from Cons.prems [of call c] obtain r c1 where it: "it call c = Inr (r, c1)" by auto
  have "\<exists>c'. run_iterator it calls c1 = Inr c'" by (rule Cons.IH, rule Cons.prems) simp
  with it show ?case by simp
qed

lemma post_program_returns: "\<exists>c'. post_process mhd iterate_program_post data c = Inr c'"
proof -
  have "\<exists>x. iterate_program_post call c = Inr x" for call and c :: "'a connection_info"
    by (simp add: iterate_program_post_def Let_def split: prod.split)
  from run_iterator_returns [of _ iterate_program_post, OF this]
  have "\<exists>c1. run_iterator iterate_program_post calls c = Inr c1" for calls .
  then have "\<exists>c'. rbind (run_iterator iterate_program_post calls c) (\<lambda>c1. Inr (f c1)) = Inr c'" for calls f
    by (metis rbind_Inr)
  then show ?thesis by (auto simp: post_process_def split: option.split prod.split)
qed

lemma post_filename_returns:
  assumes "\<not> name_unterminated mhd data c"
  shows "\<exists>c'. post_process mhd iterate_get_filename data c = Inr c'"
proof (cases "cn_postprocessor c")
  case None
  then show ?thesis by (simp add: post_process_def)
next
  case (Some pp)
  obtain calls pp1 where m: "mhd_iterations mhd pp data = (calls, pp1)" by fastforce
  have "\<exists>x. iterate_get_filename call c1 = Inr x" if "call \<in> set calls" for call and c1 :: "'a connection_info"
  proof -
    obtain key piece after off where call: "call = (key, piece, after, off)" by (cases call)
    with assms Some m that have "key = ''name'' \<longrightarrow> CHR 0x00 \<in> set (piece @ after)"
      by (auto simp: name_unterminated_def list_ex_iff)
    with call show ?thesis by (auto simp: iterate_get_filename_def c_string_def)
  qed
  from run_iterator_returns [of calls iterate_get_filename, OF this] obtain c1 where
    "run_iterator iterate_get_filename calls c = Inr c1" by blast
  with Some m show ?thesis by (simp add: post_process_def)
qed

lemma stop_event_returns:
  assumes inv: "vq_inv H q" and live: "live_program name h"
  shows "\<exists>h' q'. stop_event name (h, q) = Inr (0, h', q')"
  using remove_event_inv [OF inv, of name] live by (auto simp: live_program_def stop_event_def split: option.splits)

lemma stoi_exn: "stoi s = Inl e \<Longrightarrow> e = Invalid_argument \<or> e = Out_of_range"
  by (simp add: stoi_def split: option.splits if_splits)

lemma program_accept_returns:
  assumes slots: "in_int32 (eh_upload_client (w_http v))"
    and ok: "\<not> (case con of None \<Rightarrow> mhd_create_post_processor mhd = None
      | Some c \<Rightarrow> data = [] \<and> stoi (cn_fps c) = Inl Out_of_range)"
  shows "\<exists>x. program_accept mhd con data v = Inr x"
proof (cases con)
  case None
  show ?thesis
  proof (cases "eh_upload_client (w_http v) \<le> 0")
    case True
    with None show ?thesis by (simp add: program_accept_def split: prod.split)
  next
    case False
    with slots have "in_int32 (eh_upload_client (w_http v) - 1)" by (simp add: in_int32_def)
    with False None ok show ?thesis by (auto simp: program_accept_def int_sub_def chk32_in)
  qed
next
  case (Some c)
  show ?thesis
  proof (cases "data = []")
    case True
    with Some ok stoi_exn [of "cn_fps c"] show ?thesis
      by (fastforce simp: program_accept_def Let_def split: sum.split)
  next
    case False
    with Some post_program_returns [of mhd data c] show ?thesis by (auto simp: program_accept_def)
  qed
qed

lemma event_accept_returns:
  assumes ok: "ev_id event = [] \<or> ev_time_stamp event = 0 \<or> \<not> clip_faulty cwd (ev_time_stamp event) (w_video v) (w_fs v)"
    and event: "event = iterate_headers headers \<lparr>ev_time_stamp = 0, ev_id = ''''\<rparr>"
  shows "\<exists>x. event_accept mhd gst cwd headers v = Inr x"
proof (cases "ev_id event = [] \<or> ev_time_stamp event = 0")
  case True
  then show ?thesis
    by (cases "ev_id event = []") (simp_all add: event_accept_def event [symmetric] Let_def)
next
  case False
  with ok obtain r where r: "process_video gst cwd (ev_time_stamp event) (ev_id event) (w_video v, w_fs v) = Inr r"
    and kept: "\<forall>n h' fs'. r = Some (n, h', fs') \<longrightarrow> vh_video_config h' = vh_video_config (w_video v)"
    using process_video_returns [of cwd "ev_time_stamp event" "w_video v" "w_fs v" gst "ev_id event"] by auto
  from ok False obtain c where "vh_video_config (w_video v) = Some c" by (auto simp: clip_faulty_def split: option.splits)
  with r kept False show ?thesis
    by (auto simp: event_accept_def event get_video_def Let_def split: option.split)
qed

lemma libmicrohttpd_handler_returns:
  assumes ok: "\<not> request_may_fault cwd mhd v \<lparr>hr_url = url, hr_method = method, hr_headers = headers, hr_con = con\<rparr> data"
    and inv: "vq_inv H (w_queue v)" and slots: "in_int32 (eh_upload_client (w_http v))"
  shows "\<exists>x. libmicrohttpd_handler mhd gst mk cwd headers url method data con v = Inr x"
proof -
  consider (event) "url = ''/event''" "method = ''POST''" | (program) "url = ''/program''" "method = ''POST''"
    | (start) "url = ''/program/start''" "method = ''POST''" | (stop) "url = ''/program/stop''" "method = ''POST''"
    | (other) "\<not> (method = ''POST'' \<and> url \<in> {''/event'', ''/program'', ''/program/start'', ''/program/stop''})"
    by blast
  then show ?thesis
  proof cases
    case event
    with ok have "\<exists>x. event_accept mhd gst cwd headers v = Inr x"
      by (intro event_accept_returns [OF _ refl]) (auto simp: request_may_fault_def Let_def)
    with event show ?thesis
      by (auto simp: libmicrohttpd_handler_def split: option.split)
  next
    case program
    with ok show ?thesis
      using program_accept_returns [OF slots, of mhd data con]
      by (fastforce simp: libmicrohttpd_handler_def request_may_fault_def)
  next
    case start
    have "\<exists>c'. post_process mhd iterate_get_filename data c = Inr c'" if "con = Some c" "data \<noteq> []" for c
      using ok start that by (intro post_filename_returns) (simp add: request_may_fault_def)
    with start show ?thesis
      by (cases con; cases "data = []")
        (fastforce simp: libmicrohttpd_handler_def program_start_accept_def post_open_def split: option.split prod.split)+
  next
    case stop
    show ?thesis
    proof (cases "con = None \<or> data \<noteq> []")
      case True
      have "\<exists>c'. post_process mhd iterate_get_filename data c = Inr c'" if "con = Some c" "data \<noteq> []" for c
        using ok stop that by (intro post_filename_returns) (simp add: request_may_fault_def)
      with True stop show ?thesis
        by (cases con; cases "data = []")
          (fastforce simp: libmicrohttpd_handler_def program_stop_accept_def post_open_def split: option.split prod.split)+
    next
      case False
      then obtain c where c: "con = Some c" "data = []" by auto
      with ok stop have "live_program (cn_file_name c) (w_events v)" by (simp add: request_may_fault_def)
      with stop_event_returns [OF inv this] c stop show ?thesis
        by (auto simp: libmicrohttpd_handler_def program_stop_accept_def)
    qed
  next
    case other
    then have "\<not> (url = ''/event'' \<and> method = ''POST'')" "\<not> (url = ''/program'' \<and> method = ''POST'')"
      "\<not> (url = ''/program/start'' \<and> method = ''POST'')" "\<not> (url = ''/program/stop'' \<and> method = ''POST'')"
      by blast+
    then show ?thesis
      unfolding libmicrohttpd_handler_def by (simp only: if_False) (simp split: prod.split)
  qed
qed


subsection \<open>Packets\<close>

text \<open>A session's object has been set up, so that its sinks have somewhere to send a packet.\<close>

lemma session_info_up:
  assumes inv: "composed_inv N e s" and a: "info_of k (cs_rtsp s) = Some a"
  shows "\<exists>i. rw_infos (world_of s) a = Some i \<and> sockets_there i"
proof -
  from a obtain se h where se: "sy_sessions (cs_rtsp s) k = Some se" "se_handler se = Some (Inl h)" "gf_rtp_info h = Some a"
    by (auto simp: info_of_def split: option.splits sum.splits)
  with session_prog_inv [OF inv, of k] have "file_inv {} h (world_of s)"
    by (simp add: sess_inv_def session_file_inv_def view_def)
  with se(3) show ?thesis by (auto simp: file_inv_def)
qed

lemma packet_returns:
  assumes inv: "composed_inv N e s"
  shows "(\<exists>x. packet_step rtp_appsink_new_sample_callback k sample s = Inr x) \<and>
    (\<exists>x. packet_step rtcp_appsink_new_sample_callback k sample s = Inr x)"
proof (cases "info_of k (cs_rtsp s)")
  case None
  then show ?thesis by (simp add: packet_step_def)
next
  case (Some a)
  from session_info_up [OF inv this] obtain i where i: "rw_infos (world_of s) a = Some i" "sockets_there i" by blast
  from rtp_callback_returns [OF i, of sample] rtcp_callback_returns [OF i, of sample] Some
  show ?thesis by (auto simp: packet_step_def)
qed

subsection \<open>Every step\<close>

lemma slots_range:
  assumes "slots_kept N rq n" and "in_int32 N"
  shows "in_int32 n"
proof -
  from assms(1) have "n \<le> N" "uploads_of rq \<noteq> {} \<longrightarrow> 0 \<le> n" "uploads_of rq = {} \<longrightarrow> n = N"
    by (auto simp: slots_kept_def)
  with assms(2) show ?thesis by (cases "uploads_of rq = {}") (auto simp: in_int32_def)
qed

lemma step_returns:
  assumes inv: "composed_inv N e s" and N: "in_int32 N" and ok: "\<not> may_fault e s act"
  shows "\<exists>x. system_step e act s = Inr x"
proof -
  note i = composed_invD [OF inv]
  show ?thesis
  proof (cases act)
    case Capture
    with ok have "\<exists>x. loop_round (sv_driver e) (cs_camera s, queue_of s) = Inr x"
      by (intro loop_round_returns [OF i(6)]) (simp_all add: may_fault_def)
    with Capture show ?thesis by (auto simp: capture_step_def split: prod.split)
  next
    case (Distribute t)
    with distribute_round_returns [OF i(6), of t] ok show ?thesis by (auto simp: distribute_step_def may_fault_def)
  next
    case (Thread_enters a)
    with ok obtain p where p: "h_processors (cs_events s) a = Some p"
      "divides_rate (ep_event_name p) (ep_fps p) (queue_of s)" by (auto simp: may_fault_def split: option.splits)
    with event_enter_returns [OF i(6), of p] Thread_enters show ?thesis by (auto simp: thread_enters_def)
  next
    case (Thread_turns a)
    with ok obtain p where p: "h_processors (cs_events s) a = Some p" "ep_event_program p \<noteq> None" "server_ok (mn_net e)"
      by (auto simp: may_fault_def split: option.splits)
    have "\<exists>x. thread_turn e a s = Inr x"
    proof (cases "\<exists>name. cs_phase s a = Waiting name")
      case True
      then obtain name where ph: "cs_phase s a = Waiting name" by blast
      with ok Thread_turns have "um_find (q_thread_info (queue_of s)) name \<noteq> None" by (simp add: may_fault_def)
      from thread_resume_returns [OF i(6) p this] ph show ?thesis by (simp add: thread_turn_def)
    next
      case False
      with thread_round_returns [OF i(6) p] show ?thesis by (auto simp: thread_turn_def split: thread_phase.splits)
    qed
    with Thread_turns show ?thesis by (auto simp: thread_turns_def split: prod.split)
  next
    case (Send_clip j)
    then show ?thesis by (simp add: clip_step_def split: prod.split)
  next
    case (Clean_up now)
    with ok obtain c where c: "cs_config s = Some c"
      and "\<not> clean_faulty (mn_cwd e) now (to_int32 (maintain c)) (save_path c) (cs_video s) (rw_fs (world_of s))"
      by (auto simp: may_fault_def split: option.splits)
    from remove_video_returns [OF this(2)] c Clean_up show ?thesis
      by (auto simp: clean_step_def sbind_def split: option.split)
  next
    case (Request_arrives k u m hs)
    then show ?thesis by (simp add: request_arrives_def)
  next
    case (Request_data mhd k data)
    show ?thesis
    proof (cases "cs_requests s k")
      case None
      with Request_data show ?thesis by (simp add: request_data_def)
    next
      case (Some r)
      with ok Request_data have "\<not> request_may_fault (mn_cwd e) mhd (http_view s)
          \<lparr>hr_url = hr_url r, hr_method = hr_method r, hr_headers = hr_headers r, hr_con = hr_con r\<rparr> data"
        by (simp add: may_fault_def request_may_fault_def)
      moreover have "in_int32 (eh_upload_client (w_http (http_view s)))" using slots_range [OF i(4) N] by simp
      ultimately have "\<exists>x. libmicrohttpd_handler mhd (sv_gst e) (mn_processor e (mn_cwd e)) (mn_cwd e) (hr_headers r)
          (hr_url r) (hr_method r) data (hr_con r) (http_view s) = Inr x"
        using i(6) by (intro libmicrohttpd_handler_returns) simp_all
      with Some Request_data show ?thesis by (auto simp: request_data_def sbind_def split: option.split)
    qed
  next
    case (Request_completes mhd os k)
    show ?thesis
    proof (cases "cs_requests s k")
      case None
      with Request_completes show ?thesis by (simp add: request_completes_def)
    next
      case (Some r)
      with ok Request_completes have "\<not> cleanup_throws os (mn_cwd e) (hr_con r) (rw_fs (world_of s))"
        by (simp add: may_fault_def)
      with request_completes_returns [OF inv N Some, of os mhd] Request_completes show ?thesis by auto
    qed
  next
    case (Session_opens conn k uuid)
    with ok show ?thesis by (simp add: may_fault_def session_opens_def build_session_def)
  next
    case (Session_reads conn k junk req)
    show ?thesis
    proof (cases "sy_sessions (cs_rtsp s) k = None")
      case True
      with Session_reads show ?thesis by (simp add: session_reads_def)
    next
      case False
      with ok Session_reads have "\<not> read_may_fault make_rtsp_handler
          (rtsp_faulty (mn_rtsp e) (cs_config s) (mn_steps e)) conn req (view k (cs_rtsp s))"
        by (simp add: may_fault_def)
      from judged.read_returns [OF session_prog_inv [OF inv False] this, of junk] Session_reads False
      show ?thesis by (auto simp: session_reads_def sbind_def split: option.split)
    qed
  next
    case (Session_ends k)
    show ?thesis
    proof (cases "sy_sessions (cs_rtsp s) k = None")
      case True
      with Session_ends show ?thesis by (simp add: session_ends_def)
    next
      case False
      from rtsp.destroy_returns [OF session_prog_inv [OF inv this], of "mn_rtsp e" "cs_config s"] Session_ends False
      show ?thesis by (auto simp: session_ends_def)
    qed
  next
    case (Rtp_packet k sample)
    with packet_returns [OF inv, of k sample] show ?thesis by simp
  next
    case (Rtcp_packet k sample)
    with packet_returns [OF inv, of k sample] show ?thesis by simp
  next
    case (Live_frame nd)
    with ok have "\<exists>s'. live_step nd s = Inr (Some s')"
      by (intro live_step_returns [OF i(5)]) (simp_all add: may_fault_def split: if_splits)
    with Live_frame show ?thesis by auto
  qed
qed


end
