(* ===== verification/Video_Queue_Flow.thy ===== *)
theory Video_Queue_Flow
  imports Video_Queue_Sharing
begin

text \<open>
  The way of a frame to one subscriber, by value: \<open>a_line\<close> lists what a subscription has still to send, the
  frames that wait for it and those of the input, and of frames yet to be captured, whose turn is due.  A
  round of the distributor moves a frame along the line without changing it, the subscriber takes the first of
  it, and no other thread touches it.
\<close>

text \<open>The bytes a subscriber that counts them in 32 bits takes from a frame; the distributor's copy has the same.\<close>

definition sent_bytes :: "vbuf \<Rightarrow> 8 word list" where
  "sent_bytes b = take (unat (of_nat (vb_size b) :: 32 word)) (the (vb_data b))"

lemma sent_bytes_copy: "sent_bytes (frame_copy t b) = sent_bytes b"
proof -
  have "unat (of_nat (vb_size b) :: 32 word) \<le> vb_size b" by (simp add: unat_of_nat)
  then show ?thesis by (simp add: sent_bytes_def frame_copy_def min_absorb1)
qed

definition due_frames :: "int \<Rightarrow> vbuf list \<Rightarrow> int list \<Rightarrow> vbuf list" where
  "due_frames p bs ns = map fst (filter (\<lambda>(b, n). n mod p = 0) (zip bs ns))"

lemma due_frames_simps [simp]:
  "due_frames p [] ns = []"
  "due_frames p (b # bs) (n # ns) = (if n mod p = 0 then b # due_frames p bs ns else due_frames p bs ns)"
  by (simp_all add: due_frames_def)

definition a_line :: "string \<Rightarrow> thread_info \<Rightarrow> aqueue \<Rightarrow> vbuf list \<Rightarrow> 8 word list list" where
  "a_line n i a bs =
     map sent_bytes (the (a_queue a n)) @
     map sent_bytes (due_frames (ti_fps i) (a_input a @ bs) (frame_numbers (a_fps a) (a_frame a) (length (a_input a @ bs))))"

lemma a_line_distribute:
  assumes "a_subs a n = Some i" and "a_queue a n \<noteq> None"
  shows "a_line n i (a_distribute t a) bs = a_line n i a bs"
  using assms by (auto simp: a_line_def a_distribute_def due_def Let_def sent_bytes_copy split: list.split)

lemma a_line_capture: "a_line n i (a\<lparr>a_input := a_input a @ [b]\<rparr>) bs = a_line n i a (b # bs)"
  by (simp add: a_line_def)

lemma a_line_take: "a_queue a n = Some (b # q) \<Longrightarrow> a_line n i a bs = sent_bytes b # a_line n i (a\<lparr>a_queue := (a_queue a)(n \<mapsto> q)\<rparr>) bs"
  by (simp add: a_line_def)

subsection \<open>What leaves a line alone\<close>

definition passes :: "string \<Rightarrow> vqueue \<Rightarrow> vqueue \<Rightarrow> bool" where
  "passes n q q' \<longleftrightarrow> a_input (abs_vq q') = a_input (abs_vq q) \<and> a_frame (abs_vq q') = a_frame (abs_vq q) \<and>
     a_fps (abs_vq q') = a_fps (abs_vq q) \<and> a_queue (abs_vq q') n = a_queue (abs_vq q) n"

lemma passes_refl: "passes n q q"
  by (simp add: passes_def)

lemma passes_line: "passes n q q' \<Longrightarrow> a_line n i (abs_vq q') bs = a_line n i (abs_vq q) bs"
  by (simp add: passes_def a_line_def)

lemma passes_abs: "abs_vq q' = (abs_vq q)\<lparr>a_subs := x, a_queue := y\<rparr> \<Longrightarrow> y n = abs_queue q n \<Longrightarrow> passes n q q'"
  by (simp add: passes_def) (simp add: abs_vq_def)

lemma abs_vq_delete:
  assumes inv: "vq_inv H s" and a: "a \<in> H" and d: "delete_buf a s = Inr s'"
  shows "abs_vq s' = abs_vq s"
proof -
  from delete_held [OF inv a] d have s': "abs_queue s' = abs_queue s" "q_bufs s' = (q_bufs s)(a := None)"
    "same_subs (s\<lparr>q_bufs := q_bufs s'\<rparr>) s'" by auto
  have "abs_subs s' = abs_subs s" by (rule abs_subs_cong) (use s'(3) in \<open>simp_all add: same_subs_def\<close>)
  moreover have "a \<notin> set (q_input s)" using vq_invD(3) [OF inv] a by (auto simp: bufs_ok_def owned_def)
  then have "map (buf_at s') (q_input s) = map (buf_at s) (q_input s)" by (auto simp: buf_at_def s'(2))
  ultimately show ?thesis using s' by (simp add: abs_vq_def same_subs_def)
qed

lemma abs_vq_take:
  assumes inv: "vq_inv H q" and p: "pop n q = Inr (Some (Some a, q1))" and d: "delete_buf a q1 = Inr q2"
  shows "abs_vq q2 = (abs_vq q)\<lparr>a_queue := (abs_queue q)(n := map_option tl (abs_queue q n))\<rparr>"
proof (cases "um_find (q_thread_info q) n")
  case None
  with p show ?thesis by (simp add: pop_unsubscribed)
next
  case (Some ti)
  then have "(n, ti) \<in> set (q_thread_info q)" using vq_invD(2) [OF inv] by (simp add: um_find_mem subs_ok_def)
  from subs_ok_entry [OF vq_invD(2) [OF inv] this] obtain i where i: "q_infos q ti = Some i" by metis
  from pop_cases [OF inv Some i] p obtain rest where l: "um_find (q_output q) n = Some (a # rest)"
    and q1: "q1 = q\<lparr>q_output := um_modify n (\<lambda>_. rest) (q_output q)\<rparr>"
    by (auto split: if_splits list.splits)
  note t = pop_take_inv [OF inv l, folded q1]
  have "buf_at q1 = buf_at q" by (simp add: fun_eq_iff buf_at_def q1)
  moreover have "abs_subs q1 = abs_subs q" by (rule abs_subs_cong) (simp_all add: q1)
  ultimately have "abs_vq q1 = (abs_vq q)\<lparr>a_queue := (abs_queue q)(n := map_option tl (abs_queue q n))\<rparr>"
    using t(3) by (simp add: abs_vq_def q1)
  with abs_vq_delete [OF t(1) _ d] show ?thesis by simp
qed

lemma pop_null_passes:
  assumes inv: "vq_inv H q" and p: "pop m q = Inr (Some (None, q'))"
  shows "passes n q q'"
proof (cases "um_find (q_thread_info q) m")
  case None
  with p show ?thesis by (simp add: pop_unsubscribed passes_refl)
next
  case (Some ti)
  then have "(m, ti) \<in> set (q_thread_info q)" using vq_invD(2) [OF inv] by (simp add: um_find_mem subs_ok_def)
  from subs_ok_entry [OF vq_invD(2) [OF inv] this] obtain i where i: "q_infos q ti = Some i" by metis
  from pop_cases [OF inv Some i] p have q': "q' = q\<lparr>q_thread_info := um_erase m (q_thread_info q)\<rparr>"
    by (auto split: if_splits list.splits)
  have "buf_at q' = buf_at q" by (simp add: fun_eq_iff buf_at_def q')
  moreover have "abs_queue q' = abs_queue q" by (rule abs_queue_bufs_cong) (simp_all add: q')
  ultimately show ?thesis by (simp add: passes_def abs_vq_def q')
qed

lemma consumed_passes:
  assumes inv: "vq_inv H q" and c: "consumed m q q'" and m: "m \<noteq> n"
  shows "passes n q q'"
  using c unfolding consumed_def
proof (elim disjE exE conjE)
  fix a q1 assume "pop m q = Inr (Some (Some a, q1))" and "delete_buf a q1 = Inr q'"
  from abs_vq_take [OF inv this] m show ?thesis by (simp add: passes_def) (simp add: abs_vq_def)
qed (use pop_null_passes [OF inv] in \<open>simp_all add: passes_refl\<close>)

lemma subscribed_passes:
  assumes inv: "vq_inv H q" and new: "new_info i q = (ti, q1)"
    and ins: "insert_event m (Some ti) q1 = Inr (r, q')" and n: "abs_queue q n \<noteq> None"
  shows "passes n q q'"
proof -
  note nw = new_info_inv [OF inv new]
  have q1: "passes n q q1" using nw(4) by (simp add: passes_def)
  show ?thesis
  proof (cases "um_find (q_thread_info q1) m")
    case None
    from ins None nw(3) obtain p where p: "int_div (q_device_fps q1) (ti_fps i) = Inr p"
      by (auto simp: insert_event_def read_info_def rbind_eq_Inr)
    from insert_event_new [OF nw(1) None nw(3) p nw(2)] ins have
      q': "abs_queue q' = (abs_queue q1)(m \<mapsto> (case abs_queue q1 m of None \<Rightarrow> [] | Some l \<Rightarrow> l))"
        "q_input q' = q_input q1" "q_frame_no q' = q_frame_no q1" "q_device_fps q' = q_device_fps q1" "q_bufs q' = q_bufs q1"
      by auto
    have "abs_queue q1 = abs_queue q" using nw(4) by (simp add: abs_vq_def)
    with n have "abs_queue q1 n \<noteq> None" by simp
    moreover have "buf_at q' = buf_at q1" by (simp add: fun_eq_iff buf_at_def q'(5))
    ultimately have "passes n q1 q'" using q' by (auto simp: passes_def abs_vq_def split: option.split)
    with q1 show ?thesis by (simp add: passes_def)
  next
    case (Some t)
    with insert_event_dup ins have "q' = q1" by fastforce
    with q1 show ?thesis by simp
  qed
qed

text \<open>Another event is removed: its own frames are freed, and nothing else.\<close>

lemma removed_output:
  assumes inv: "vq_inv H q" and rm: "remove_event m q = Inr (r, q')"
  shows "q_input q' = q_input q \<and> q_frame_no q' = q_frame_no q \<and> q_output q' = um_erase m (q_output q) \<and>
    q_bufs q' = (\<lambda>a. if a \<in> set (case um_find (q_output q) m of None \<Rightarrow> [] | Some l \<Rightarrow> l) then None else q_bufs q a)"
proof (cases "um_find (q_output q) m")
  case None
  then have "um_erase m (q_output q) = q_output q" by (rule um_erase_None)
  with None rm show ?thesis
    by (auto simp: remove_event_def Let_def write_info_def rbind_eq_Inr split: option.splits)
next
  case (Some l)
  obtain m1 m2 where m: "q_output q = m1 @ (m, l) # m2"
    using um_split [OF Some] vq_invD(2) [OF inv] unfolding subs_ok_def by blast
  have bo: "bufs_ok H q" by (rule vq_invD(3) [OF inv])
  have "set l \<subseteq> dom (q_bufs q)" using owned_output [OF Some] bo by (simp add: bufs_ok_def) blast
  then have "distinct l" "\<forall>a \<in> set l. q_bufs q a \<noteq> None"
    using bo m by (simp_all add: bufs_ok_def owned_def subset_iff domIff)
  from delete_all [OF this] Some rm show ?thesis
    by (auto simp: remove_event_def Let_def write_info_def rbind_eq_Inr split: option.splits)
qed

lemma removed_passes:
  assumes inv: "vq_inv H q" and rm: "remove_event m q = Inr (r, q')" and m: "m \<noteq> n"
  shows "passes n q q'"
proof -
  define l where "l = (case um_find (q_output q) m of None \<Rightarrow> [] | Some l \<Rightarrow> l)"
  note q' = removed_output [OF inv rm, folded l_def]
  have bo: "bufs_ok H q" and wf: "um_wf (q_output q)" using vq_invD(2,3) [OF inv] by (simp_all add: subs_ok_def)
  have same: "buf_at q' a = buf_at q a" if "a \<notin> set l" for a
    using that q' by (simp add: buf_at_def)
  have "set l \<subseteq> set (concat (map snd (q_output q)))"
    by (cases "um_find (q_output q) m") (force simp: l_def um_find_def dest: map_of_SomeD)+
  moreover have "set (q_input q) \<inter> set (concat (map snd (q_output q))) = {}"
    using bo by (simp add: bufs_ok_def owned_def)
  ultimately have "set l \<inter> set (q_input q) = {}" by blast
  then have "map (buf_at q') (q_input q) = map (buf_at q) (q_input q)" using same by auto
  moreover have "abs_queue q' n = abs_queue q n"
  proof (cases "um_find (q_output q) n")
    case None
    with q' m show ?thesis by (simp add: abs_queue_def um_find_erase)
  next
    case (Some k)
    have "set l \<inter> set k = {}"
    proof (cases "um_find (q_output q) m")
      case found: (Some k')
      then have l: "um_find (q_output q) m = Some l" by (simp add: l_def)
      obtain m1 m2 where "q_output q = m1 @ (m, l) # m2" "um_erase m (q_output q) = m1 @ m2"
        using um_split [OF l wf] by blast
      moreover from this(2) Some m have "(n, k) \<in> set (m1 @ m2)"
        using um_find_erase [of m "q_output q" n] by (auto simp: um_find_def dest: map_of_SomeD)
      then have "set k \<subseteq> (\<Union>x \<in> set (m1 @ m2). set (snd x))" by force
      moreover from calculation(1) bo have "set l \<inter> (\<Union>x \<in> set (m1 @ m2). set (snd x)) = {}"
        by (auto simp: bufs_ok_def owned_def)
      ultimately show ?thesis by blast
    qed (simp add: l_def)
    then have "map (buf_at q') k = map (buf_at q) k" using same by auto
    with q' m Some show ?thesis by (simp add: abs_queue_def um_find_erase)
  qed
  ultimately show ?thesis using q' remove_event_fps [OF rm] by (simp add: passes_def abs_vq_def)
qed

end
