(* ===== verification/Program_Stream.thy ===== *)
theory Program_Stream
  imports Program_Inv Video_Queue_Flow
begin

text \<open>
  The way of the camera's frames to the viewers, through the whole program: \<open>ledger\<close> adds up what the
  playing stream's source was given, what waits for it, and what is due to it of the frames in the input and
  of those yet to come.  The capture loop pays in the driver's frames, and no step of any thread changes
  the account otherwise.
\<close>

text \<open>The frame an iteration of the capture loop takes from the driver, if it gets one.\<close>

definition captured_frames :: "'d v4l2 \<Rightarrow> ('p, 'd) camera \<Rightarrow> vbuf list" where
  "captured_frames k c =
     (let (r, d1) = v_select k (ci_fd c) (ci_dev c); (r2, index, n, d2) = v_dqbuf k (ci_fd c) d1;
          (now, d3) = v_time k d2 in
      if r = 0 \<or> r2 = -1 then []
      else [\<lparr>vb_meta = metadata (the (ci_cam_config c)), vb_time = now,
             vb_data = Some (case v_memory k d3 (the (ci_camera_buffers c ! unat index)) of
               None \<Rightarrow> [] | Some bytes \<Rightarrow> take (unat n) bytes), vb_size = unat n\<rparr>])"

definition captured_by :: "('p, 'h, 'd) system_env \<Rightarrow> ('p, 'h, 'pp, 'd) camera_system \<Rightarrow> 'pp action \<Rightarrow> vbuf list" where
  "captured_by e s act = (case act of Capture \<Rightarrow> captured_frames (sv_driver e) (cs_camera s) | _ \<Rightarrow> [])"

text \<open>
  The runs the account holds for: no stop request and no event program named \<open>live\<close> takes from the stream
  (\<open>event_named_live\<close> shows what happens otherwise), and its source accepts the buffers it asked for.
\<close>

definition turns_as :: "string \<Rightarrow> ('p, 'h, 'pp, 'd) camera_system \<Rightarrow> 'pp action \<Rightarrow> bool" where
  "turns_as n s act =
     (case act of
        Thread_turns a \<Rightarrow> turn_name a s = Some n
      | _ \<Rightarrow> False)"

definition source_accepts :: "'pp action \<Rightarrow> bool" where
  "source_accepts act = (case act of Live_frame nd \<Rightarrow> nd_alloc nd \<and> nd_map nd \<and> nd_push nd | _ \<Rightarrow> True)"

definition streams :: "('p, 'h, 'pp, 'd) camera_system \<Rightarrow> 'pp action \<Rightarrow> bool" where
  "streams s act \<longleftrightarrow> ''live'' \<notin> stopped_by s act \<and> \<not> turns_as ''live'' s act \<and> source_accepts act"

text \<open>A run with the frames it captured.\<close>

inductive streaming_run ::
  "('p, 'h, 'd) system_env \<Rightarrow> ('p, 'h, 'pp, 'd) camera_system \<Rightarrow> vbuf list \<Rightarrow> ('p, 'h, 'pp, 'd) camera_system \<Rightarrow> bool"
  for e s0 where
  Start: "streaming_run e s0 [] s0"
| Step: "streaming_run e s0 bs s \<Longrightarrow> streams s act \<Longrightarrow> system_step e act s = Inr (Some s') \<Longrightarrow>
    streaming_run e s0 (bs @ captured_by e s act) s'"

text \<open>The frames of a list that are due to a subscriber, when they are the next the distributor takes.\<close>

definition owed :: "thread_info \<Rightarrow> vqueue \<Rightarrow> vbuf list \<Rightarrow> vbuf list" where
  "owed i q frames = due_frames (ti_fps i) frames (frame_numbers (q_device_fps q) (q_frame_no q) (length frames))"

definition ledger :: "thread_info \<Rightarrow> ('p, 'h, 'pp, 'd) camera_system \<Rightarrow> vbuf list \<Rightarrow> 8 word list list" where
  "ledger i s bs = map snd (rw_pushed (world_of s)) @ a_line ''live'' i (abs_vq (queue_of s)) bs"

subsection \<open>Capture\<close>

lemma capture_frames:
  assumes inv: "vq_inv H q" and run: "loop_round k (c, q) = Inr (r, c', q')"
  shows "abs_vq q' = (abs_vq q)\<lparr>a_input := a_input (abs_vq q) @ captured_frames k c\<rparr>"
proof -
  obtain z d1 where s: "v_select k (ci_fd c) (ci_dev c) = (z, d1)" by fastforce
  obtain r2 index n d2 where d: "v_dqbuf k (ci_fd c) d1 = (r2, index, n, d2)" by (metis prod.collapse)
  obtain t d3 where t: "v_time k d2 = (t, d3)" by fastforce
  show ?thesis
  proof (cases "z = 0 \<or> r2 = -1")
    case True
    with run s d have "q' = q"
      by (auto simp: loop_round_def deque_v4l2_buffer_def Let_def rbind_eq_Inr split: if_splits)
    with True s d t show ?thesis by (simp add: captured_frames_def)
  next
    case False
    with run s obtain buf c2 q2 where dq: "deque_v4l2_buffer k (c\<lparr>ci_dev := d1\<rparr>) q = Inr (buf, c2, q2)"
      and r: "case buf of None \<Rightarrow> q' = q2 | Some (p, index) \<Rightarrow> q' = snd (push p q2)"
      by (auto simp: loop_round_def rbind_eq_Inr split: option.splits)
    from dq False d t obtain p i where buf: "buf = Some (p, i)"
      by (auto simp: deque_v4l2_buffer_def new_buf_def rbind_eq_Inr split: option.splits if_splits)
    from deque_frame [OF dq [unfolded buf], of r2 index n d2 t d3] d t obtain cfg a b where
      f: "ci_cam_config c = Some cfg" "ci_camera_buffers c ! unat index = Some a" "frame_ok b" "new_buf b q = (p, q2)"
        "b = \<lparr>vb_meta = metadata cfg, vb_time = t,
          vb_data = Some (case v_memory k d3 a of None \<Rightarrow> [] | Some bytes \<Rightarrow> take (unat n) bytes), vb_size = unat n\<rparr>"
      by auto
    have "captured_frames k c = [b]" using False s d t f(1,2,5) by (simp add: captured_frames_def)
    moreover have "buf_at q2 p = b" using f(4) by (auto simp: new_buf_def buf_at_def)
    moreover have "q' = snd (push p q2)" using r buf by simp
    ultimately show ?thesis using new_buf_inv(3) [OF inv f(3,4)] push_abs [of p q2] by simp
  qed
qed

subsection \<open>The source\<close>

lemma live_frame_eq:
  assumes inv: "vq_inv H (rw_queue w)" and sub: "abs_subs (rw_queue w) ''live'' = Some i" "ti_is_run i"
    and queue: "abs_queue (rw_queue w) ''live'' = Some (b # bs)" and data: "vb_data b \<noteq> None"
    and nd: "nd_is_app_src nd" "nd_alloc nd" "nd_map nd" "nd_push nd"
  shows "\<exists>w1. play_need_data (Some c) nd w =
      rbind (int_add (rw_frame_cnt w) 1) (\<lambda>n. Inr (Some (w1\<lparr>rw_frame_cnt := n\<rparr>))) \<and>
    rw_pushed w1 = rw_pushed w @ [(word_of_int (frame_duration * rw_frame_cnt w), sent_bytes b)] \<and>
    abs_vq (rw_queue w1) = (abs_vq (rw_queue w))\<lparr>a_queue := (abs_queue (rw_queue w))(''live'' \<mapsto> bs)\<rparr>"
proof -
  from take_read_free [OF inv sub queue] obtain a q1 q2 where
    p: "pop ''live'' (rw_queue w) = Inr (Some (Some a, q1))" and rd: "read_buf a q1 = Inr b" and ok: "frame_ok b"
    and d: "delete_buf a q1 = Inr q2" by blast
  let ?n = "unat (of_nat (vb_size b) :: 32 word)"
  from data obtain bytes where bytes: "vb_data b = Some bytes" by auto
  moreover have "?n \<le> vb_size b" by (simp add: unat_of_nat)
  ultimately have m: "memcpy_bytes (vb_data b) ?n = Inr (sent_bytes b)"
    using ok by (auto simp: memcpy_bytes_def sent_bytes_def frame_ok_def)
  define w1 where "w1 = (snd (gst_new_ref w))\<lparr>rw_queue := q2, rw_refs := (rw_refs (snd (gst_new_ref w)))(fst (gst_new_ref w) := None),
    rw_pushed := rw_pushed w @ [(word_of_int (frame_duration * rw_frame_cnt w), sent_bytes b)]\<rparr>"
  have "play_need_data (Some c) nd w = rbind (int_add (rw_frame_cnt w) 1) (\<lambda>n. Inr (Some (w1\<lparr>rw_frame_cnt := n\<rparr>)))"
    using p rd bytes nd m d
    by (cases "int_add (rw_frame_cnt w) 1") (simp_all add: play_need_data_def play_popped_def push_frame_def gst_new_ref_def Let_def w1_def)
  with abs_vq_take [OF inv p d] queue show ?thesis by (intro exI [of _ w1]) (simp add: w1_def)
qed

lemma live_frame_fed:
  assumes inv: "vq_inv H (rw_queue w)" and sub: "abs_subs (rw_queue w) ''live'' = Some i" "ti_is_run i"
    and queue: "abs_queue (rw_queue w) ''live'' = Some q" and data: "\<forall>b \<in> set q. vb_data b \<noteq> None"
    and nd: "nd_alloc nd" "nd_map nd" "nd_push nd"
    and run: "play_need_data cfg nd w = Inr (Some w')"
  shows "w' = w \<or> (\<exists>b bs. q = b # bs \<and>
    fed w' = (rw_pushed w @ [(word_of_int (frame_duration * rw_frame_cnt w), sent_bytes b)], rw_frame_cnt w + 1) \<and>
    abs_vq (rw_queue w') = (abs_vq (rw_queue w))\<lparr>a_queue := (abs_queue (rw_queue w))(''live'' \<mapsto> bs)\<rparr>)"
proof -
  from run obtain c where cfg: "cfg = Some c" by (auto simp: play_need_data_def rbind_eq_Inr deref_def split: option.splits)
  consider "\<not> nd_is_app_src nd" | "nd_is_app_src nd" "q = []" | b bs where "nd_is_app_src nd" "q = b # bs"
    by (cases q) auto
  then show ?thesis
  proof cases
    case 1
    with run cfg show ?thesis by (simp add: play_need_data_def)
  next
    case 2
    from sub obtain ti where ti: "um_find (q_thread_info (rw_queue w)) ''live'' = Some ti" "q_infos (rw_queue w) ti = Some i"
      by (auto simp: abs_subs_def split: option.splits)
    from pop_cases [OF inv ti] 2 queue sub(2) have "pop ''live'' (rw_queue w) = Inr None"
      by (auto simp: abs_queue_def)
    with run cfg 2 show ?thesis by (simp add: play_need_data_def play_popped_def)
  next
    case (3 b bs)
    with data have "vb_data b \<noteq> None" by simp
    from live_frame_eq [OF inv sub queue [unfolded 3(2)] this 3(1) nd, of c] obtain w1 where
      eq: "play_need_data (Some c) nd w = rbind (int_add (rw_frame_cnt w) 1) (\<lambda>n. Inr (Some (w1\<lparr>rw_frame_cnt := n\<rparr>)))"
      and w1: "rw_pushed w1 = rw_pushed w @ [(word_of_int (frame_duration * rw_frame_cnt w), sent_bytes b)]"
        "abs_vq (rw_queue w1) = (abs_vq (rw_queue w))\<lparr>a_queue := (abs_queue (rw_queue w))(''live'' \<mapsto> bs)\<rparr>" by blast
    from run [unfolded cfg eq] have "w' = w1\<lparr>rw_frame_cnt := rw_frame_cnt w + 1\<rparr>"
      by (auto simp: rbind_eq_Inr int_add_def chk32_eq_Inr)
    with w1 3(2) show ?thesis by (simp add: fed_def)
  qed
qed

text \<open>The same for a callback that waits and is woken.\<close>

lemma woken_frame_fed:
  assumes inv: "rtsp_inv H w" and sub: "abs_subs (rw_queue w) ''live'' = Some i" "ti_is_run i"
    and queue: "abs_queue (rw_queue w) ''live'' = Some q" and data: "\<forall>b \<in> set q. vb_data b \<noteq> None"
    and nd: "nd_alloc nd" "nd_map nd" "nd_push nd" and run: "play_resume nd w = Inr (Some w')"
  shows "w' = w \<or> (\<exists>b bs. q = b # bs \<and>
    fed w' = (rw_pushed w @ [(word_of_int (frame_duration * rw_frame_cnt w), sent_bytes b)], rw_frame_cnt w + 1) \<and>
    abs_vq (rw_queue w') = (abs_vq (rw_queue w))\<lparr>a_queue := (abs_queue (rw_queue w))(''live'' \<mapsto> bs)\<rparr>)"
proof -
  have vq: "vq_inv H (rw_queue w)" using inv by (simp add: rtsp_inv_def)
  obtain c :: "unit video_config" where "play_resume nd w =
      (if um_find (q_thread_info (rw_queue w)) ''live'' = None then Inl EndIterator
       else play_need_data (Some c) (nd\<lparr>nd_is_app_src := True\<rparr>) w)"
    using play_resume_eq [OF inv] by blast
  with run have "play_need_data (Some c) (nd\<lparr>nd_is_app_src := True\<rparr>) w = Inr (Some w')" by (simp split: if_splits)
  from live_frame_fed [OF vq sub queue data _ _ _ this] nd show ?thesis by simp
qed

lemma woken_frame_eq:
  assumes inv: "rtsp_inv H w" and sub: "abs_subs (rw_queue w) ''live'' = Some i" and nd: "nd_is_app_src nd"
  shows "play_resume nd w = play_need_data (Some c) nd w"
proof -
  have "nd\<lparr>nd_is_app_src := True\<rparr> = nd" using nd by simp
  moreover have "um_find (q_thread_info (rw_queue w)) ''live'' \<noteq> None" using sub by (auto simp: abs_subs_def split: option.splits)
  ultimately show ?thesis using play_resume_eq [OF inv, of nd c] by auto
qed

subsection \<open>The other threads\<close>

definition beside :: "('p, 'h, 'pp, 'd) camera_system \<Rightarrow> ('p, 'h, 'pp, 'd) camera_system \<Rightarrow> bool" where
  "beside s s' \<longleftrightarrow> passes ''live'' (queue_of s) (queue_of s') \<and> fed (world_of s') = fed (world_of s)"

lemma besideI:
  "cs_rtsp s' = (cs_rtsp s)\<lparr>sy_world := (world_of s)\<lparr>rw_fs := fs, rw_queue := q\<rparr>\<rparr> \<Longrightarrow> passes ''live'' (queue_of s) q \<Longrightarrow>
   beside s s'"
  by (simp add: beside_def queue_of_def world_of_def del: system_simps)

lemma beside_queue:
  "cs_rtsp s' = cs_rtsp (put_queue q s) \<Longrightarrow> passes ''live'' (queue_of s) q \<Longrightarrow> beside s s'"
  by (rule besideI [where fs = "rw_fs (world_of s)"]) (simp_all add: put_queue_def)

lemma beside_same: "cs_rtsp s' = cs_rtsp s \<Longrightarrow> beside s s'"
  by (simp add: beside_def queue_of_def world_of_def passes_refl del: system_simps)

lemma beside_quiet:
  assumes "quiet_step e s s'" and "described (world_of s)"
  shows "beside s s'"
  using assms
  by (auto simp: quiet_step_def beside_def undisturbed_def queue_of_def world_of_def passes_refl simp del: system_simps)

lemma control_effect_passes:
  assumes c: "control_effect X mk v v'" and q: "vq_inv {} (w_queue v)" and n: "n \<notin> X"
  shows "passes n (w_queue v) (w_queue v')"
  using c unfolding control_effect_def
proof (elim disjE conjE exE bexE)
  fix name assume x: "name \<in> X" and s: "stop_event name (w_events v, w_queue v) = Inr (0, w_events v', w_queue v')"
  from s obtain r where "remove_event name (w_queue v) = Inr (r, w_queue v')"
    by (auto simp: stop_event_def rbind_eq_Inr split: option.splits)
  moreover from x n have "name \<noteq> n" by auto
  ultimately show ?thesis by (rule removed_passes [OF q])
qed (simp_all add: passes_refl)

lemma event_enter_passes:
  assumes inv: "vq_inv H q" and run: "event_enter p q = Inr q'"
    and n: "abs_queue q n \<noteq> None"
  shows "passes n q q'"
proof -
  obtain ti q1 where nw: "new_info \<lparr>ti_is_run = ep_enable p, ti_fps = ep_fps p\<rparr> q = (ti, q1)" by fastforce
  with run obtain r where "insert_event (ep_event_name p) (Some ti) q1 = Inr (r, q')"
    by (auto simp: event_enter_def rbind_eq_Inr)
  from subscribed_passes [OF inv nw this n] show ?thesis by simp
qed

lemma request_data_beside:
  assumes inv: "composed_inv N e s" and run: "request_data e mhd k data s = Inr (Some s')"
    and stop: "''live'' \<notin> stopped_by s (Request_data mhd k data)"
  shows "beside s s'"
proof -
  from run obtain r ret con n v where r: "cs_requests s k = Some r"
    and h: "libmicrohttpd_handler mhd (sv_gst e) (mn_processor e (mn_cwd e)) (mn_cwd e) (hr_headers r) (hr_url r)
      (hr_method r) data (hr_con r) (http_view s) = Inr (Some (ret, con, n, v))"
    and s': "s' = (put_http v s)\<lparr>cs_requests := (cs_requests s)(k \<mapsto> r\<lparr>hr_con := con\<rparr>)\<rparr>"
    by (auto simp: request_data_def sbind_eq_Some split: option.splits)
  note i = composed_invD [OF inv]
  from i(3) r have t: "con_typed (hr_url r) (hr_method r) (hr_con r)" by (simp add: requests_typed_def)
  from libmicrohttpd_handler_effect [OF h t] have
    "control_effect (stopped_names (hr_url r) (hr_method r) data (hr_con r)) (mn_processor e (mn_cwd e)) (http_view s) v"
    by (simp add: handler_effect_def)
  from control_effect_passes [OF this] i(6) stop r have "passes ''live'' (queue_of s) (w_queue v)"
    by (simp add: stopped_by_def)
  then show ?thesis by (intro besideI [where fs = "w_fs v"]) (simp_all add: s')
qed

lemma step_beside:
  assumes inv: "composed_inv N e s" and live: "described (world_of s)" "abs_queue (queue_of s) ''live'' \<noteq> None"
    and adm: "streams s act" and run: "system_step e act s = Inr (Some s')"
  shows "act = Capture \<or> (\<exists>t. act = Distribute t) \<or> (\<exists>nd. act = Live_frame nd) \<or> beside s s'"
proof (cases act)
  case (Thread_enters a)
  with run obtain p q where p: "h_processors (cs_events s) a = Some p" and q: "event_enter p (queue_of s) = Inr q"
    and s': "s' = (put_queue q s)\<lparr>cs_phase := (cs_phase s)(a := Looping)\<rparr>"
    by (auto simp: thread_enters_def rbind_eq_Inr split: if_splits option.splits)
  from event_enter_passes [OF composed_invD(6) [OF inv] q live(2)] have "beside s s'"
    by (intro beside_queue) (simp_all add: s')
  then show ?thesis by simp
next
  case (Thread_turns a)
  with run have "thread_turns e a s = Inr (Some s')" by simp
  from thread_turns_consumed [OF composed_invD(6) [OF inv] this] obtain name q net ph where n: "turn_name a s = Some name"
    and c: "consumed name (queue_of s) q" and s': "s' = (put_queue q s)\<lparr>cs_net := net, cs_phase := ph\<rparr>" by blast
  from adm Thread_turns n have "name \<noteq> ''live''" by (auto simp: streams_def turns_as_def)
  from consumed_passes [OF composed_invD(6) [OF inv] c this] have "beside s s'"
    by (rule beside_queue [rotated]) (simp add: s')
  then show ?thesis by simp
next
  case (Send_clip i)
  with run have "beside s s'" by (intro beside_same) (auto simp: clip_step_def Let_def split: if_splits prod.splits)
  then show ?thesis by simp
next
  case (Clean_up now)
  with run obtain vh fs where s': "s' = (put_world ((world_of s)\<lparr>rw_fs := fs\<rparr>) s)\<lparr>cs_video := vh\<rparr>"
    by (auto simp: clean_step_def rbind_eq_Inr sbind_eq_Some)
  have "beside s s'" by (rule besideI [where fs = fs and q = "queue_of s"]) (simp_all add: s' queue_of_def passes_refl)
  then show ?thesis by simp
next
  case (Request_arrives k u m hs)
  with run have "beside s s'" by (intro beside_same) (auto simp: request_arrives_def split: if_splits)
  then show ?thesis by simp
next
  case (Request_data mhd k data)
  with run adm request_data_beside [OF inv] show ?thesis by (simp add: streams_def)
next
  case (Request_completes mhd os k)
  with run obtain r ls v where "cs_requests s k = Some r"
    and h: "post_request_complete mhd os (mn_cwd e) (hr_con r) (http_view s) = Inr (ls, v)"
    and s': "s' = (put_http v s)\<lparr>cs_requests := (cs_requests s)(k := None), cs_leaks := cs_leaks s @ ls\<rparr>"
    by (auto simp: request_completes_def rbind_eq_Inr split: option.splits)
  have "beside s s'" using post_request_complete_only [OF h]
    by (intro besideI [where fs = "w_fs v" and q = "queue_of s"]) (simp_all add: s' passes_refl)
  then show ?thesis by simp
next
  case (Session_opens conn k uuid)
  with session_step_quiet [OF inv _ run] beside_quiet live(1) show ?thesis by blast
next
  case (Session_reads conn k junk req)
  with session_step_quiet [OF inv _ run] beside_quiet live(1) show ?thesis by blast
next
  case (Session_ends k)
  with session_step_quiet [OF inv _ run] beside_quiet live(1) show ?thesis by blast
next
  case (Rtp_packet k sample)
  with packet_step_quiet [OF _ run] beside_quiet live(1) show ?thesis by blast
next
  case (Rtcp_packet k sample)
  with packet_step_quiet [OF _ run] beside_quiet live(1) show ?thesis by blast
qed simp_all



subsection \<open>The account\<close>

text \<open>What the steps of a run keep, and how the timestamps of the buffers pushed follow each other.\<close>

definition feeding :: "int \<Rightarrow> ('p, 'h, 'd) system_env \<Rightarrow> thread_info \<Rightarrow> ('p, 'h, 'pp, 'd) camera_system \<Rightarrow> bool" where
  "feeding N e i s \<longleftrightarrow> composed_inv N e s \<and> described (world_of s) \<and>
     abs_subs (queue_of s) ''live'' = Some i \<and> ti_is_run i \<and>
     (\<exists>q. abs_queue (queue_of s) ''live'' = Some q \<and> (\<forall>b \<in> set q. vb_data b \<noteq> None))"

definition stamped :: "rtsp_world \<Rightarrow> rtsp_world \<Rightarrow> bool" where
  "stamped w w' \<longleftrightarrow> rw_frame_cnt w \<le> rw_frame_cnt w' \<and> map fst (rw_pushed w') = map fst (rw_pushed w) @
     map (\<lambda>k. word_of_int (frame_duration * k)) [rw_frame_cnt w .. rw_frame_cnt w' - 1]"

lemma stamped_trans:
  assumes "stamped w w1" and "stamped w1 w2"
  shows "stamped w w2"
proof -
  have "[rw_frame_cnt w .. rw_frame_cnt w2 - 1] =
      [rw_frame_cnt w .. rw_frame_cnt w1 - 1] @ [rw_frame_cnt w1 .. rw_frame_cnt w2 - 1]"
    using assms by (cases "rw_frame_cnt w1 = rw_frame_cnt w2") (simp_all add: stamped_def upto_split1 [of "rw_frame_cnt w" "rw_frame_cnt w1"])
  with assms show ?thesis by (simp add: stamped_def)
qed

lemma fed_same: "fed w' = fed w \<Longrightarrow> rw_pushed w' = rw_pushed w \<and> stamped w w'"
  by (simp add: fed_def stamped_def)

lemma abs_vq_sel: "a_subs (abs_vq q) = abs_subs q" "a_queue (abs_vq q) = abs_queue q"
  by (simp_all add: abs_vq_def)

lemma feeding_step:
  assumes f: "feeding N e i s" and adm: "streams s act" and run: "system_step e act s = Inr (Some s')"
  shows "feeding N e i s' \<and> stamped (world_of s) (world_of s') \<and>
    (\<forall>bs. ledger i s' bs = ledger i s (captured_by e s act @ bs))"
proof -
  from f obtain q where inv: "composed_inv N e s" and live: "described (world_of s)"
    and sub: "abs_subs (queue_of s) ''live'' = Some i" "ti_is_run i"
    and q: "abs_queue (queue_of s) ''live'' = Some q" and data: "\<forall>b \<in> set q. vb_data b \<noteq> None"
    by (auto simp: feeding_def)
  note vq = composed_invD(6) [OF inv]
  have keeps: "composed_inv N e s'" "described (world_of s')" "abs_subs (queue_of s') ''live'' = Some i"
    using composed_step [OF inv run] adm live sub by (auto simp: step_keeps_def queue_keeps_def streams_def)
  have feeds: "feeding N e i s'" if "abs_queue (queue_of s') ''live'' = Some l" "\<forall>b \<in> set l. vb_data b \<noteq> None" for l
    using keeps sub(2) that by (simp add: feeding_def)
  from q have "abs_queue (queue_of s) ''live'' \<noteq> None" by simp
  from step_beside [OF inv live this adm run] consider (capture) "act = Capture" | (distribute) t where "act = Distribute t"
    | (push) nd where "act = Live_frame nd" | (other) "act \<noteq> Capture" "beside s s'" by blast
  then show ?thesis
  proof cases
    case capture
    with run obtain r c q' where lr: "loop_round (sv_driver e) (cs_camera s, queue_of s) = Inr (r, c, q')"
      and s': "s' = (put_queue q' s)\<lparr>cs_camera := c, cs_capturing := (r = None)\<rparr>"
      by (auto simp: capture_step_def rbind_eq_Inr split: if_splits)
    have w: "queue_of s' = q'" "fed (world_of s') = fed (world_of s)"
      by (simp_all add: s' queue_of_def world_of_def put_queue_def put_world_def del: system_simps)
    note c = capture_frames [OF vq lr]
    then have "abs_queue q' = abs_queue (queue_of s)" by (metis abs_vq_sel(2) aqueue.select_convs(5) aqueue.update_convs(2) aqueue.surjective)
    with q data feeds w(1) have "feeding N e i s'" by simp
    moreover have "a_line ''live'' i (abs_vq q') bs =
        a_line ''live'' i (abs_vq (queue_of s)) (captured_frames (sv_driver e) (cs_camera s) @ bs)" for bs
      by (simp add: c a_line_def)
    ultimately show ?thesis using fed_same [OF w(2)] by (simp add: ledger_def captured_by_def capture w(1))
  next
    case distribute
    with run obtain q' where d: "distribute_round t (queue_of s) = Inr q'" and s': "s' = put_queue q' s"
      by (auto simp: distribute_step_def rbind_eq_Inr)
    have w: "queue_of s' = q'" "fed (world_of s') = fed (world_of s)" by (simp_all add: s')
    have sim: "abs_vq q' = abs_vq (queue_of s) \<or> abs_vq q' = a_distribute t (abs_vq (queue_of s))"
      using distribute_round_sim [OF vq _ distribute_round_served [OF d vq], of t] d
      by (cases "q_enable (queue_of s)") (auto simp: distribute_round_def)
    then have "\<exists>l. abs_queue q' ''live'' = Some l \<and> (\<forall>b \<in> set l. vb_data b \<noteq> None)"
      using q data unfolding abs_vq_sel(2) [symmetric]
      by (auto simp: a_distribute_def Let_def frame_copy_def split: list.split)
    with feeds w(1) have "feeding N e i s'" by blast
    moreover have "a_line ''live'' i (abs_vq q') bs = a_line ''live'' i (abs_vq (queue_of s)) bs" for bs
      using sim a_line_distribute [of "abs_vq (queue_of s)" "''live''" i t bs] sub q by (auto simp: abs_vq_sel)
    ultimately show ?thesis using fed_same [OF w(2)] by (simp add: ledger_def captured_by_def distribute w(1))
  next
    case push
    with run have ls: "live_step nd s = Inr (Some s')" by simp
    from adm push have nd: "nd_alloc nd" "nd_map nd" "nd_push nd" by (simp_all add: streams_def source_accepts_def)
    let ?w = "world_of s"
    have sub': "abs_subs (rw_queue ?w) ''live'' = Some i" and q': "abs_queue (rw_queue ?w) ''live'' = Some q"
      and vq': "vq_inv {} (rw_queue ?w)" using sub(1) q vq by (simp_all add: queue_of_def)
    have "\<exists>w'. world_of s' = w' \<and> (w' = ?w \<or> (\<exists>b bs. q = b # bs \<and>
        fed w' = (rw_pushed ?w @ [(word_of_int (frame_duration * rw_frame_cnt ?w), sent_bytes b)], rw_frame_cnt ?w + 1) \<and>
        abs_vq (rw_queue w') = (abs_vq (rw_queue ?w))\<lparr>a_queue := (abs_queue (rw_queue ?w))(''live'' \<mapsto> bs)\<rparr>))"
      using ls
    proof (cases rule: live_step_cases)
      case (fed w')
      from live_frame_fed [OF vq' sub' sub(2) q' data nd fed(2)] show ?thesis using fed(1) by simp
    next
      case (woken w')
      from woken_frame_fed [OF composed_invD(5) [OF inv] sub' sub(2) q' data nd woken(2)] show ?thesis using woken(1) by simp
    qed simp
    then obtain w' where ww: "world_of s' = w'" and c: "w' = ?w \<or> (\<exists>b bs. q = b # bs \<and>
        fed w' = (rw_pushed ?w @ [(word_of_int (frame_duration * rw_frame_cnt ?w), sent_bytes b)], rw_frame_cnt ?w + 1) \<and>
        abs_vq (rw_queue w') = (abs_vq (rw_queue ?w))\<lparr>a_queue := (abs_queue (rw_queue ?w))(''live'' \<mapsto> bs)\<rparr>)" by blast
    have w: "world_of s' = w'" "queue_of s' = rw_queue w'" "queue_of s = rw_queue ?w"
      using ww by (simp_all add: queue_of_def)
    from c consider "w' = world_of s" | b bs where "q = b # bs"
      "fed w' = (rw_pushed (world_of s) @ [(word_of_int (frame_duration * rw_frame_cnt (world_of s)), sent_bytes b)],
        rw_frame_cnt (world_of s) + 1)"
      "abs_vq (rw_queue w') = (abs_vq (queue_of s))\<lparr>a_queue := (abs_queue (queue_of s))(''live'' \<mapsto> bs)\<rparr>"
      unfolding w(3) by blast
    then show ?thesis
    proof cases
      case 1
      with feeds q data w fed_same [of w' "world_of s"] show ?thesis by (simp add: ledger_def captured_by_def push)
    next
      case (2 b bs)
      have "abs_queue (rw_queue w') ''live'' = Some bs" using 2(3) by (simp flip: abs_vq_sel(2))
      with feeds data 2(1) w(2) have "feeding N e i s'" by simp
      moreover have "stamped (world_of s) w'" using 2(2) by (simp add: fed_def stamped_def)
      moreover have "a_line ''live'' i (abs_vq (queue_of s)) cs = sent_bytes b # a_line ''live'' i (abs_vq (rw_queue w')) cs" for cs
        using a_line_take [of "abs_vq (queue_of s)" "''live''" b bs] q 2(1,3) by (simp add: abs_vq_sel)
      ultimately show ?thesis using 2(2) w by (simp add: ledger_def captured_by_def push fed_def)
    qed
  next
    case other
    then have p: "passes ''live'' (queue_of s) (queue_of s')" and fd: "fed (world_of s') = fed (world_of s)"
      by (simp_all add: beside_def)
    from p q have "abs_queue (queue_of s') ''live'' = Some q" by (simp add: passes_def abs_vq_sel)
    with feeds data have "feeding N e i s'" by blast
    moreover have "captured_by e s act = []" using other(1) by (simp add: captured_by_def split: action.split)
    ultimately show ?thesis using fed_same [OF fd] passes_line [OF p] by (simp add: ledger_def)
  qed
qed

lemma feeding_run:
  assumes "streaming_run e s bs s'" and f: "feeding N e i s"
  shows "feeding N e i s' \<and> stamped (world_of s) (world_of s') \<and> (\<forall>cs. ledger i s' cs = ledger i s (bs @ cs))"
  using assms(1)
proof (induction rule: streaming_run.induct)
  case Start
  with f show ?case by (simp add: stamped_def)
next
  case (Step bs s1 act s2)
  then show ?case using feeding_step [of N e i s1 act s2] stamped_trans by auto
qed

text \<open>A buffer asked for while a frame waits is pushed, until the counter of frames is full.\<close>

lemma live_frame_step:
  assumes f: "feeding N e i s" and q: "abs_queue (queue_of s) ''live'' = Some (b # bs)" and data: "vb_data b \<noteq> None"
    and nd: "nd_is_app_src nd" "nd_alloc nd" "nd_map nd" "nd_push nd" and cfg: "cs_config s \<noteq> None"
    and cnt: "in_int32 (rw_frame_cnt (world_of s) + 1)"
  shows "\<exists>s'. system_step e (Live_frame nd) s = Inr (Some s') \<and> streams s (Live_frame nd) \<and> cs_config s' = cs_config s \<and>
    rw_frame_cnt (world_of s') = rw_frame_cnt (world_of s) + 1 \<and>
    abs_queue (queue_of s') ''live'' = Some bs \<and> a_input (abs_vq (queue_of s')) = a_input (abs_vq (queue_of s))"
proof -
  from f have vq: "vq_inv {} (rw_queue (world_of s))" and sub: "abs_subs (rw_queue (world_of s)) ''live'' = Some i" "ti_is_run i"
    using composed_invD(6) by (auto simp: feeding_def queue_of_def)
  from cfg obtain c where c: "cs_config s = Some c" by blast
  from f have "rtsp_inv {} (world_of s)" using composed_invD(5) by (auto simp: feeding_def)
  from woken_frame_eq [OF this sub(1) nd(1), of c] have step: "live_step nd s =
      rbind (play_need_data (cs_config s) nd (world_of s)) (\<lambda>r. Inr (Some (case r of
        None \<Rightarrow> s\<lparr>cs_live_waiting := True\<rparr> | Some w \<Rightarrow> (put_world w s)\<lparr>cs_live_waiting := False\<rparr>)))"
    by (simp add: live_step_def c)
  from live_frame_eq [OF vq sub q [unfolded queue_of_def] data nd, of c] cnt obtain w' where
    w': "play_need_data (cs_config s) nd (world_of s) = Inr (Some w')" "rw_frame_cnt w' = rw_frame_cnt (world_of s) + 1"
      "abs_vq (rw_queue w') = (abs_vq (queue_of s))\<lparr>a_queue := (abs_queue (queue_of s))(''live'' \<mapsto> bs)\<rparr>"
    by (auto simp: int_add_def chk32_def c queue_of_def)
  have "streams s (Live_frame nd)" using nd by (simp add: streams_def stopped_by_def turns_as_def source_accepts_def)
  moreover have "abs_queue (rw_queue w') ''live'' = Some bs" "a_input (abs_vq (rw_queue w')) = a_input (abs_vq (queue_of s))"
    using w'(3) by (simp_all flip: abs_vq_sel(2))
  ultimately show ?thesis using w'(1,2) by (simp add: step)
qed

end
