(* ===== verification/Program_Props.thy ===== *)
theory Program_Props
  imports Program_Progress Program_Stream Main_Props Video_Props
begin

text \<open>
  Properties of the composed program: what holds in every state its threads reach, what can stop the
  process, what keeps the live stream fed, and that the camera's frames reach its viewers.
\<close>

subsection \<open>A concrete program for the witnesses\<close>

text \<open>A camera with one event program, called \<open>live\<close> like the stream.\<close>

type_synonym demo_state = "(unit, unit, unit, nat) camera_system"

definition demo_processors :: "path \<Rightarrow> fs \<Rightarrow> string \<Rightarrow> unit event_processor" where
  "demo_processors cwd fs name = demo_processor\<lparr>ep_event_name := name\<rparr>"

definition demo_lib :: "unit ptree_lib" where
  "demo_lib =
     \<lparr>pt_empty = (), pt_read_json = (\<lambda>_. Inl Ptree_bad_path), pt_get_child = (\<lambda>_ _. Inl Ptree_bad_path),
      pt_get_string = (\<lambda>_ _. Inl Ptree_bad_path), pt_get_int = (\<lambda>_ _. Inl Ptree_bad_path), pt_children = (\<lambda>_. [])\<rparr>"

definition demo_system_env :: "(unit, unit, nat) system_env" where
  "demo_system_env =
     \<lparr>mn_lib = demo_lib, mn_pixfmts = \<lparr>PIX_FMT_RGB24 = 1, PIX_FMT_YUYV = 2, PIX_FMT_MJPEG = 3\<rparr>,
      mn_daemon = (\<lambda>_. True), mn_net = demo_env demo_answer, mn_cwd = [], mn_can_open = (\<lambda>_. True), mn_uuid = ''id'',
      mn_processor = demo_processors, mn_rtsp = demo_rtsp_env,
      mn_acceptor = \<lparr>ac_open = True, ac_reuse = True, ac_bind = True, ac_listen = True\<rparr>, mn_steps = [],
      sv_driver = demo_driver, sv_gst = demo_gst\<rparr>"

definition demo_program :: "(unit, unit) program" where
  "demo_program =
     \<lparr>pg_config = \<lparr>pc_http = Some demo_http_config, pc_video = Some demo_rtsp_config,
        pc_camera = ci_cam_config (demo_camera [])\<rparr>,
      pg_boot = \<lparr>bt_fs = [([''system''], Dir), ([''system'', ''uuid''], File ''id''), ([''event''], Dir),
          ([''event'', ''live''], Dir), ([''video''], Dir)],
        bt_handlers = Some (demo_handler, demo_http), bt_net = []\<rparr>,
      pg_http = None, pg_events = event_handler_ctor, pg_event_init = \<lparr>ei_event_names = []\<rparr>,
      pg_rtsp = demo_rtsp_world None\<rparr>"

lemma demo_live_start:
  "\<exists>w. live_start (demo_rtsp_env\<lparr>re_ip_addr := ip\<rparr>) ac (Some demo_rtsp_config) [] ((demo_rtsp_world None)\<lparr>rw_fs := fs\<rparr>) =
     Inr (Some (rtsp_listener_ctor ac [(''/live'', ''/dev/video'')], w))"
proof -
  let ?w = "(demo_rtsp_world None)\<lparr>rw_fs := fs\<rparr>" and ?env = "demo_rtsp_env\<lparr>re_ip_addr := ip\<rparr>"
  have "rtsp_inv {} ?w" using demo_rtsp_world_inv [of None] by (simp add: rtsp_inv_def refs_ok_def)
  moreover have "rw_stream ?w = None" "length (video_frame_rate demo_rtsp_config) < 2 ^ 64" "re_make ?env ''pipeline''"
    "\<forall>es. re_link_many ?env es" "bus_loop (re_bus ?env) \<noteq> None" "\<forall>st \<in> set []. step_ok st"
    "- (2 ^ 31) \<le> rw_cnt ?w" "rw_cnt ?w + int (length ([] :: stream_step list)) < 2 ^ 31"
    by (simp_all add: demo_rtsp_world_def demo_rtsp_config_def video_frame_rate_def demo_rtsp_env_def)
  moreover have "30 \<le> q_device_fps (rw_queue ?w)" "served (rw_queue ?w)"
    using demo_rtsp_world_served [of None] by simp_all
  ultimately show ?thesis using live_start_serves [of "{}" ?w demo_rtsp_config ?env "[]" ac] by blast
qed

lemma demo_config:
  "get_http_config lib (pg_config demo_program) = (pg_config demo_program, Inr (Some demo_http_config))"
  "get_video_config lib (pg_config demo_program) = (pg_config demo_program, Inr (Some demo_rtsp_config))"
  "get_camera_config lib pf (pg_config demo_program) = (pg_config demo_program, Inr (ci_cam_config (demo_camera [])))"
  by (simp_all add: get_http_config_def get_video_config_def get_camera_config_def lazy_section_def demo_program_def
      demo_camera_def)

lemma demo_resolve_dirs:
  "resolve [] ''system'' = [''system'']" "resolve [] ''system/uuid'' = [''system'', ''uuid'']" "resolve [] ''event'' = [''event'']"
  by (simp_all add: resolve_def)

abbreviation demo_main :: "string \<Rightarrow> (unit, unit) main_env" where
  "demo_main ip \<equiv> main_env.truncate demo_system_env\<lparr>mn_rtsp := demo_rtsp_env\<lparr>re_ip_addr := ip\<rparr>\<rparr>"

lemma demo_http_ready:
  "\<exists>hi. main_http (demo_main ip) demo_program = Inr (demo_program\<lparr>pg_http := hi\<rparr>)"
  by (simp add: main_http_def demo_config http_init_def init_uuid_def demo_system_env_def main_env.truncate_def
      demo_resolve_dirs)
    (simp add: demo_program_def is_directory_def fs_lookup_def directory_iterator_def children_def has_uuid_file_def
      Let_def http_initializer_ctor_def)

lemma demo_event_ready:
  "\<exists>ei. main_event (demo_main ip) (demo_program\<lparr>pg_http := hi\<rparr>) =
     Inr (demo_program\<lparr>pg_http := hi, pg_event_init := ei,
       pg_events := snd (start_event (demo_processors [] (bt_fs (pg_boot demo_program))) ''live'' event_handler_ctor)\<rparr>)"
proof -
  have "directory_iterator (bt_fs (pg_boot demo_program)) [''event''] = Inr [(''live'', Dir)]"
    by (simp add: demo_program_def directory_iterator_def is_directory_def fs_lookup_def children_def)
  then show ?thesis
    by (simp add: main_event_def event_initializer_init_def demo_system_env_def main_env.truncate_def demo_resolve_dirs
        event_initializer_start_def event_processor_ctor_def http_instance_def start_event_def)
      (simp add: demo_program_def)
qed

lemma demo_video_ready:
  "\<exists>l w vi fs. main_video (demo_main ip) (demo_program\<lparr>pg_http := hi, pg_event_init := ei, pg_events := h\<rparr>) =
     Inr (Some (Serving l w, vi, demo_program\<lparr>pg_http := hi, pg_event_init := ei, pg_events := h,
       pg_rtsp := (demo_rtsp_world None)\<lparr>rw_fs := fs\<rparr>\<rparr>))"
proof -
  have "pg_rtsp demo_program = demo_rtsp_world None" "bt_handlers (pg_boot demo_program) = Some (demo_handler, demo_http)"
    by (simp_all add: demo_program_def)
  with demo_live_start [of ip "\<lparr>ac_open = True, ac_reuse = True, ac_bind = True, ac_listen = True\<rparr>" "bt_fs (pg_boot demo_program)"]
  show ?thesis
    by (auto simp: main_video_def demo_config video_initializer_ctor_def video_initializer_init_def video_start_def
        demo_system_env_def main_env.truncate_def)
qed

lemma demo_camera_thread:
  "\<exists>x. camera_thread lib pf demo_driver 0 (pg_config demo_program) (Some q) = Inr x"
proof -
  let ?c = "demo_camera (replicate N_CAM_BUF None)"
  have "ci_cam_config ?c \<noteq> None" by (simp add: demo_camera_def)
  from camera_init_returns [OF this, of demo_driver] show ?thesis
    by (auto simp: camera_thread_def camera_ctor_def demo_config get_instance_def camera_start_def demo_camera_def
        Let_def split: prod.split)
qed

lemma demo_boots:
  "\<exists>s0 :: demo_state. boot_system demo_system_env 0 [''cam'', ip] demo_program = Inr (Some s0) \<and> cs_http s0 = demo_http \<and> cs_requests s0 = (\<lambda>_. None) \<and>
     h_processors (cs_events s0) 0 = Some (demo_processor\<lparr>ep_event_name := ''live''\<rparr>)"
proof -
  let ?h = "snd (start_event (demo_processors [] (bt_fs (pg_boot demo_program))) ''live'' event_handler_ctor)"
  have "main_config lib pf (pg_config demo_program) = Inr (pg_config demo_program)" for lib pf
    by (simp add: main_config_def demo_config demo_camera_def)
  moreover obtain hi ei l w vi fs where
    "main_http (demo_main ip) demo_program = Inr (demo_program\<lparr>pg_http := hi\<rparr>)"
    "main_event (demo_main ip) (demo_program\<lparr>pg_http := hi\<rparr>) = Inr (demo_program\<lparr>pg_http := hi, pg_event_init := ei, pg_events := ?h\<rparr>)"
    "main_video (demo_main ip) (demo_program\<lparr>pg_http := hi, pg_event_init := ei, pg_events := ?h\<rparr>) =
       Inr (Some (Serving l w, vi, demo_program\<lparr>pg_http := hi, pg_event_init := ei, pg_events := ?h,
         pg_rtsp := (demo_rtsp_world None)\<lparr>rw_fs := fs\<rparr>\<rparr>))"
    using demo_http_ready demo_event_ready demo_video_ready by metis
  ultimately have m: "main_program (main_env.truncate demo_system_env) [''cam'', ip] demo_program =
      Inr (Some (Serving l w, demo_program\<lparr>pg_http := hi, pg_event_init := ei, pg_events := ?h,
         pg_rtsp := (demo_rtsp_world None)\<lparr>rw_fs := fs\<rparr>\<rparr>))"
    by (simp add: main_program_def demo_system_env_def main_env.truncate_def)
  obtain x where "camera_thread demo_lib (mn_pixfmts demo_system_env) demo_driver 0 (pg_config demo_program) (Some (rw_queue w)) = Inr x"
    using demo_camera_thread by blast
  with camera_thread_queue [OF this] m show ?thesis
    by (cases x) (simp add: boot_system_def serving_system_def demo_config http_handlers_def demo_system_env_def, simp add: demo_program_def demo_processors_def start_event_def event_handler_ctor_def)
qed

lemma demo_runs:
  assumes "boot_system demo_system_env 0 [''cam'', ip] demo_program = Inr (Some s0)"
  shows "program_run demo_system_env 0 [''cam'', ip] demo_program s0 s0"
  using assms demo_rtsp_world_inv [of None]
  by (auto simp: program_run_def demo_system_env_def demo_program_def demo_rtsp_world_def intro: system_reachable.Boot)

lemma program_run_step:
  "program_run e dev argv g s0 s \<Longrightarrow> system_step e act s = Inr (Some s') \<Longrightarrow>
   program_run e dev argv g s0 s'"
  unfolding program_run_def by (blast intro: system_reachable.Act)

subsection \<open>Every reachable state\<close>

text \<open>
  C1: The program stays in order.  In every state that the camera, the distributor, the event threads,
  HTTP requests, RTSP sessions, their packets, the live stream and the cleaner reach from \<open>main\<close>'s boot by
  any interleaving, with event programs of any rate and a camera of any rate: every session owns its object and
  its pipeline, the queue's frames and subscriptions are accounted for, every running event thread has a
  processor that was allocated once, what \<open>*con_cls\<close> points to is what its URL takes it for, and the free
  upload slots and the uploads in progress add up to the configured number.
\<close>
theorem program_reachable_safe:
  assumes run: "program_run e dev argv g s0 s"
  shows "system_inv {} (mn_steps e) (cs_rtsp s) \<and> vq_inv {} (queue_of s) \<and> events_ok (cs_events s) \<and>
    requests_typed (cs_requests s) \<and>
    slots_kept (eh_upload_client (cs_http s0)) (cs_requests s) (eh_upload_client (cs_http s))"
  using composed_invD [OF program_run_inv [OF run]] by simp

theorem program_reachable_safe_witness:
  "\<exists>(s0 :: demo_state) s. boot_system demo_system_env 0 [''cam'', ''10.0.0.2''] demo_program = Inr (Some s0) \<and>
     system_step demo_system_env (Request_arrives 0 ''/program'' ''POST'' []) s0 = Inr (Some s) \<and>
     cs_requests s 0 \<noteq> None \<and> slots_kept 1 (cs_requests s) (eh_upload_client (cs_http s)) \<and> vq_inv {} (queue_of s)"
proof -
  let ?act = "Request_arrives 0 ''/program'' ''POST'' [] :: unit action"
  from demo_boots obtain s0 :: demo_state where b: "boot_system demo_system_env 0 [''cam'', ''10.0.0.2''] demo_program = Inr (Some s0)"
    and h: "cs_http s0 = demo_http" "cs_requests s0 = (\<lambda>_. None)" by blast
  obtain s where s: "system_step demo_system_env ?act s0 = Inr (Some s)" "cs_requests s 0 \<noteq> None"
    using h(2) by (simp add: request_arrives_def)
  from program_run_step [OF demo_runs [OF b] s(1)]
  have "program_run demo_system_env 0 [''cam'', ''10.0.0.2''] demo_program s0 s" .
  from program_reachable_safe [OF this] b s h show ?thesis by (auto simp: demo_http_def)
qed

lemma cleanup_throws_os: "cleanup_throws os cwd con fs \<Longrightarrow> os_cleanup os \<noteq> None"
proof -
  assume throws: "cleanup_throws os cwd con fs"
  then obtain c where c: "con = Some c" by (auto simp: cleanup_throws_def split: option.splits)
  let ?dir = "event_directory (cn_file_name c)"
  obtain removed fs1 where r: "(if dir_exists cwd ?dir fs then remove_tree (os_replace os) cwd ?dir fs else (True, fs)) =
      (removed, fs1)" by fastforce
  with throws c obtain fs2 where "make_directory (os_mkdir os) cwd ?dir fs1 = Inr fs2"
    by (cases "make_directory (os_mkdir os) cwd ?dir fs1") (simp_all add: cleanup_throws_def)
  moreover obtain saved fs3 where "save_program (os_open os) cwd c fs2 = (saved, fs3)" by fastforce
  ultimately have "\<not> fst (remove_tree (os_cleanup os) cwd ?dir fs3)" using throws c r by (simp add: cleanup_throws_def Let_def)
  then show ?thesis by (auto simp: remove_tree_def split: option.splits)
qed

text \<open>
  C5: \<open>*con_cls\<close> is typed by the request, and every request can end but one.  In every reachable state what a
  request keeps behind that pointer is what its URL and method take it for: the upload of a POST of
  \<open>/program\<close>, a post processor of a start or a stop, nothing otherwise.  So the completion callback, which
  sees the pointer only, returns, whatever the other threads do and whatever the operating system refuses, and
  what stays allocated for good is known: nothing or the rejected upload's object, and for every start or stop
  its post processor.  The exception is an upload that could not be saved and whose directory then cannot
  be removed (\<open>cleanup_throws\<close>): that removal is outside the \<open>try\<close> block, and its exception ends the program.
\<close>
theorem request_types:
  assumes run: "program_run e dev argv g s0 s" and slots: "in_int32 (eh_upload_client (cs_http s0))"
    and r: "cs_requests s k = Some r"
  shows "con_typed (hr_url r) (hr_method r) (hr_con r) \<and>
    (if cleanup_throws os (mn_cwd e) (hr_con r) (rw_fs (world_of s))
     then os_cleanup os \<noteq> None \<and> request_completes e mhd os k s = Inl (Uncaught Filesystem_error)
     else \<exists>ls s'. request_completes e mhd os k s = Inr (Some s') \<and> cs_requests s' = (cs_requests s)(k := None) \<and>
       cs_leaks s' = cs_leaks s @ ls \<and> request_leaks (hr_url r) (hr_con r) ls)"
proof -
  have inv: "composed_inv (eh_upload_client (cs_http s0)) e s" by (rule program_run_inv [OF run])
  from composed_invD(3) [OF inv] r show ?thesis
    using request_completes_returns [OF inv slots r, of os mhd] cleanup_throws_os by (auto simp: requests_typed_def)
qed

lemma demo_cleanup_throws:
  "cleanup_throws (os_fine\<lparr>os_open := \<lambda>_. False, os_cleanup := Some []\<rparr>) [] (Some (demo_upload ''7'')) demo_event_dir"
proof -
  have "locate fs [] (event_directory ''7'') = (if is_directory fs [''event''] then Some [''event'', ''7''] else None)" for fs
    using locate_event_dir [of "''7''" fs "[]"] by (simp add: plain_name_def is_directory_def fs_lookup_def)
  then show ?thesis
    by (simp add: cleanup_throws_def demo_upload_def dir_exists_def remove_tree_def make_directory_def save_program_def
        write_file_def open_out_def demo_event_dir_def is_directory_def fs_lookup_def os_fine_def create_directory_def
        remove_all_def fs_put_def below_def split: option.split)
qed

theorem request_types_witness:
  "\<exists>(s0 :: demo_state) s s'. boot_system demo_system_env 0 [''cam'', ''10.0.0.2''] demo_program = Inr (Some s0) \<and>
     system_step demo_system_env (Request_arrives 0 ''/program/start'' ''POST'' []) s0 = Inr (Some s) \<and>
     request_completes demo_system_env demo_mhd os_fine 0 s = Inr (Some s') \<and> cs_leaks s' = cs_leaks s \<and>
     cleanup_throws (os_fine\<lparr>os_open := \<lambda>_. False, os_cleanup := Some []\<rparr>) [] (Some (demo_upload ''7'')) demo_event_dir"
proof -
  let ?act = "Request_arrives 0 ''/program/start'' ''POST'' [] :: unit action"
  let ?r = "\<lparr>hr_url = ''/program/start'', hr_method = ''POST'', hr_headers = [], hr_con = None\<rparr> :: unit http_request"
  from demo_boots obtain s0 :: demo_state where b: "boot_system demo_system_env 0 [''cam'', ''10.0.0.2''] demo_program = Inr (Some s0)"
    and h: "cs_http s0 = demo_http" "cs_requests s0 = (\<lambda>_. None)" by blast
  obtain s where s: "system_step demo_system_env ?act s0 = Inr (Some s)" "cs_requests s 0 = Some ?r"
    using h(2) by (simp add: request_arrives_def)
  from program_run_step [OF demo_runs [OF b] s(1)]
  have run: "program_run demo_system_env 0 [''cam'', ''10.0.0.2''] demo_program s0 s" .
  have "in_int32 (eh_upload_client (cs_http s0))" by (simp add: h demo_http_def in_int32_def)
  moreover have none: "\<not> cleanup_throws os_fine cwd (None :: unit connection_info option) fs" for cwd fs by (simp add: cleanup_throws_def)
  ultimately show ?thesis using request_types [OF run _ s(2), of os_fine demo_mhd] b s demo_cleanup_throws
    by (auto simp: request_leaks_def)
qed

text \<open>
  C2: What can stop the process.  As long as memory, threads and descriptors last and the disk lets the program list
  and remove its recordings, no step of the program faults in a reachable state unless it is one of these.
  A capture from a camera that was not set up.  A frame for the distributor while a subscription has no period,
  because its program, or the live stream at its 30 frames per second, asked for more frames than the camera
  takes, or when the numbers of frames leave their range.  An event program's thread that subscribes at a rate the
  camera's cannot be divided by, 0 first of all; one that was stopped, before its subscription or
  while it waits inside \<open>pop\<close>; one that has no library, or has something to report to a server whose answers it
  cannot take.  A request for a clip, or a round of the cleaner, while a recording is not named by an \<open>int\<close>,
  the directory cannot be listed or the times leave the range of their types.  An upload whose post processor could
  not be created or whose rate is no \<open>int\<close>; a start or stop whose name has no end; a stop of a program that is not
  there.  The end of an upload that could not be saved nor removed.  A connection whose options cannot be set.  An RTSP
  request from a client that has gone, a first request without a path, a SETUP without ports or when no
  socket can be opened, a PLAY, PAUSE or TEARDOWN before a SETUP, any TEARDOWN that takes effect, and a first description
  of the live stream by a camera under its 30 frames per second or with a subscription without period.  A frame
  the stream's source refuses, one too many for its counter, or the wake-up of a stream whose subscription was
  removed while it waited.  Accepting, ending and describing recordings, their packets and clips being sent never fault.
\<close>
theorem faults_need_cause:
  assumes run: "program_run e dev argv g s0 s" and slots: "in_int32 (eh_upload_client (cs_http s0))"
    and ok: "\<not> may_fault e s act"
  shows "system_step e act s \<noteq> Inl f"
  using step_returns [OF program_run_inv [OF run] slots ok] by auto

theorem faults_need_cause_witness:
  "\<exists>s0 :: demo_state. boot_system demo_system_env 0 [''cam'', ''10.0.0.2''] demo_program = Inr (Some s0) \<and>
     h_processors (cs_events s0) 0 \<noteq> None \<and> system_step demo_system_env (Thread_enters 0 :: unit action) s0 \<noteq> Inl DivByZero"
proof -
  from demo_boots obtain s0 :: demo_state where b: "boot_system demo_system_env 0 [''cam'', ''10.0.0.2''] demo_program = Inr (Some s0)"
    and h: "cs_http s0 = demo_http" "h_processors (cs_events s0) 0 = Some (demo_processor\<lparr>ep_event_name := ''live''\<rparr>)" by blast
  from program_run_inv [OF demo_runs [OF b]] have "rates_ok (queue_of s0)" using composed_invD(6) vq_invD(1) by blast
  from rate_divides [OF _ this] have "\<not> may_fault demo_system_env s0 (Thread_enters 0 :: unit action)"
    by (simp add: may_fault_def h demo_processor_def)
  moreover have "in_int32 (eh_upload_client (cs_http s0))" by (simp add: h demo_http_def in_int32_def)
  ultimately show ?thesis using faults_need_cause [OF demo_runs [OF b]] b h(2) by blast
qed


subsection \<open>The live stream's subscription\<close>

text \<open>A system in order: the live stream described and fed, an event program of the same name, a stop request.\<close>

definition demo_live_queue :: vqueue where
  "demo_live_queue =
     \<lparr>q_device_fps = 30, q_input = [], q_frame_no = 0, q_output = [(''live'', [1])], q_thread_info = [(''live'', 0)],
      q_enable = True, q_bufs = [1 \<mapsto> demo_frame], q_infos = [0 \<mapsto> demo_info 1], q_next = 2\<rparr>"

lemma demo_live_queue_inv: "vq_inv {} demo_live_queue"
  by (auto simp: vq_inv_def rates_ok_def subs_ok_def bufs_ok_def demo_live_queue_def in_int32_def
      um_wf_def um_find_def owned_def demo_frame_def demo_info_def frame_ok_def split: if_splits)

definition demo_live :: "thread_phase \<Rightarrow> demo_state" where
  "demo_live ph =
     \<lparr>cs_config = Some demo_rtsp_config, cs_camera = demo_camera [], cs_capturing = False, cs_live_waiting = False,
      cs_rtsp = \<lparr>sy_sessions = (\<lambda>_. None), sy_path = [],
        sy_world = (demo_rtsp_world (Some demo_stream))\<lparr>rw_queue := demo_live_queue\<rparr>, sy_sent = []\<rparr>,
      cs_http = demo_http, cs_video = demo_handler,
      cs_events = \<lparr>h_event_thread = [(''live'', 0)], h_processors = [0 \<mapsto> demo_processor\<lparr>ep_event_name := ''live''\<rparr>],
        h_next = 1, h_running = [0]\<rparr>,
      cs_phase = (\<lambda>_. ph),
      cs_requests = [7 \<mapsto> \<lparr>hr_url = ''/program/stop'', hr_method = ''POST'', hr_headers = [],
        hr_con = Some (new_connection_info\<lparr>cn_postprocessor := Some (), cn_file_name := ''live''\<rparr>)\<rparr>],
      cs_responses = [], cs_clips = [], cs_leaks = [], cs_net = []\<rparr>"

lemma demo_live_queue_of: "queue_of (demo_live ph) = demo_live_queue"
  by (simp add: queue_of_def world_of_def demo_live_def del: system_simps)

lemma demo_live_described: "described (world_of (demo_live ph))"
  by (simp add: described_def world_of_def demo_live_def demo_rtsp_world_def demo_stream_def del: system_simps)

lemma demo_live_subs: "abs_subs demo_live_queue ''live'' = Some (demo_info 1)" "ti_is_run (demo_info 1)"
  by (simp_all add: demo_live_queue_def abs_subs_def um_find_def demo_info_def)

lemma demo_live_inv: "composed_inv 1 demo_system_env (demo_live ph)"
proof -
  have "rtsp_inv {} (sy_world (cs_rtsp (demo_live ph)))"
    using demo_live_queue_inv
    by (simp add: rtsp_inv_def refs_ok_def demo_live_def demo_rtsp_world_def demo_live_queue_def del: system_simps)
  moreover have "sy_sessions (cs_rtsp (demo_live ph)) = (\<lambda>_. None)" by (simp add: demo_live_def)
  ultimately have "system_inv {} (mn_steps demo_system_env) (cs_rtsp (demo_live ph))"
    unfolding system_inv_def boot_inv_def by (simp add: sess_own_def demo_system_env_def del: system_simps)
  moreover have "events_ok (cs_events (demo_live ph))"
    by (simp add: events_ok_def demo_live_def um_wf_def um_find_def)
  moreover have "requests_typed (cs_requests (demo_live ph))"
    by (simp add: requests_typed_def demo_live_def con_typed_def new_connection_info_def)
  moreover have "slots_kept 1 (cs_requests (demo_live ph)) (eh_upload_client (cs_http (demo_live ph)))"
    by (simp add: slots_kept_def uploads_of_def demo_live_def is_upload_def new_connection_info_def demo_http_def)
  ultimately show ?thesis by (simp add: composed_inv_def)
qed

text \<open>
  C4: Only a stop takes a subscription away.  Once the live stream has its description, a running
  subscription, the stream's or an event program's, keeps its rate and stays running along every run in
  which no \<open>/program/stop\<close> request names it: no RTSP request, no other program, no upload and no frame can
  end it.
\<close>
theorem subscription_survives:
  assumes inv: "composed_inv N e s" and live: "described (world_of s)"
    and sub: "abs_subs (queue_of s) n = Some i" "ti_is_run i"
    and reach: "system_reachable e (\<lambda>s act. n \<notin> stopped_by s act) s s'"
  shows "described (world_of s') \<and> abs_subs (queue_of s') n = Some i"
proof -
  have "composed_inv N e s' \<and> described (world_of s') \<and> abs_subs (queue_of s') n = Some i"
    using reach
  proof (induction rule: system_reachable.induct)
    case Boot
    with inv live sub show ?case by blast
  next
    case (Act s1 act s2)
    then have "step_keeps N e (stopped_by s1 act) s1 s2" by (blast intro: composed_step)
    with Act sub(2) show ?case by (auto simp: step_keeps_def queue_keeps_def)
  qed
  then show ?thesis by blast
qed

theorem subscription_survives_witness:
  "\<exists>s'. system_step demo_system_env (Distribute 0) (demo_live Starting) = Inr (Some s') \<and>
     abs_subs (queue_of s') ''live'' = Some (demo_info 1)"
proof -
  let ?adm = "\<lambda>(s :: demo_state) act. ''live'' \<notin> stopped_by s act"
  have "q_input demo_live_queue = []" by (simp add: demo_live_queue_def)
  with distribute_round_returns [OF demo_live_queue_inv, of 0] obtain s' where
    s': "system_step demo_system_env (Distribute 0) (demo_live Starting) = Inr (Some s')"
    by (auto simp: distribute_step_def demo_live_queue_of)
  have "system_reachable demo_system_env ?adm (demo_live Starting) s'"
    by (rule system_reachable.Act [OF system_reachable.Boot _ s']) (simp add: stopped_by_def)
  from subscription_survives [OF demo_live_inv demo_live_described, of Starting "''live''" "demo_info 1", OF _ _ this] s'
  show ?thesis by (simp add: demo_live_queue_of demo_live_subs)
qed

text \<open>The same system while its camera captures: a run that captures, distributes and pushes two frames.\<close>

definition demo_streaming :: demo_state where
  "demo_streaming = (demo_live Starting)\<lparr>cs_capturing := True, cs_camera := demo_camera (replicate N_CAM_BUF (Some 0))\<rparr>"

definition demo_captured :: vbuf where
  "demo_captured = \<lparr>vb_meta = \<lparr>vm_type = 0, vm_width = 4, vm_height = 2\<rparr>, vb_time = 1, vb_data = Some [1, 2, 3], vb_size = 3\<rparr>"

abbreviation demo_source :: need_data_env where
  "demo_source \<equiv> \<lparr>nd_is_app_src = True, nd_alloc = True, nd_map = True, nd_push = True\<rparr>"

lemma demo_streaming_frame:
  "composed_inv 1 demo_system_env demo_streaming" "world_of demo_streaming = world_of (demo_live Starting)"
  "queue_of demo_streaming = demo_live_queue"
  using demo_live_inv [of Starting] demo_live_queue_of [of Starting]
  by (simp_all add: demo_streaming_def composed_inv_def queue_of_def world_of_def del: system_simps)

lemma demo_waiting_run:
  "\<exists>s :: demo_state. streaming_run demo_system_env demo_streaming [demo_captured] s \<and>
     feeding 1 demo_system_env (demo_info 1) s \<and> cs_config s \<noteq> None \<and> rw_frame_cnt (world_of s) = 0 \<and>
     abs_queue (queue_of s) ''live'' = Some [demo_frame, frame_copy 5 demo_captured] \<and> a_input (abs_vq (queue_of s)) = []"
proof -
  define q1 where "q1 = demo_live_queue\<lparr>q_input := [2], q_bufs := [1 \<mapsto> demo_frame, 2 \<mapsto> demo_captured], q_next := 3\<rparr>"
  define q2 where "q2 = q1\<lparr>q_input := [], q_frame_no := 1, q_output := [(''live'', [1, 3])],
    q_bufs := [1 \<mapsto> demo_frame, 3 \<mapsto> frame_copy 5 demo_captured], q_next := 4\<rparr>"
  define c1 where "c1 = (demo_camera (replicate N_CAM_BUF (Some 0)))\<lparr>ci_dev := 1\<rparr>"
  let ?e = "demo_system_env :: (unit, unit, nat) system_env"
  define s1 where "s1 = (put_queue q1 demo_streaming)\<lparr>cs_camera := c1, cs_capturing := True\<rparr>"
  have "loop_round demo_driver (cs_camera demo_streaming, demo_live_queue) = Inr (None, c1, q1)"
    by (simp add: demo_streaming_def)
      (simp add: loop_round_def deque_v4l2_buffer_def demo_driver_def demo_camera_def queue_v4l2_buffer_def N_CAM_BUF_def
        memcpy_bytes_def new_buf_def push_def demo_live_queue_def demo_captured_def metadata_def c1_def q1_def)
  moreover have "cs_capturing demo_streaming" "sv_driver ?e = demo_driver"
    by (simp_all add: demo_streaming_def demo_system_env_def)
  ultimately have 1: "system_step ?e Capture demo_streaming = Inr (Some s1)"
    by (simp add: capture_step_def demo_streaming_frame s1_def)
  have c: "captured_by ?e demo_streaming Capture = [demo_captured]"
    by (simp add: captured_by_def demo_streaming_def)
      (simp add: captured_frames_def demo_camera_def demo_system_env_def demo_driver_def demo_captured_def metadata_def
        N_CAM_BUF_def)
  have w1: "world_of s1 = (world_of (demo_live Starting))\<lparr>rw_queue := q1\<rparr>" "queue_of s1 = q1" "cs_config s1 = Some demo_rtsp_config"
    by (simp_all add: s1_def demo_streaming_def demo_live_def queue_of_def world_of_def put_queue_def put_world_def del: system_simps)
  define s2 where "s2 = put_queue q2 s1"
  have "distribute_round 5 q1 = Inr q2"
    by (simp add: distribute_round_def q1_def q2_def demo_live_queue_def next_frame_no_def int_add_def chk32_def in_int32_def
        deliver_def read_info_def demo_info_def int_mod_def signed_modulo_int_def read_buf_def copy_frame_def memcpy_bytes_def demo_captured_def
        new_buf_def um_find_def um_modify_def delete_buf_def frame_copy_def)
  then have 2: "system_step ?e (Distribute 5) s1 = Inr (Some s2)"
    by (simp add: distribute_step_def w1(2) s2_def)
  have adm: "streams demo_streaming (Capture :: unit action)" "streams s1 (Distribute 5 :: unit action)"
    by (simp_all add: streams_def stopped_by_def turns_as_def source_accepts_def)
  have run: "streaming_run ?e demo_streaming [demo_captured] s2"
    using streaming_run.Step [OF streaming_run.Step [OF streaming_run.Start adm(1) 1] adm(2) 2]
    by (simp add: c) (simp add: captured_by_def)
  have "feeding 1 ?e (demo_info 1) demo_streaming"
    using demo_streaming_frame demo_live_described [of Starting] demo_live_subs
    by (simp add: feeding_def) (simp add: demo_live_queue_def abs_queue_def um_find_def buf_at_def demo_frame_def)
  note feeding_run [OF run this, THEN conjunct1]
  moreover have "abs_queue (queue_of s2) ''live'' = Some [demo_frame, frame_copy 5 demo_captured]" "a_input (abs_vq (queue_of s2)) = []"
    by (simp_all add: s2_def) (simp_all add: q2_def q1_def demo_live_queue_def abs_queue_def um_find_def buf_at_def abs_vq_def)
  moreover have "cs_config s2 \<noteq> None" "rw_frame_cnt (world_of s2) = 0"
    by (simp_all add: s2_def w1) (simp add: demo_live_def world_of_def demo_rtsp_world_def del: system_simps)
  ultimately show ?thesis using run by blast
qed

lemma demo_streaming_run:
  "\<exists>s' :: demo_state. streaming_run demo_system_env demo_streaming [demo_captured] s' \<and>
     abs_queue (queue_of s') ''live'' = Some [] \<and> q_input (queue_of s') = []"
proof -
  let ?e = "demo_system_env :: (unit, unit, nat) system_env"
  obtain s2 :: demo_state where run: "streaming_run ?e demo_streaming [demo_captured] s2"
    and f2: "feeding 1 ?e (demo_info 1) s2" and s2: "cs_config s2 \<noteq> None" "rw_frame_cnt (world_of s2) = 0"
      "abs_queue (queue_of s2) ''live'' = Some [demo_frame, frame_copy 5 demo_captured]" "a_input (abs_vq (queue_of s2)) = []"
    using demo_waiting_run by blast
  have data: "vb_data demo_frame \<noteq> None" "vb_data (frame_copy 5 demo_captured) \<noteq> None"
    by (simp_all add: demo_frame_def frame_copy_def)
  from live_frame_step [OF f2 s2(3) data(1), of demo_source] s2 obtain s3 where
    3: "system_step ?e (Live_frame demo_source) s2 = Inr (Some s3)" "streams s2 (Live_frame demo_source :: unit action)"
    "cs_config s3 = cs_config s2" "rw_frame_cnt (world_of s3) = 1"
    "abs_queue (queue_of s3) ''live'' = Some [frame_copy 5 demo_captured]" "a_input (abs_vq (queue_of s3)) = []"
    by (auto simp: in_int32_def)
  from feeding_step [OF f2 3(2,1)] have f3: "feeding 1 ?e (demo_info 1) s3" by blast
  from live_frame_step [OF f3 3(5) data(2), of demo_source] 3 s2(1)
  obtain s4 where 4: "system_step ?e (Live_frame demo_source) s3 = Inr (Some s4)" "streams s3 (Live_frame demo_source :: unit action)"
    "abs_queue (queue_of s4) ''live'' = Some []" "a_input (abs_vq (queue_of s4)) = []"
    by (auto simp: in_int32_def)
  from streaming_run.Step [OF streaming_run.Step [OF run 3(2,1)] 4(2,1)] have
    "streaming_run ?e demo_streaming [demo_captured] s4" by (simp add: captured_by_def)
  with 4(3,4) show ?thesis by (auto simp: abs_vq_def)
qed

text \<open>
  C3: Frames reach the viewers.  What the source of the playing stream was given, followed by what waits for
  it and by what is due to it of the input, is at the end of every run what it was at its start followed by
  the due ones of the frames the run captured: each due frame is sent with the driver's bytes, once, and in
  order of capture, none is lost, and the timestamps of the buffers count up by one frame.  The runs are all
  those, of all threads, in which nothing named \<open>live\<close> takes from the stream or is stopped, and the source
  accepts the buffers it asked for.
\<close>
theorem frames_reach_viewers:
  assumes inv: "composed_inv N e s" and live: "described (world_of s)"
    and sub: "abs_subs (queue_of s) ''live'' = Some i" "ti_is_run i"
    and q: "abs_queue (queue_of s) ''live'' = Some q" "\<forall>b \<in> set q. vb_data b \<noteq> None"
    and run: "streaming_run e s bs s'"
  shows "\<exists>q'. abs_queue (queue_of s') ''live'' = Some q' \<and>
    map snd (rw_pushed (world_of s')) @ map sent_bytes (q' @ owed i (queue_of s') (a_input (abs_vq (queue_of s')))) =
    map snd (rw_pushed (world_of s)) @ map sent_bytes (q @ owed i (queue_of s) (a_input (abs_vq (queue_of s)) @ bs)) \<and>
    map fst (rw_pushed (world_of s')) = map fst (rw_pushed (world_of s)) @
      map (\<lambda>k. word_of_int (frame_duration * k)) [rw_frame_cnt (world_of s) .. rw_frame_cnt (world_of s') - 1]"
proof -
  have line: "a_line n i (abs_vq v) cs = map sent_bytes (the (abs_queue v n) @ owed i v (a_input (abs_vq v) @ cs))" for n v cs
    by (simp add: a_line_def owed_def abs_vq_def)
  have "feeding N e i s" using inv live sub q by (simp add: feeding_def)
  from feeding_run [OF run this] have f: "feeding N e i s'" "stamped (world_of s) (world_of s')"
    and l: "ledger i s' [] = ledger i s bs" by simp_all
  from f(1) obtain q' where "abs_queue (queue_of s') ''live'' = Some q'" by (auto simp: feeding_def)
  with l f(2) q(1) show ?thesis by (simp add: ledger_def line stamped_def)
qed

theorem frames_reach_viewers_witness:
  "\<exists>s' :: demo_state. streaming_run demo_system_env demo_streaming [demo_captured] s' \<and>
     map snd (rw_pushed (world_of s')) = [[7, 8], [1, 2, 3]]"
proof -
  obtain s' :: demo_state where run: "streaming_run demo_system_env demo_streaming [demo_captured] s'"
    and drained: "abs_queue (queue_of s') ''live'' = Some []" "q_input (queue_of s') = []"
    using demo_streaming_run by blast
  have "described (world_of demo_streaming)" "abs_subs (queue_of demo_streaming) ''live'' = Some (demo_info 1)"
    "ti_is_run (demo_info 1)" "abs_queue (queue_of demo_streaming) ''live'' = Some [demo_frame]"
    "\<forall>b \<in> set [demo_frame]. vb_data b \<noteq> None"
    using demo_live_described [of Starting] demo_live_subs
    by (simp_all add: demo_streaming_frame) (simp_all add: demo_live_queue_def abs_queue_def um_find_def buf_at_def demo_frame_def)
  from frames_reach_viewers [OF demo_streaming_frame(1) this run] drained
  have "map snd (rw_pushed (world_of s')) = map snd (rw_pushed (world_of (demo_live Starting))) @
      map sent_bytes [demo_frame, demo_captured]"
    by (simp add: demo_streaming_frame abs_vq_def owed_def) (simp add: demo_live_queue_def demo_info_def)
  moreover have "rw_pushed (world_of (demo_live Starting)) = []"
    by (simp add: world_of_def demo_live_def demo_rtsp_world_def del: system_simps)
  ultimately show ?thesis using run by (auto simp: sent_bytes_def demo_frame_def demo_captured_def)
qed

lemma put_world_same: "put_world (world_of s) s = s"
  by (simp add: put_world_def world_of_def del: system_simps)

text \<open>
  C18: An event program called \<open>live\<close> takes the stream's place.  Event programs and the live stream share the
  queue's names.  When a program of that name starts, its subscription is refused as a duplicate and
  the refusal is ignored; each of its rounds then takes a frame meant for the viewers; and the client's
  request to stop it removes the live stream's subscription, after which the stream's source gets
  nothing and the buffer it asked for is never pushed; if the source's callback waits inside \<open>pop\<close> when the
  request comes, its next wake-up, by a frame that came before the request or a spurious one, reads through
  \<open>end()\<close>.
\<close>
theorem event_named_live:
  assumes inv: "composed_inv N e s" and sub: "abs_subs (queue_of s) ''live'' = Some i" "ti_is_run i"
    and p: "a \<in> set (h_running (cs_events s))" "h_processors (cs_events s) a = Some p" "ep_event_name p = ''live''"
    and f: "ep_event_program p = Some f" and env: "server_ok (mn_net e)" "ne_curl_init (mn_net e)"
    and r: "cs_requests s k = Some r" "hr_url r = ''/program/stop''" "hr_method r = ''POST''" "hr_con r = Some c"
      "cn_file_name c = ''live''"
    and prog: "um_find (h_event_thread (cs_events s)) ''live'' = Some a" and cfg: "cs_config s \<noteq> None"
  shows "(cs_phase s a = Starting \<longrightarrow>
      (\<exists>s'. thread_enters a s = Inr (Some s') \<and> abs_vq (queue_of s') = abs_vq (queue_of s))) \<and>
    (cs_phase s a = Looping \<and> abs_queue (queue_of s) ''live'' = Some (b # bs) \<longrightarrow>
      (\<exists>s'. thread_turns e a s = Inr (Some s') \<and> abs_queue (queue_of s') ''live'' = Some bs)) \<and>
    (\<exists>s'. request_data e mhd k [] s = Inr (Some s') \<and> abs_subs (queue_of s') ''live'' = None \<and>
      (\<forall>nd. live_step nd s' = (if cs_live_waiting s then Inl EndIterator else Inr (Some s'))))"
proof (intro conjI impI; (elim conjE)?)
  note q = composed_invD(6) [OF inv]
  from sub(1) obtain ti where ti: "um_find (q_thread_info (queue_of s)) ''live'' = Some ti"
    by (auto simp: abs_subs_def split: option.splits)
  {
    assume "cs_phase s a = Starting"
    obtain x q1 where n: "new_info \<lparr>ti_is_run = ep_enable p, ti_fps = ep_fps p\<rparr> (queue_of s) = (x, q1)" by fastforce
    note n1 = new_info_inv [OF q n]
    from n have "q_thread_info q1 = q_thread_info (queue_of s)" by (auto simp: new_info_def)
    with insert_event_dup [of q1 "''live''" ti "Some x"] ti n p(3) have "event_enter p (queue_of s) = Inr q1"
      by (simp add: event_enter_def)
    with p \<open>cs_phase s a = Starting\<close> n1(4)
    show "\<exists>s'. thread_enters a s = Inr (Some s') \<and> abs_vq (queue_of s') = abs_vq (queue_of s)"
      by (auto simp: thread_enters_def queue_of_def put_queue_def put_world_def world_of_def simp del: system_simps)
  next
    assume ph: "cs_phase s a = Looping" and b: "abs_queue (queue_of s) ''live'' = Some (b # bs)"
    from event_round_frame [OF q sub b p(3) f env, of "cs_http s" "cs_net s"] obtain q1 net1 where
      "event_round (mn_net e) (cs_http s) p (queue_of s, cs_net s) = Inr (Running, q1, net1)"
      "abs_queue q1 ''live'' = Some bs" by auto
    with p(1,2) ph show "\<exists>s'. thread_turns e a s = Inr (Some s') \<and> abs_queue (queue_of s') ''live'' = Some bs"
      by (auto simp: thread_turns_def thread_turn_def thread_round_def queue_of_def put_queue_def put_world_def world_of_def
          simp del: system_simps)
  }
  from ti have "(''live'', ti) \<in> set (q_thread_info (queue_of s))"
    using vq_invD(2) [OF q] by (simp add: um_find_mem subs_ok_def)
  from subs_ok_entry [OF vq_invD(2) [OF q] this] obtain l where "um_find (q_output (queue_of s)) ''live'' = Some l" by metis
  from remove_event_subscribed [OF q ti this] obtain q1 where rm: "remove_event ''live'' (queue_of s) = Inr (0, q1)"
    and q1: "abs_subs q1 = (abs_subs (queue_of s))(''live'' := None)"
      "q_thread_info q1 = um_erase ''live'' (q_thread_info (queue_of s))" by blast
  let ?h = "(cs_events s)\<lparr>h_processors := (h_processors (cs_events s))(a := None)\<rparr>"
  let ?v = "(http_view s)\<lparr>w_events := ?h, w_queue := q1\<rparr>"
  let ?s = "(put_http ?v s)\<lparr>cs_requests := (cs_requests s)(k \<mapsto> r\<lparr>hr_con := Some c\<rparr>)\<rparr>"
  from rm prog p(2) have "stop_event ''live'' (cs_events s, queue_of s) = Inr (0, ?h, q1)" by (simp add: stop_event_def)
  then have "request_data e mhd k [] s = Inr (Some ?s)"
    using r by (simp add: request_data_def libmicrohttpd_handler_def program_stop_accept_def)
  moreover have qs: "queue_of ?s = q1"
    by (simp add: queue_of_def world_of_def put_http_def put_world_def del: system_simps put_http_frame)
  moreover have "live_step nd ?s = (if cs_live_waiting s then Inl EndIterator else Inr (Some ?s))" for nd
  proof -
    have gone: "um_find (q_thread_info q1) ''live'' = None"
      using vq_invD(2) [OF q] by (simp add: q1(2) um_find_erase)
    then have pop: "pop ''live'' (rw_queue (world_of ?s)) = Inr (Some (None, rw_queue (world_of ?s)))"
      using qs by (simp add: pop_unsubscribed queue_of_def)
    have "cs_config ?s \<noteq> None" using cfg by (simp add: put_http_def)
    then have "play_need_data (cs_config ?s) nd (world_of ?s) = Inr (Some (world_of ?s))"
      using pop by (auto simp: play_need_data_def play_popped_def)
    moreover have "play_resume nd (world_of ?s) = Inl EndIterator"
      using gone qs by (simp add: play_resume_def pop_resume_def pop_wait_pred_def pop_is_run_def queue_of_def)
    moreover have "?s\<lparr>cs_live_waiting := False\<rparr> = ?s" if "\<not> cs_live_waiting s"
      using that by (simp add: put_http_def put_world_def)
    ultimately show ?thesis by (simp add: live_step_def put_world_same put_http_def)
  qed
  ultimately show "\<exists>s'. request_data e mhd k [] s = Inr (Some s') \<and> abs_subs (queue_of s') ''live'' = None \<and>
      (\<forall>nd. live_step nd s' = (if cs_live_waiting s then Inl EndIterator else Inr (Some s')))"
    using q1(1) by (intro exI [of _ ?s]) (simp del: system_simps)
qed

theorem event_named_live_witness:
  "(\<exists>s s'. thread_turns demo_system_env 0 (demo_live Looping) = Inr (Some s) \<and> abs_queue (queue_of s) ''live'' = Some [] \<and>
     request_data demo_system_env demo_mhd 7 [] (demo_live Looping) = Inr (Some s') \<and>
     abs_subs (queue_of s') ''live'' = None \<and> live_step demo_source s' = Inr (Some s')) \<and>
   (\<exists>s'. request_data demo_system_env demo_mhd 7 [] ((demo_live Looping)\<lparr>cs_live_waiting := True\<rparr>) = Inr (Some s') \<and>
     live_step demo_source s' = Inl EndIterator)"
proof -
  let ?p = "demo_processor\<lparr>ep_event_name := ''live''\<rparr>"
  let ?s = "\<lambda>b. (demo_live Looping)\<lparr>cs_live_waiting := b\<rparr>" and ?r = "the (cs_requests (demo_live Looping) 7)"
  have inv: "composed_inv 1 demo_system_env (?s b)" for b
    using demo_live_inv [of Looping] by (simp add: composed_inv_def)
  have h: "abs_subs (queue_of (?s b)) ''live'' = Some (demo_info 1)" "ti_is_run (demo_info 1)"
    "0 \<in> set (h_running (cs_events (?s b)))" "h_processors (cs_events (?s b)) 0 = Some ?p" "ep_event_name ?p = ''live''"
    "ep_event_program ?p = Some (\<lambda>data size t w h. if size = 2 then 1 else 0)"
    "server_ok (mn_net demo_system_env)" "ne_curl_init (mn_net demo_system_env)"
    "cs_requests (?s b) 7 = Some ?r" "hr_url ?r = ''/program/stop''" "hr_method ?r = ''POST''"
    "hr_con ?r = Some (the (hr_con ?r))" "cn_file_name (the (hr_con ?r)) = ''live''"
    "um_find (h_event_thread (cs_events (?s b))) ''live'' = Some 0" "cs_config (?s b) \<noteq> None" for b
    using demo_live_subs demo_env_ok
    by (simp_all add: demo_live_queue_of) (simp_all add: demo_live_def demo_processor_def demo_system_env_def demo_env_def um_find_def)
  have ph: "cs_phase (?s b) 0 = Looping" "abs_queue (queue_of (?s b)) ''live'' = Some [demo_frame]" for b
    by (simp_all add: demo_live_queue_of) (simp_all add: demo_live_def demo_live_queue_def abs_queue_def um_find_def buf_at_def)
  have "?s False = demo_live Looping" by (simp add: demo_live_def)
  with event_named_live [OF inv h, of False demo_frame "[]" demo_mhd] ph [of False]
    event_named_live [OF inv h, of True demo_frame "[]" demo_mhd]
  show ?thesis by (intro conjI) (auto simp: demo_live_def)
qed


end
