(* ===== verification/Spec2Isabelle.thy ===== *)
theory Spec2Isabelle
  imports Config_Props Camera_Props Http_Props Streamer_Props Main_Props Program_Props
begin

text \<open>
  A model of the camera program under \<open>src/rpi_cam_app/\<close> (paths below are relative to it) and what it
  guarantees.  The program is one process with many threads: it captures frames from a V4L2 device,
  distributes them to subscribers at their own rates, runs user-supplied event programs on them, reports
  what they find over HTTP, takes event programs and clip requests over HTTP, and serves the live
  stream and recordings over RTSP.

  \<^bold>\<open>Foundations.\<close>
  \<^item> \<open>Prelude\<close>: the result type.  An operation ends in a \<open>fault\<close> (null dereference, use after free, double
    free, \<open>end()\<close> dereferenced, division by zero, overflow, uninitialised read, uncaught exception) or in a
    value; \<open>rbind\<close>, \<open>sbind\<close> and \<open>rfold\<close> sequence such computations.  \<open>None\<close> inside a result is a call that
    does not return (it blocks, or its loop never ends).
  \<^item> \<open>Cxx_Base\<close>: \<open>int\<close> in 32 bits, \<open>std::string\<close> with \<open>size_t\<close> positions that wrap around at \<open>npos\<close>, \<open>stoi\<close>,
    \<open>to_string\<close>.  \<open>Cxx_Map\<close>: \<open>std::unordered_map\<close>, with the locale of its laws.  \<open>Cxx_Fs\<close>: paths, files and
    directories, with the locale of its laws.

  \<^bold>\<open>Components.\<close>
  \<^item> \<open>Config\<close>, \<open>Config_Props\<close> (\<open>src/config/\<close>, \<open>include/utils/Singleton.hpp\<close>): the five configuration objects as records,
    \<open>set_file\<close> with its partial updates and statuses, the singleton \<open>ProgramConfig\<close>.  The locale
    \<open>config_reader\<close> states what a section's reader does; the http, video and camera readers interpret it.
  \<^item> \<open>Video_Queue\<close>, \<open>Video_Queue_Spec\<close>, \<open>Video_Queue_Run\<close>, \<open>Video_Queue_Sharing\<close>, \<open>Video_Queue_Flow\<close>, \<open>Video_Queue_Props\<close>
    (\<open>src/camera_device/VideoQueue.cpp\<close>): the frame queue
    with its heap of frames and \<open>ThreadInfo\<close> objects; an abstract queue of frames per event and the
    simulation of \<open>distribute_round\<close>; the step relation \<open>vq_step\<close> of all threads and the invariant \<open>vq_inv\<close>
    of its reachable states.  \<open>vq_inv H s\<close>: \<open>H\<close> are the frames callers hold, every other live frame is in exactly one
    queue.  \<open>queue_keeps\<close> is what every operation does to the subscriptions of others: nothing, unless it removes them by name.
    \<open>a_line\<close> is the way of the frames to one subscriber, by value, and \<open>passes\<close> what leaves it alone.
  \<^item> \<open>Camera\<close>, \<open>Camera_Props\<close> (\<open>src/camera_device/CameraInitializer.cpp\<close>): opening, mapping, the capture loop.
  \<^item> \<open>Video\<close>, \<open>Video_Props\<close>, \<open>Video_Progress\<close> (\<open>src/video/VideoHandler.cpp\<close>): clips and the removal of old recordings, and
    what can make them fault on any store.
  \<^item> \<open>Event\<close>, \<open>Event_Props\<close> (\<open>src/event/\<close>): the event programs, their loader and threads.
  \<^item> \<open>Http_Client\<close>, \<open>Http_Server\<close>, \<open>Http_Init\<close>, \<open>Http_Props\<close> (\<open>src/http/\<close>): the requests the camera sends, the handlers of
    the requests it takes, uploads with their completion callback, the first boot; \<open>http_step\<close> is the relation of all
    clients' requests.
  \<^item> \<open>Gst\<close> (\<open>include/rtsp/handler/\<close>): GStreamer objects as reference counts the program owns, the session and
    codec objects, the caps of samples, SDP messages.  \<open>refs_ok\<close>: each session object owns the only
    reference to its pipeline.
  \<^item> \<open>Rtsp_File\<close>, \<open>Rtsp_File_Spec\<close> (\<open>src/rtsp/handler/gst_file/\<close>): DESCRIBE to TEARDOWN of a recording, the sinks'
    callbacks, the pads, the bus thread; \<open>file_inv\<close> and its preservation by every request.
  \<^item> \<open>Rtsp_Live\<close>, \<open>Rtsp_Spec\<close> (\<open>src/rtsp/handler/gst_live/\<close>): the multicast stream singleton, the feeding callbacks
    and the live handler; what \<open>make_sdp\<close>, \<open>set_stream\<close> and \<open>play_stream\<close> guarantee.
  \<^item> \<open>Rtsp_Session\<close>, \<open>Rtsp_Contract\<close>, \<open>Rtsp_Props\<close> (\<open>src/rtsp/session/\<close>, \<open>src/rtsp/server/\<close>): sessions, the listener, and the
    contract of a handler as the locale \<open>rtsp_session_handler\<close>; the file handler, the live handler and
    the virtual call over both interpret it, and the facts about sessions come from the interpretation \<open>rtsp\<close>.
  \<^item> \<open>Rtsp_System\<close>: all sessions at once with the threads beside them, as the step relation \<open>rtsp_step\<close>; the locale
    \<open>owned_sessions\<close> adds to the contract that a handler touches no object but its own (\<open>touches\<close>), and its
    interpretation \<open>prog\<close> carries the invariant \<open>system_inv\<close> through every interleaving.
  \<^item> \<open>Streamer\<close>, \<open>Streamer_Props\<close> (\<open>src/video/VideoStreamerGST.cpp\<close>, \<open>src/video/GstreamerCallbacks.cpp\<close>): the GStreamer RTSP server
    and its clients' threads.
  \<^item> \<open>Main_Program\<close>, \<open>Main_Props\<close> (\<open>src/video/VideoInitializer.cpp\<close>, \<open>src/main.cpp\<close>): the start of the video part and the order
    in which \<open>main\<close> builds everything; \<open>camera_thread\<close> is the thread \<open>main\<close> detaches for the camera.

  \<^bold>\<open>The whole program.\<close>  Eight theories compose the components once \<open>main\<close> serves.
  \<^item> \<open>Program_System\<close>: the state of all parts on one queue and one file system (\<open>camera_system\<close>); \<open>system_step\<close>, one
    step of one thread, request or session, chosen by an \<open>action\<close> that carries what its environment answers;
    \<open>boot_system\<close>, what \<open>main\<close> leaves; \<open>system_reachable\<close>, the states of the runs whose actions are admitted.  Runs are
    restricted to event programs at rates the camera serves (\<open>rate_served\<close>), since the others divide by zero.
  \<^item> \<open>Rtsp_Quiet\<close>: once the stream has a description, no RTSP request touches the queue (locale
    \<open>quiet_sessions\<close>, interpreted as \<open>quiet\<close>).  \<open>Rtsp_Progress\<close>: which calls of a handler may fault (\<open>file_faulty\<close>,
    \<open>live_faulty\<close>), and that every other request of a session returns (locale \<open>judged_sessions\<close>, interpreted as \<open>judged\<close>).
  \<^item> \<open>Program_Inv\<close>: \<open>composed_inv\<close>, the invariant of the composition: \<open>system_inv\<close> of the sessions, \<open>events_ok\<close> of the event
    threads, \<open>requests_typed\<close> of the untyped pointers \<open>*con_cls\<close>, \<open>slots_kept\<close> of the upload slots; \<open>handler_effect\<close> is
    what an HTTP request does to the others, \<open>composed_step\<close> the preservation by every action.
  \<^item> \<open>Program_Boot\<close>: the boot establishes it, whichever part failed on the way.  \<open>Program_Progress\<close>: \<open>may_fault\<close> lists the
    causes that can stop the process, \<open>step_returns\<close> shows that there is no other.  \<open>Program_Stream\<close>: the account of the
    live stream (\<open>ledger\<close>) from the driver's frames to the buffers pushed, over runs with the frames they captured
    (\<open>streaming_run\<close>).  \<open>Program_Props\<close>: the theorems, with a concrete camera for their witnesses.

  \<^bold>\<open>How they interact.\<close>  \<open>main\<close> reads the configuration, starts the camera thread, the HTTP part, the event
  programs and the video part, and ends up serving RTSP.  The camera pushes frames into the queue, the
  distributor copies them to the subscribed events, and event programs, RTSP clients and the live stream
  \<open>pop\<close> and free them: all theorems about these consumers rest on \<open>vq_inv\<close>.  The HTTP handlers share the
  video and event handlers and the file system with the rest.

  \<^bold>\<open>What the theorems show.\<close>  Safety of the whole program in every interleaving of its threads, the causes that can stop it, the types of
  its requests, what keeps the live stream fed and that the camera's frames reach it, each once and in order.  Memory safety of the queue in every interleaving and its refinement of the abstract
  queue; rates; exact effects of capture, clips, removal and uploads; conservation of upload slots;
  the life of event programs and RTSP sessions; the answers of a live session as a function of each request;
  termination of the stream's description; and the faults the code reaches, each as a theorem about
  the inputs that lead there.

  \<^bold>\<open>Parameters.\<close>  Code that is not in the repository is an argument of the model: the property tree library, V4L2, the
  dynamic loader, libcurl, libmicrohttpd, GStreamer (\<open>rtsp_env\<close>, \<open>gst_env\<close>, the records of each callback), asio
  and the RTSP message library (\<open>rtsp_conn\<close>, the list of events of a connection), the clock, the uuid
  generator, and the values of uninitialised variables the code reads.

  \<^bold>\<open>Loops.\<close>  Loops over data are structural recursions.  Loops that end only on an outside event take the
  sequence of those events (bus polls, captured frames, requests, packets) and are \<open>None\<close> when it runs
  out, so no fuel has to be chosen; \<open>feed_rounds\<close> and \<open>event_rounds\<close> run a given number of rounds, and the
  theorems show that one round more than the waiting frames reaches the blocked state.

  \<^bold>\<open>Not modelled.\<close>  Log output and the vendored \<open>spdlog\<close>; the abstract class headers \<open>Initializer.hpp\<close> and \<open>VideoStreamer.hpp\<close>,
  which have no code; the tests and the build files.  Data races on unlocked shared data (the path map of the
  RTSP listener, the stream's counters, the \<open>_is_run\<close> flags) are outside the model: each operation is
  one step.  A request is one step of \<open>rtsp_step\<close> and \<open>system_step\<close>, so two DESCRIBE requests that run \<open>make_sdp\<close> at the
  same time are not interleaved (once the stream has its description, which a boot leaves unless its elements cannot be
  linked, \<open>make_sdp\<close> only returns it), and a frame that a thread has popped is used and freed in the same
  step.  The boot is composed after the set-up of the camera's thread, which the code runs beside it; the two
  share only the queue.  \<open>VideoStreamerGST\<close>, which \<open>main\<close> does not start, and the end of the process are not part of the composition.
\<close>

end
